(* ===== verification/Prelude.thy ===== *)
theory Prelude
  imports Main "HOL-Library.Multiset"
begin

text \<open>
  Shared vocabulary of the development: result types, Rust's saturating and clamping
  arithmetic, ASCII text operations of the standard library, the byte order SQLite uses
  to compare text, and the table operations (stable \<open>order by\<close>, guarded
  \<open>update\<close>, lookup by primary key) every component of the jobs store is written with.
\<close>

named_theorems text_simps "evaluation of text operations"
named_theorems table_simps "table operations"

subsection \<open>Rust integers\<close>

text \<open>\<open>i64\<close> values are integers in range; saturating operations clamp to the range.\<close>

definition i64_max :: int where "i64_max = 9223372036854775807"
definition i64_min :: int where "i64_min = - 9223372036854775808"

definition sat_i64 :: "int \<Rightarrow> int" where
  "sat_i64 x = max i64_min (min i64_max x)"

definition saturating_add :: "int \<Rightarrow> int \<Rightarrow> int" where
  "saturating_add a b = sat_i64 (a + b)"

definition saturating_sub :: "int \<Rightarrow> int \<Rightarrow> int" where
  "saturating_sub a b = sat_i64 (a - b)"

definition saturating_mul :: "int \<Rightarrow> int \<Rightarrow> int" where
  "saturating_mul a b = sat_i64 (a * b)"

lemma sat_i64_id: "i64_min \<le> x \<Longrightarrow> x \<le> i64_max \<Longrightarrow> sat_i64 x = x"
  by (simp add: sat_i64_def)

lemma sat_i64_bounds: "i64_min \<le> sat_i64 x" "sat_i64 x \<le> i64_max"
  by (simp_all add: sat_i64_def i64_min_def i64_max_def)

text \<open>\<open>i64::try_from(n).unwrap_or(i64::MAX)\<close> for an unsigned \<open>n\<close>.\<close>

definition i64_of_nat :: "nat \<Rightarrow> int" where
  "i64_of_nat n = (if int n \<le> i64_max then int n else i64_max)"

definition clamp :: "'a::linorder \<Rightarrow> 'a \<Rightarrow> 'a \<Rightarrow> 'a" where
  "clamp lo hi x = (if x < lo then lo else if hi < x then hi else x)"

lemma clamp_bounds: "lo \<le> hi \<Longrightarrow> lo \<le> clamp lo hi x \<and> clamp lo hi x \<le> hi"
  by (auto simp: clamp_def)

lemma clamp_id [simp]: "lo \<le> x \<Longrightarrow> x \<le> hi \<Longrightarrow> clamp lo hi x = x"
  by (auto simp: clamp_def)

subsection \<open>ASCII text\<close>

definition char_code :: "char \<Rightarrow> nat" where
  "char_code c = of_char c"

definition is_ascii_digit :: "char \<Rightarrow> bool" where
  "is_ascii_digit c \<longleftrightarrow> 48 \<le> char_code c \<and> char_code c \<le> 57"

definition is_ascii_upper :: "char \<Rightarrow> bool" where
  "is_ascii_upper c \<longleftrightarrow> 65 \<le> char_code c \<and> char_code c \<le> 90"

definition is_ascii_lower :: "char \<Rightarrow> bool" where
  "is_ascii_lower c \<longleftrightarrow> 97 \<le> char_code c \<and> char_code c \<le> 122"

definition is_ascii_alphanumeric :: "char \<Rightarrow> bool" where
  "is_ascii_alphanumeric c \<longleftrightarrow> is_ascii_digit c \<or> is_ascii_upper c \<or> is_ascii_lower c"

definition is_ascii_control :: "char \<Rightarrow> bool" where
  "is_ascii_control c \<longleftrightarrow> char_code c < 32 \<or> char_code c = 127"

definition to_ascii_lowercase :: "char \<Rightarrow> char" where
  "to_ascii_lowercase c = (if is_ascii_upper c then char_of (char_code c + 32) else c)"

abbreviation lowercase :: "string \<Rightarrow> string" where
  "lowercase s \<equiv> map to_ascii_lowercase s"

definition eq_ignore_ascii_case :: "string \<Rightarrow> string \<Rightarrow> bool" where
  "eq_ignore_ascii_case a b \<longleftrightarrow> lowercase a = lowercase b"

text \<open>
  \<open>str::trim\<close> strips Unicode white space. On the ASCII range these are the code points
  9 to 13 and 32; the model's strings are ASCII, so nothing else is white space.
\<close>

definition is_whitespace :: "char \<Rightarrow> bool" where
  "is_whitespace c \<longleftrightarrow> (9 \<le> char_code c \<and> char_code c \<le> 13) \<or> char_code c = 32"

definition trim :: "string \<Rightarrow> string" where
  "trim s = rev (dropWhile is_whitespace (rev (dropWhile is_whitespace s)))"

subsection \<open>The order of text\<close>

text \<open>
  SQLite compares text columns with the BINARY collation (\<open>memcmp\<close>), Rust compares
  \<open>str\<close> byte by byte: both are the lexicographic order of the byte values.
\<close>

fun text_less :: "string \<Rightarrow> string \<Rightarrow> bool" where
  "text_less _ [] = False"
| "text_less [] (_ # _) = True"
| "text_less (x # xs) (y # ys) =
     (if x = y then text_less xs ys else char_code x < char_code y)"

lemma char_code_inject: "char_code a = char_code b \<longleftrightarrow> a = b"
  by (simp add: char_code_def)

lemma text_less_irrefl [simp]: "\<not> text_less xs xs"
  by (induction xs) auto

lemma text_less_asym: "text_less xs ys \<Longrightarrow> \<not> text_less ys xs"
  by (induction xs ys rule: text_less.induct) (auto split: if_splits)

lemma text_less_trans: "text_less xs ys \<Longrightarrow> text_less ys zs \<Longrightarrow> text_less xs zs"
proof (induction xs ys arbitrary: zs rule: text_less.induct)
  case (3 x xs y ys)
  then show ?case by (cases zs) (auto split: if_splits simp: char_code_inject)
qed (auto elim: text_less.elims)

lemma text_less_linear: "text_less xs ys \<or> xs = ys \<or> text_less ys xs"
proof (induction xs ys rule: text_less.induct)
  case (3 x xs y ys)
  then show ?case using char_code_inject [of x y] by fastforce
next
  case (1 xs)
  then show ?case by (cases xs) auto
qed auto

text \<open>Where two texts agree on a prefix of equal length, the rest decides.\<close>

lemma text_less_append_same [simp]: "text_less (ps @ xs) (ps @ ys) = text_less xs ys"
  by (induction ps) auto

lemma text_less_append_prefix:
  "length ps = length qs \<Longrightarrow> text_less ps qs \<Longrightarrow> text_less (ps @ xs) (qs @ ys)"
  by (induction ps qs rule: list_induct2) (auto split: if_splits)

subsection \<open>Decimal digits\<close>

definition digit_char :: "nat \<Rightarrow> char" where
  "digit_char n = char_of (48 + n)"

definition digit_value :: "char \<Rightarrow> nat" where
  "digit_value c = char_code c - 48"

lemma char_code_digit_char: "n < 10 \<Longrightarrow> char_code (digit_char n) = 48 + n"
  by (simp add: char_code_def digit_char_def)

lemma is_ascii_digit_digit_char [simp]: "n < 10 \<Longrightarrow> is_ascii_digit (digit_char n)"
  by (simp add: is_ascii_digit_def char_code_digit_char)

lemma digit_value_digit_char [simp]: "n < 10 \<Longrightarrow> digit_value (digit_char n) = n"
  by (simp add: digit_value_def char_code_digit_char)

text \<open>Decimal rendering of an unsigned integer, and its rendering zero-padded to a width.\<close>

fun show_nat :: "nat \<Rightarrow> string" where
  "show_nat n = (if n < 10 then [digit_char n] else show_nat (n div 10) @ [digit_char (n mod 10)])"

declare show_nat.simps [simp del]

definition pad_nat :: "nat \<Rightarrow> nat \<Rightarrow> string" where
  "pad_nat w n = (let s = show_nat n in replicate (w - length s) (digit_char 0) @ s)"

definition show_int :: "int \<Rightarrow> string" where
  "show_int i = (if i < 0 then CHR ''-'' # show_nat (nat (- i)) else show_nat (nat i))"

text \<open>
  \<open>format!("{i:0w}")\<close>: the sign is part of the width.
\<close>

definition pad_int :: "nat \<Rightarrow> int \<Rightarrow> string" where
  "pad_int w i = (if i < 0 then CHR ''-'' # pad_nat (w - 1) (nat (- i)) else pad_nat w (nat i))"

text \<open>The value of a run of digits, most significant first.\<close>

definition digits_value :: "string \<Rightarrow> nat" where
  "digits_value s = foldl (\<lambda>n c. 10 * n + digit_value c) 0 s"

lemma digits_value_snoc [simp]: "digits_value (s @ [c]) = 10 * digits_value s + digit_value c"
  by (simp add: digits_value_def)

lemma show_nat_digits: "list_all is_ascii_digit (show_nat n)"
proof (induction n rule: show_nat.induct)
  case (1 n)
  then show ?case by (subst show_nat.simps) simp
qed

lemma digits_value_show_nat: "digits_value (show_nat n) = n"
proof (induction n rule: show_nat.induct)
  case (1 n)
  show ?case
  proof (cases "n < 10")
    case True
    then show ?thesis by (subst show_nat.simps) (simp add: digits_value_def)
  next
    case False
    with 1 show ?thesis by (subst show_nat.simps) simp
  qed
qed

lemma digits_value_leading_zeros:
  "digits_value (replicate k (digit_char 0) @ s) = digits_value s"
  by (induction k) (simp_all add: digits_value_def)

lemma digits_value_pad_nat [simp]: "digits_value (pad_nat w n) = n"
  by (simp add: pad_nat_def Let_def digits_value_leading_zeros digits_value_show_nat)

lemma pad_nat_digits: "list_all is_ascii_digit (pad_nat w n)"
  by (simp add: pad_nat_def Let_def show_nat_digits list_all_iff) (use show_nat_digits in \<open>auto simp: list_all_iff\<close>)

text \<open>In two and four columns the padded rendering is the digits written out.\<close>

lemma pad_nat_2: "n < 100 \<Longrightarrow> pad_nat 2 n = [digit_char (n div 10), digit_char (n mod 10)]"
  by (auto simp: pad_nat_def Let_def show_nat.simps [of n] show_nat.simps [of "n div 10"])

lemma show_nat_small: "n < 10 \<Longrightarrow> show_nat n = [digit_char n]"
  by (simp add: show_nat.simps)

lemma show_nat_snoc: "10 \<le> n \<Longrightarrow> show_nat n = show_nat (n div 10) @ [digit_char (n mod 10)]"
  by (subst show_nat.simps) simp

lemma div_10_10: "n div 10 div 10 = n div (100::nat)" "n div 10 div 100 = n div (1000::nat)"
  by (simp_all add: div_mult2_eq [symmetric])

lemma pad_nat_4:
  assumes "n < 10000"
  shows "pad_nat 4 n =
    [digit_char (n div 1000), digit_char (n div 100 mod 10), digit_char (n div 10 mod 10), digit_char (n mod 10)]"
proof -
  consider "n < 10" | "10 \<le> n" "n < 100" | "100 \<le> n" "n < 1000" | "1000 \<le> n" by linarith
  then show ?thesis
  proof cases
    case 1
    then show ?thesis by (simp add: pad_nat_def show_nat_small numeral_3_eq_3)
  next
    case 2
    then show ?thesis by (simp add: pad_nat_def show_nat_small show_nat_snoc numeral_2_eq_2)
  next
    case 3
    then have "show_nat n = [digit_char (n div 100), digit_char (n div 10 mod 10), digit_char (n mod 10)]"
      by (simp add: show_nat_snoc [of n] show_nat_snoc [of "n div 10"] show_nat_small div_10_10)
    with 3 show ?thesis by (simp add: pad_nat_def)
  next
    case 4
    with assms have "show_nat n =
      [digit_char (n div 1000), digit_char (n div 100 mod 10), digit_char (n div 10 mod 10), digit_char (n mod 10)]"
      by (simp add: show_nat_snoc [of n] show_nat_snoc [of "n div 10"] show_nat_snoc [of "n div 100"]
          show_nat_small div_10_10 div_mult2_eq [symmetric])
    then show ?thesis by (simp add: pad_nat_def)
  qed
qed

subsection \<open>Stable ordering of rows\<close>

text \<open>
  \<open>order by\<close> over a table whose rows stand in \<open>rowid\<close> order: insertion sort with a
  strict comparison \<open>before\<close>, stable, so rows the comparison does not separate keep their
  \<open>rowid\<close> order.
\<close>

fun insert_row :: "('r \<Rightarrow> 'r \<Rightarrow> bool) \<Rightarrow> 'r \<Rightarrow> 'r list \<Rightarrow> 'r list" where
  "insert_row before x [] = [x]"
| "insert_row before x (y # ys) =
     (if before y x then y # insert_row before x ys else x # y # ys)"

definition order_by :: "('r \<Rightarrow> 'r \<Rightarrow> bool) \<Rightarrow> 'r list \<Rightarrow> 'r list" where
  "order_by before rows = foldr (insert_row before) rows []"

lemma order_by_Nil [simp]: "order_by before [] = []"
  by (simp add: order_by_def)

lemma order_by_Cons: "order_by before (x # xs) = insert_row before x (order_by before xs)"
  by (simp add: order_by_def)

lemma mset_insert_row [simp]: "mset (insert_row before x ys) = add_mset x (mset ys)"
  by (induction ys) auto

lemma mset_order_by [simp]: "mset (order_by before rows) = mset rows"
  by (induction rows) (simp_all add: order_by_Cons)

lemma set_order_by [simp]: "set (order_by before rows) = set rows"
  by (metis mset_order_by set_mset_mset)

lemma length_order_by [simp]: "length (order_by before rows) = length rows"
  by (metis mset_order_by size_mset)

lemma order_by_eq_Nil [simp]: "order_by before rows = [] \<longleftrightarrow> rows = []"
  by (metis length_0_conv length_order_by)

text \<open>
  The contract of a comparison: a strict weak order. Under it the result is sorted, and the
  first row is a least one.
\<close>

locale row_order =
  fixes before :: "'r \<Rightarrow> 'r \<Rightarrow> bool"
  assumes before_asym: "before x y \<Longrightarrow> \<not> before y x"
    and before_negtrans: "\<not> before x y \<Longrightarrow> \<not> before y z \<Longrightarrow> \<not> before x z"
begin

lemma before_irrefl: "\<not> before x x"
  using before_asym by blast

lemma sorted_insert_row:
  "sorted_wrt (\<lambda>a b. \<not> before b a) ys \<Longrightarrow> sorted_wrt (\<lambda>a b. \<not> before b a) (insert_row before x ys)"
proof (induction ys)
  case (Cons y ys)
  have set_ins: "set (insert_row before x zs) = insert x (set zs)" for zs
    by (metis mset_insert_row set_mset_add_mset_insert set_mset_mset)
  show ?case
  proof (cases "before y x")
    case True
    with Cons show ?thesis by (auto simp: set_ins before_asym)
  next
    case False
    with Cons.prems show ?thesis using before_negtrans by auto
  qed
qed simp

lemma sorted_order_by: "sorted_wrt (\<lambda>a b. \<not> before b a) (order_by before rows)"
  by (induction rows) (simp_all add: order_by_Cons sorted_insert_row)

lemma order_by_first: "order_by before rows = r # rest \<Longrightarrow> r' \<in> set rows \<Longrightarrow> \<not> before r' r"
  using sorted_order_by [of rows] before_irrefl set_order_by [of before rows]
  by (metis list.set_intros insert_iff list.simps(15) sorted_wrt.simps(2))

end

text \<open>Lexicographic refinement of one comparison by another.\<close>

definition then_by :: "('r \<Rightarrow> 'r \<Rightarrow> bool) \<Rightarrow> ('r \<Rightarrow> 'r \<Rightarrow> bool) \<Rightarrow> 'r \<Rightarrow> 'r \<Rightarrow> bool" where
  "then_by f g x y \<longleftrightarrow> f x y \<or> (\<not> f y x \<and> g x y)"

lemma row_order_then_by:
  assumes "row_order f" and "row_order g"
  shows "row_order (then_by f g)"
proof
  fix x y z
  from assms row_order.before_asym show "then_by f g x y \<Longrightarrow> \<not> then_by f g y x"
    unfolding then_by_def by metis
  assume "\<not> then_by f g x y" and "\<not> then_by f g y z"
  then have xy: "\<not> f x y" "f y x \<or> \<not> g x y" and yz: "\<not> f y z" "f z y \<or> \<not> g y z"
    by (auto simp: then_by_def)
  have nt: "\<not> f x z" using row_order.before_negtrans [OF assms(1)] xy yz by blast
  moreover have "f z x \<or> \<not> g x z"
  proof (cases "f y x \<or> f z y")
    case True
    then show ?thesis
      using row_order.before_negtrans [OF assms(1)] row_order.before_asym [OF assms(1)] xy yz by metis
  next
    case False
    with xy yz show ?thesis using row_order.before_negtrans [OF assms(2)] by blast
  qed
  ultimately show "\<not> then_by f g x z" by (auto simp: then_by_def)
qed

lemma row_order_text: "row_order (\<lambda>a b. text_less (key a) (key b))"
  by unfold_locales (metis text_less_asym, metis text_less_linear text_less_trans)

lemma row_order_linorder: "row_order (\<lambda>a b. (key a :: 'k::linorder) < key b)"
  by unfold_locales auto

lemma row_order_flip: "row_order f \<Longrightarrow> row_order (\<lambda>a b. f b a)"
  unfolding row_order_def by blast

subsection \<open>Tables\<close>

text \<open>
  \<open>update t set f where P\<close>: every matching row is rewritten in place. The number of
  affected rows is the number of matching ones.
\<close>

definition sql_update :: "('r \<Rightarrow> bool) \<Rightarrow> ('r \<Rightarrow> 'r) \<Rightarrow> 'r list \<Rightarrow> 'r list" where
  "sql_update P f = map (\<lambda>r. if P r then f r else r)"

lemma length_sql_update [simp]: "length (sql_update P f t) = length t"
  by (simp add: sql_update_def)

lemma sql_update_Nil [simp]: "sql_update P f [] = []"
  by (simp add: sql_update_def)

lemma sql_update_Cons [simp]: "sql_update P f (r # t) = (if P r then f r else r) # sql_update P f t"
  by (simp add: sql_update_def)

lemma sql_update_append [simp]: "sql_update P f (t @ u) = sql_update P f t @ sql_update P f u"
  by (simp add: sql_update_def)

lemma sql_update_none: "\<forall>r\<in>set t. \<not> P r \<Longrightarrow> sql_update P f t = t"
  by (simp add: sql_update_def map_idI)

lemma set_sql_update: "set (sql_update P f t) = (\<lambda>r. if P r then f r else r) ` set t"
  by (simp add: sql_update_def)

lemma map_sql_update_same: "(\<And>r. P r \<Longrightarrow> key (f r) = key r) \<Longrightarrow> map key (sql_update P f t) = map key t"
  by (induction t) auto

lemma list_all2_sql_update:
  "(\<And>r. r \<in> set t \<Longrightarrow> \<not> P r \<Longrightarrow> R r r) \<Longrightarrow> (\<And>r. r \<in> set t \<Longrightarrow> P r \<Longrightarrow> R r (f r)) \<Longrightarrow>
   list_all2 R t (sql_update P f t)"
  by (induction t) auto

text \<open>\<open>select ... where key = k\<close> on a primary key.\<close>

definition lookup_row :: "('r \<Rightarrow> 'k) \<Rightarrow> 'k \<Rightarrow> 'r list \<Rightarrow> 'r option" where
  "lookup_row key k t = find (\<lambda>r. key r = k) t"

lemma lookup_row_Nil [simp]: "lookup_row key k [] = None"
  by (simp add: lookup_row_def)

lemma lookup_row_Cons [simp]:
  "lookup_row key k (r # t) = (if key r = k then Some r else lookup_row key k t)"
  by (simp add: lookup_row_def)

lemma lookup_row_append:
  "lookup_row key k (t @ u) = (case lookup_row key k t of None \<Rightarrow> lookup_row key k u | Some r \<Rightarrow> Some r)"
  by (induction t) auto

lemma lookup_row_SomeD: "lookup_row key k t = Some r \<Longrightarrow> r \<in> set t \<and> key r = k"
  by (induction t) (auto split: if_splits)

lemma lookup_row_None: "lookup_row key k t = None \<longleftrightarrow> k \<notin> key ` set t"
  by (induction t) auto

lemma lookup_row_member: "distinct (map key t) \<Longrightarrow> r \<in> set t \<Longrightarrow> lookup_row key (key r) t = Some r"
  by (induction t) auto

lemma lookup_row_sql_update:
  assumes "\<And>r. P r \<Longrightarrow> key (f r) = key r"
  shows "lookup_row key k (sql_update P f t) =
    map_option (\<lambda>r. if P r then f r else r) (lookup_row key k t)"
  using assms by (induction t) auto

end
