(* ===== verification/Bytes.thy ===== *)
theory Bytes
  imports Prelude "HOL-Library.Sublist"
begin

text \<open>
  Byte strings as the container readers use them: a file is the list of its bytes, a position is
  a natural number, and the operations of the standard library that fail (\<open>slice::get\<close>,
  \<open>checked_add\<close>, \<open>Read::read_exact\<close>) return an option. Fixed-width integers are read from their
  bytes in either order; a \<open>u64\<close> is a natural number below \<open>2 ^ 64\<close>.
\<close>

section \<open>Integers\<close>

definition u64_limit :: nat where "u64_limit = 2 ^ 64"

definition checked_u64 :: "nat \<Rightarrow> nat option" where
  "checked_u64 n = (if n < u64_limit then Some n else None)"

lemma checked_u64_Some [simp]: "checked_u64 n = Some m \<longleftrightarrow> m = n \<and> n < u64_limit"
  by (auto simp: checked_u64_def)

fun from_le_bytes :: "string \<Rightarrow> nat" where
  "from_le_bytes [] = 0"
| "from_le_bytes (b # bs) = char_code b + 256 * from_le_bytes bs"

definition from_be_bytes :: "string \<Rightarrow> nat" where
  "from_be_bytes bs = from_le_bytes (rev bs)"

lemma char_code_less [simp]: "char_code c < 256"
  by (simp add: char_code_def)

lemma from_le_bytes_less: "from_le_bytes bs < 256 ^ length bs"
proof (induction bs)
  case (Cons b bs)
  have "char_code b + 256 * from_le_bytes bs < 256 * (from_le_bytes bs + 1)"
    using char_code_less [of b] by (simp add: distrib_left)
  also have "\<dots> \<le> 256 * 256 ^ length bs" using Cons.IH by (intro mult_le_mono2) linarith
  finally show ?case by simp
qed simp

lemma from_be_bytes_less: "from_be_bytes bs < 256 ^ length bs"
  using from_le_bytes_less [of "rev bs"] by (simp add: from_be_bytes_def)

text \<open>The bytes of an integer, most significant first (\<open>to_be_bytes\<close>).\<close>

fun to_le_bytes :: "nat \<Rightarrow> nat \<Rightarrow> string" where
  "to_le_bytes 0 n = []"
| "to_le_bytes (Suc w) n = char_of (n mod 256) # to_le_bytes w (n div 256)"

definition to_be_bytes :: "nat \<Rightarrow> nat \<Rightarrow> string" where
  "to_be_bytes w n = rev (to_le_bytes w n)"

lemma length_to_le_bytes [simp]: "length (to_le_bytes w n) = w"
  by (induction w arbitrary: n) auto

lemma length_to_be_bytes [simp]: "length (to_be_bytes w n) = w"
  by (simp add: to_be_bytes_def)

lemma from_to_le_bytes: "n < 256 ^ w \<Longrightarrow> from_le_bytes (to_le_bytes w n) = n"
proof (induction w arbitrary: n)
  case (Suc w)
  then have "n div 256 < 256 ^ w" by (simp add: less_mult_imp_div_less mult.commute)
  with Suc.IH show ?case by (simp add: char_code_def)
qed simp

lemma from_to_be_bytes: "n < 256 ^ w \<Longrightarrow> from_be_bytes (to_be_bytes w n) = n"
  by (simp add: from_be_bytes_def to_be_bytes_def from_to_le_bytes)

section \<open>Slices and streams\<close>

text \<open>\<open>&bytes[from..to]\<close> for a range that lies inside the slice.\<close>

definition slice :: "nat \<Rightarrow> nat \<Rightarrow> 'a list \<Rightarrow> 'a list" where
  "slice a b bytes = take (b - a) (drop a bytes)"

text \<open>\<open>bytes.get(from..to)\<close>.\<close>

definition get_slice :: "nat \<Rightarrow> nat \<Rightarrow> 'a list \<Rightarrow> 'a list option" where
  "get_slice a b bytes = (if a \<le> b \<and> b \<le> length bytes then Some (slice a b bytes) else None)"

lemma length_slice [simp]: "b \<le> length xs \<Longrightarrow> length (slice a b xs) = b - a"
  by (auto simp: slice_def)

lemma slice_append_right: "length xs \<le> a \<Longrightarrow> slice a b (xs @ ys) = slice (a - length xs) (b - length xs) ys"
  by (simp add: slice_def)

lemma slice_append_left: "b \<le> length xs \<Longrightarrow> slice a b (xs @ ys) = slice a b xs"
  by (cases "a \<le> b") (simp_all add: slice_def)

lemma slice_all [simp]: "slice 0 (length xs) xs = xs" "slice a a xs = []"
  by (simp_all add: slice_def)

lemma slice_join: "a \<le> b \<Longrightarrow> b \<le> c \<Longrightarrow> slice a b xs @ slice b c xs = slice a c xs"
  using take_add [of "b - a" "c - b" "drop a xs"] by (simp add: slice_def)

text \<open>\<open>Read::read_exact\<close>: the bytes asked for and the rest of the stream, or nothing.\<close>

definition read_exact :: "nat \<Rightarrow> string \<Rightarrow> (string \<times> string) option" where
  "read_exact n stream = (if length stream < n then None else Some (take n stream, drop n stream))"

section \<open>Searching\<close>

text \<open>\<open>haystack.windows(needle.len()).any(|w| w == needle)\<close>, guarded by the lengths.\<close>

definition contains_bytes :: "'a list \<Rightarrow> 'a list \<Rightarrow> bool" where
  "contains_bytes needle haystack \<longleftrightarrow>
     length needle \<le> length haystack \<and>
     list_ex (\<lambda>i. take (length needle) (drop i haystack) = needle) [0..<Suc (length haystack - length needle)]"

lemma contains_bytes_iff: "contains_bytes needle haystack \<longleftrightarrow> sublist needle haystack"
proof
  assume "contains_bytes needle haystack"
  then obtain i where "take (length needle) (drop i haystack) = needle"
    unfolding contains_bytes_def list_ex_iff by blast
  then show "sublist needle haystack" unfolding sublist_def by (metis append_take_drop_id)
next
  assume "sublist needle haystack"
  then obtain a b where "haystack = a @ needle @ b" by (auto simp: sublist_def)
  then show "contains_bytes needle haystack"
    by (auto simp: contains_bytes_def list_ex_iff intro!: bexI [of _ "length a"])
qed

end
