(* ===== verification/PngSpans.thy ===== *)
theory PngSpans
  imports Bytes
begin

text \<open>
  Removing the application's text chunks from a PNG (\<open>workflow_png.rs\<close>). The walk over the chunk
  framing yields the spans to remove; the stripped file is the concatenation of the spans between
  them. The walk is compared with a reading of the file as a list of framed chunks and a remainder.
\<close>

section \<open>Model\<close>

definition WORKFLOW_CHUNK_KEYWORD :: string where "WORKFLOW_CHUNK_KEYWORD = ''sceneworks:workflow''"
definition PARAMETERS_CHUNK_KEYWORD :: string where "PARAMETERS_CHUNK_KEYWORD = ''parameters''"

definition PNG_SIGNATURE :: string where
  "PNG_SIGNATURE = [CHR 0x89, CHR ''P'', CHR ''N'', CHR ''G'', CHR 0x0D, CHR 0x0A, CHR 0x1A, CHR 0x0A]"

definition TEXT_CHUNK_TYPES :: "string list" where
  "TEXT_CHUNK_TYPES = [''iTXt'', ''tEXt'', ''zTXt'']"

definition CHUNK_OVERHEAD :: nat where "CHUNK_OVERHEAD = 12"

datatype 'e workflow_chunk_error =
    ChunkIo string
  | NotPng
  | Png string
  | DuplicateChunk nat
  | MetadataTooLarge nat
  | TextTooLarge nat nat
  | UnreadableChunk nat string
  | Envelope 'e
  | Encode string

record span =
  span_start :: nat
  span_end :: nat

type_synonym 'e spans_result = "'e workflow_chunk_error + span list"
type_synonym 'e strip_result = "'e workflow_chunk_error + string option"

definition span_len :: "span \<Rightarrow> nat" where
  "span_len s = span_end s - span_start s"

definition span_is_empty :: "span \<Rightarrow> bool" where
  "span_is_empty s \<longleftrightarrow> span_start s \<ge> span_end s"

datatype chunk_owner = OwnerEnvelope | OwnerParameters

definition chunk_end :: "string \<Rightarrow> nat \<Rightarrow> nat option" where
  "chunk_end bytes cursor =
     Option.bind (get_slice cursor (cursor + 8) bytes) (\<lambda>header.
     let len = from_be_bytes (take 4 header) in
     Option.bind (checked_u64 (cursor + CHUNK_OVERHEAD)) (\<lambda>framed.
     Option.bind (checked_u64 (framed + len)) (\<lambda>end.
     if end \<le> length bytes then Some end else None)))"

definition text_chunk_owner :: "string \<Rightarrow> string \<Rightarrow> chunk_owner option" where
  "text_chunk_owner kind data =
     (if \<not> List.member TEXT_CHUNK_TYPES kind then None
      else let keyword = takeWhile (\<lambda>byte. byte \<noteq> CHR 0x00) data in
        if keyword = WORKFLOW_CHUNK_KEYWORD then Some OwnerEnvelope
        else if keyword = PARAMETERS_CHUNK_KEYWORD then Some OwnerParameters else None)"

definition has_envelope :: "('s \<times> chunk_owner) list \<Rightarrow> bool" where
  "has_envelope candidates = list_ex (\<lambda>(_, owner). owner = OwnerEnvelope) candidates"

definition resolve_spans :: "('s \<times> chunk_owner) list \<Rightarrow> 's list" where
  "resolve_spans candidates =
     (let ours = has_envelope candidates in
      map fst (filter (\<lambda>(_, owner). ours \<or> owner = OwnerEnvelope) candidates))"

definition hidden_keyword :: "string \<Rightarrow> bool \<Rightarrow> string option" where
  "hidden_keyword haystack include_parameters =
     (if contains_bytes WORKFLOW_CHUNK_KEYWORD haystack then Some WORKFLOW_CHUNK_KEYWORD
      else let framed = PARAMETERS_CHUNK_KEYWORD @ [CHR 0x00] in
        if include_parameters \<and> contains_bytes framed haystack then Some PARAMETERS_CHUNK_KEYWORD else None)"

lemma chunk_end_bounds: "chunk_end bytes cursor = Some e \<Longrightarrow> cursor + 12 \<le> e \<and> e \<le> length bytes"
  by (auto simp: chunk_end_def CHUNK_OVERHEAD_def Let_def bind_eq_Some_conv split: if_splits)

text \<open>The loop of \<open>workflow_chunk_spans\<close> from a cursor on.\<close>

function walk_chunks ::
  "string \<Rightarrow> nat \<Rightarrow> bool \<Rightarrow> (span \<times> chunk_owner) list \<Rightarrow> 'e workflow_chunk_error + span list" where
  "walk_chunks bytes cursor past_iend candidates =
     (if cursor < length bytes then
        (case chunk_end bytes cursor of
           None \<Rightarrow>
             if \<not> past_iend then
               Inl (Png (''the chunk at byte '' @ show_nat cursor @ '' runs past the end of the file''))
             else
               let tail = drop cursor bytes; ours = has_envelope candidates in
               (case hidden_keyword tail ours of
                  Some found \<Rightarrow>
                    Inl (Png (show_nat (length tail) @ '' bytes of trailing data at byte '' @ show_nat cursor
                      @ '' are not chunk framing and carry `'' @ found
                      @ ''`, so a copy of this file cannot be vouched for''))
                | None \<Rightarrow> Inr (resolve_spans candidates))
         | Some end \<Rightarrow>
             let kind = slice (cursor + 4) (cursor + 8) bytes;
                 past_iend = (past_iend \<or> kind = ''IEND'') in
             (case text_chunk_owner kind (slice (cursor + 8) (end - 4) bytes) of
                Some owner \<Rightarrow>
                  walk_chunks bytes end past_iend
                    (candidates @ [(\<lparr> span_start = cursor, span_end = end \<rparr>, owner)])
              | None \<Rightarrow> walk_chunks bytes end past_iend candidates))
      else if \<not> past_iend then
        Inl (Png (''the chunk framing ends at byte '' @ show_nat cursor
          @ '' without an IEND, so this PNG is truncated and a copy of it would not decode''))
      else Inr (resolve_spans candidates))"
  by pat_completeness auto
termination
  by (relation "measure (\<lambda>(bytes, cursor, _). length bytes - cursor)") (auto dest: chunk_end_bounds)

declare walk_chunks.simps [simp del]

definition workflow_chunk_spans :: "string \<Rightarrow> 'e workflow_chunk_error + span list" where
  "workflow_chunk_spans bytes =
     (if length bytes < length PNG_SIGNATURE \<or> take (length PNG_SIGNATURE) bytes \<noteq> PNG_SIGNATURE then Inr []
      else walk_chunks bytes (length PNG_SIGNATURE) False [])"

fun kept_from :: "nat \<Rightarrow> nat \<Rightarrow> span list \<Rightarrow> span list" where
  "kept_from len cursor [] = (if cursor < len then [\<lparr> span_start = cursor, span_end = len \<rparr>] else [])"
| "kept_from len cursor (s # removed) =
     (if span_start s > cursor then [\<lparr> span_start = cursor, span_end = span_start s \<rparr>] else [])
       @ kept_from len (span_end s) removed"

definition kept_spans :: "nat \<Rightarrow> span list \<Rightarrow> span list" where
  "kept_spans len removed = kept_from len 0 removed"

definition span_bytes :: "string \<Rightarrow> span \<Rightarrow> string" where
  "span_bytes bytes s = slice (span_start s) (span_end s) bytes"

definition strip_workflow_chunk :: "string \<Rightarrow> 'e strip_result" where
  "strip_workflow_chunk bytes =
     (case workflow_chunk_spans bytes of
        Inl e \<Rightarrow> Inl e
      | Inr spans \<Rightarrow>
          if spans = [] then Inr None
          else Inr (Some (concat (map (span_bytes bytes) (kept_spans (length bytes) spans)))))"

text \<open>
  Copying a file without its workflow. The file system is a parameter: reading gives the contents or
  the message of an error, writing and copying also give the file system they leave.
\<close>

record 'w copy_fs =
  fs_read :: "'w \<Rightarrow> string \<Rightarrow> string + string"
  fs_write :: "'w \<Rightarrow> string \<Rightarrow> string \<Rightarrow> string option \<times> 'w"
  fs_copy :: "'w \<Rightarrow> string \<Rightarrow> string \<Rightarrow> string option \<times> 'w"

definition copy_without_workflow_chunk ::
  "'w copy_fs \<Rightarrow> 'w \<Rightarrow> string \<Rightarrow> string \<Rightarrow> ('e workflow_chunk_error + bool) \<times> 'w" where
  "copy_without_workflow_chunk fs w source destination =
     (case fs_read fs w source of
        Inl e \<Rightarrow> (Inl (ChunkIo e), w)
      | Inr bytes \<Rightarrow>
          (case strip_workflow_chunk bytes of
             Inl e \<Rightarrow> (Inl e, w)
           | Inr (Some stripped) \<Rightarrow>
               (case fs_write fs w destination stripped of
                  (Some e, w) \<Rightarrow> (Inl (ChunkIo e), w)
                | (None, w) \<Rightarrow> (Inr True, w))
           | Inr None \<Rightarrow>
               (case fs_copy fs w source destination of
                  (Some e, w) \<Rightarrow> (Inl (ChunkIo e), w)
                | (None, w) \<Rightarrow> (Inr False, w))))"

section \<open>Reading the envelope\<close>

definition MAX_WORKFLOW_TEXT_BYTES :: nat where "MAX_WORKFLOW_TEXT_BYTES = 1024 * 1024"
definition MAX_METADATA_BYTES :: nat where "MAX_METADATA_BYTES = 8 * 1024 * 1024"
definition WORKFLOW_KIND_IMAGE :: string where "WORKFLOW_KIND_IMAGE = ''image''"

text \<open>
  The \<open>png\<close> crate and the envelope parser are parameters: the international text chunks before the
  image data, those of the whole file when its tail can be walked, the bounded decompression, and
  the parser with the kind of the envelope it returns.
\<close>

datatype decoding_error = LimitsExceeded | OtherDecodingError string

record ('c, 's, 'e) png_reader =
  read_info :: "string \<Rightarrow> decoding_error + 'c list"
  finish_info :: "string \<Rightarrow> 'c list option"
  chunk_keyword :: "'c \<Rightarrow> string"
  decompress_text_with_limit :: "nat \<Rightarrow> 'c \<Rightarrow> string + 'c"
  get_text :: "'c \<Rightarrow> string + string"
  parse_share :: "string \<Rightarrow> 'e + 's"
  share_kind :: "'s \<Rightarrow> string"
  unsupported_kind :: "string \<Rightarrow> string \<Rightarrow> 'e"

definition select_workflow_chunk ::
  "('c, 's, 'e) png_reader \<Rightarrow> 'c list \<Rightarrow> 'e workflow_chunk_error + 'c option" where
  "select_workflow_chunk r utf8_text =
     (case filter (\<lambda>chunk. chunk_keyword r chunk = WORKFLOW_CHUNK_KEYWORD) utf8_text of
        [] \<Rightarrow> Inr None
      | [only] \<Rightarrow> Inr (Some only)
      | many \<Rightarrow> Inl (DuplicateChunk (length many)))"

definition workflow_chunk_after_image_data ::
  "('c, 's, 'e) png_reader \<Rightarrow> string \<Rightarrow> 'e workflow_chunk_error + 'c option" where
  "workflow_chunk_after_image_data r bytes =
     (case finish_info r bytes of None \<Rightarrow> Inr None | Some utf8_text \<Rightarrow> select_workflow_chunk r utf8_text)"

definition read_workflow_chunk :: "('c, 's, 'e) png_reader \<Rightarrow> string \<Rightarrow> 'e workflow_chunk_error + 's option" where
  "read_workflow_chunk r bytes =
     (case read_exact (length PNG_SIGNATURE) bytes of
        None \<Rightarrow> Inl NotPng
      | Some (signature, _) \<Rightarrow>
          if signature \<noteq> PNG_SIGNATURE then Inl NotPng
          else
            (case read_info r bytes of
               Inl LimitsExceeded \<Rightarrow> Inl (MetadataTooLarge MAX_METADATA_BYTES)
             | Inl (OtherDecodingError e) \<Rightarrow> Inl (Png e)
             | Inr utf8_text \<Rightarrow>
                 (case (case select_workflow_chunk r utf8_text of
                          Inr None \<Rightarrow> workflow_chunk_after_image_data r bytes
                        | found \<Rightarrow> found) of
                    Inl e \<Rightarrow> Inl e
                  | Inr None \<Rightarrow> Inr None
                  | Inr (Some chunk) \<Rightarrow>
                      (case decompress_text_with_limit r MAX_WORKFLOW_TEXT_BYTES chunk of
                         Inl e \<Rightarrow> Inl (UnreadableChunk MAX_WORKFLOW_TEXT_BYTES e)
                       | Inr chunk \<Rightarrow>
                           (case get_text r chunk of
                              Inl e \<Rightarrow> Inl (UnreadableChunk MAX_WORKFLOW_TEXT_BYTES e)
                            | Inr txt \<Rightarrow>
                                if length txt > MAX_WORKFLOW_TEXT_BYTES
                                then Inl (TextTooLarge (length txt) MAX_WORKFLOW_TEXT_BYTES)
                                else
                                  (case parse_share r txt of
                                     Inl e \<Rightarrow> Inl (Envelope e)
                                   | Inr share \<Rightarrow>
                                       if share_kind r share \<noteq> WORKFLOW_KIND_IMAGE
                                       then Inl (Envelope (unsupported_kind r (share_kind r share) WORKFLOW_KIND_IMAGE))
                                       else Inr (Some share)))))))"

section \<open>The file as a list of chunks\<close>

text \<open>
  The reference reading: whole framed chunks from the front, and the bytes no chunk accounts for.
\<close>

function frames :: "string \<Rightarrow> string list \<times> string" where
  "frames rest =
     (case chunk_end rest 0 of
        None \<Rightarrow> ([], rest)
      | Some n \<Rightarrow> (let (fs, t) = frames (drop n rest) in (take n rest # fs, t)))"
  by pat_completeness auto
termination
  by (relation "measure length") (auto dest: chunk_end_bounds)

declare frames.simps [simp del]

definition frame_kind :: "string \<Rightarrow> string" where
  "frame_kind f = slice 4 8 f"

definition frame_owner :: "string \<Rightarrow> chunk_owner option" where
  "frame_owner f = text_chunk_owner (frame_kind f) (slice 8 (length f - 4) f)"

text \<open>A chunk of ours, given whether the file carries an envelope.\<close>

definition is_ours :: "bool \<Rightarrow> string \<Rightarrow> bool" where
  "is_ours ours f \<longleftrightarrow> frame_owner f = Some OwnerEnvelope \<or> (ours \<and> frame_owner f = Some OwnerParameters)"

definition carries_envelope :: "string list \<Rightarrow> bool" where
  "carries_envelope fs \<longleftrightarrow> Some OwnerEnvelope \<in> frame_owner ` set fs"

definition is_frame :: "string \<Rightarrow> bool" where
  "is_frame f \<longleftrightarrow> chunk_end f 0 = Some (length f)"

lemma chunk_end_iff:
  assumes "length bytes < u64_limit"
  shows "chunk_end bytes c = Some e \<longleftrightarrow>
    e = c + 12 + from_be_bytes (slice c (c + 4) bytes) \<and> c + 8 \<le> length bytes \<and> e \<le> length bytes"
  using assms
  by (auto simp: chunk_end_def get_slice_def slice_def CHUNK_OVERHEAD_def Let_def bind_eq_Some_conv add.commute)

lemma chunk_end_None_iff:
  assumes "length bytes < u64_limit"
  shows "chunk_end bytes c = None \<longleftrightarrow>
    length bytes < c + 8 \<or> length bytes < c + 12 + from_be_bytes (slice c (c + 4) bytes)"
  using chunk_end_iff [OF assms] by (metis linorder_not_le not_Some_eq)

lemma chunk_end_shift:
  assumes "length (pre @ rest) < u64_limit"
  shows "chunk_end (pre @ rest) (length pre) = map_option ((+) (length pre)) (chunk_end rest 0)"
proof (cases "chunk_end rest 0")
  case None
  moreover have "chunk_end (pre @ rest) (length pre) = None"
    using assms None by (simp add: chunk_end_None_iff slice_append_right)
  ultimately show ?thesis by simp
next
  case (Some e)
  moreover have "chunk_end (pre @ rest) (length pre) = Some (length pre + e)"
    using assms Some by (simp add: chunk_end_iff slice_append_right)
  ultimately show ?thesis by simp
qed

lemma chunk_end_frame_append:
  assumes "length (f @ rest) < u64_limit" "is_frame f"
  shows "chunk_end (f @ rest) 0 = Some (length f)"
  using assms by (simp add: is_frame_def chunk_end_iff slice_append_left)

lemma is_frame_take:
  assumes "length rest < u64_limit" "chunk_end rest 0 = Some n"
  shows "is_frame (take n rest)"
  using assms by (simp add: is_frame_def chunk_end_iff slice_def min_def)

lemma is_frame_length: "is_frame f \<Longrightarrow> 12 \<le> length f"
  using chunk_end_bounds [of f 0] by (simp add: is_frame_def)

lemma chunk_end_Nil [simp]: "chunk_end [] c = None"
  by (simp add: chunk_end_def get_slice_def)

lemma frames_split:
  assumes "frames rest = (fs, t)" "length rest < u64_limit"
  shows "rest = concat fs @ t \<and> (\<forall>f\<in>set fs. is_frame f) \<and> chunk_end t 0 = None"
  using assms
proof (induction rest arbitrary: fs t rule: frames.induct)
  case (1 rest)
  show ?case
  proof (cases "chunk_end rest 0")
    case None
    with 1 show ?thesis by (simp add: frames.simps [of rest])
  next
    case (Some n)
    obtain gs where fs: "fs = take n rest # gs" and gs: "frames (drop n rest) = (gs, t)"
      using 1(2) Some by (auto simp: frames.simps [of rest] split: prod.splits)
    then show ?thesis
      using 1(1) [OF Some gs] 1(3) is_frame_take [OF 1(3) Some] append_take_drop_id [of n rest]
      by (metis (no_types, lifting) append_assoc concat.simps(2) diff_le_self le_less_trans length_drop set_ConsD)
  qed
qed

lemma frames_concat:
  assumes "\<forall>f\<in>set fs. is_frame f" "chunk_end t 0 = None" "length (concat fs @ t) < u64_limit"
  shows "frames (concat fs @ t) = (fs, t)"
  using assms
proof (induction fs)
  case Nil
  then show ?case by (simp add: frames.simps [of t])
next
  case (Cons f fs)
  then have "chunk_end (f @ concat fs @ t) 0 = Some (length f)" by (intro chunk_end_frame_append) auto
  moreover have "frames (concat fs @ t) = (fs, t)" using Cons by simp
  ultimately show ?case by (simp add: frames.simps [of "f @ concat fs @ t"])
qed

text \<open>What the walk does at the end of the framing.\<close>

definition walk_end ::
  "nat \<Rightarrow> string \<Rightarrow> bool \<Rightarrow> (span \<times> chunk_owner) list \<Rightarrow> 'e workflow_chunk_error + span list" where
  "walk_end cursor t past_iend candidates =
     (if \<not> past_iend then
        Inl (Png (if t = [] then ''the chunk framing ends at byte '' @ show_nat cursor
                    @ '' without an IEND, so this PNG is truncated and a copy of it would not decode''
                  else ''the chunk at byte '' @ show_nat cursor @ '' runs past the end of the file''))
      else case (if t = [] then None else hidden_keyword t (has_envelope candidates)) of
        Some found \<Rightarrow>
          Inl (Png (show_nat (length t) @ '' bytes of trailing data at byte '' @ show_nat cursor
                      @ '' are not chunk framing and carry `'' @ found
                      @ ''`, so a copy of this file cannot be vouched for''))
      | None \<Rightarrow> Inr (resolve_spans candidates))"

fun candidates_of :: "nat \<Rightarrow> string list \<Rightarrow> (span \<times> chunk_owner) list" where
  "candidates_of base [] = []"
| "candidates_of base (f # fs) =
     (case frame_owner f of
        None \<Rightarrow> []
      | Some owner \<Rightarrow> [(\<lparr> span_start = base, span_end = base + length f \<rparr>, owner)])
       @ candidates_of (base + length f) fs"

lemma walk_chunks_stop:
  assumes "length (pre @ t) < u64_limit" "chunk_end t 0 = None"
  shows "walk_chunks (pre @ t) (length pre) past cs = walk_end (length pre) t past cs"
proof (cases "t = []")
  case True
  then show ?thesis by (simp add: walk_chunks.simps [of pre] walk_end_def)
next
  case False
  with assms show ?thesis
    by (simp add: walk_chunks.simps [of "pre @ t"] chunk_end_shift walk_end_def Let_def split: option.splits)
qed

lemma walk_chunks_frame:
  assumes "length (pre @ f @ rest) < u64_limit" "is_frame f"
  shows "walk_chunks (pre @ f @ rest) (length pre) past cs =
    walk_chunks ((pre @ f) @ rest) (length (pre @ f)) (past \<or> frame_kind f = ''IEND'')
      (cs @ candidates_of (length pre) [f])"
proof -
  have len: "12 \<le> length f" using assms(2) by (rule is_frame_length)
  have "chunk_end (f @ rest) 0 = Some (length f)" using assms by (intro chunk_end_frame_append) auto
  then have ce: "chunk_end (pre @ f @ rest) (length pre) = Some (length pre + length f)"
    using assms(1) chunk_end_shift [of pre "f @ rest"] by simp
  have kind: "slice (length pre + 4) (length pre + 8) (pre @ f @ rest) = frame_kind f"
    using len by (simp add: slice_append_right slice_append_left frame_kind_def)
  have data: "slice (length pre + 8) (length pre + length f - 4) (pre @ f @ rest) = slice 8 (length f - 4) f"
    using len by (simp add: slice_append_right slice_append_left)
  from len have "f \<noteq> []" by auto
  then show ?thesis
    by (simp add: walk_chunks.simps [of "pre @ f @ rest" "length pre"] ce kind data frame_owner_def Let_def
             split: option.splits)
qed

lemma walk_chunks_frames:
  assumes "\<forall>f\<in>set fs. is_frame f" "chunk_end t 0 = None" "length (pre @ concat fs @ t) < u64_limit"
  shows "(walk_chunks (pre @ concat fs @ t) (length pre) past cs :: 'e workflow_chunk_error + span list) =
    walk_end (length (pre @ concat fs)) t (past \<or> ''IEND'' \<in> frame_kind ` set fs)
      (cs @ candidates_of (length pre) fs)"
  using assms
proof (induction fs arbitrary: pre past cs)
  case Nil
  then show ?case using walk_chunks_stop [of pre t past cs] by simp
next
  case (Cons f fs)
  have "(walk_chunks (pre @ f @ concat fs @ t) (length pre) past cs :: 'e workflow_chunk_error + span list) =
      walk_chunks ((pre @ f) @ concat fs @ t) (length (pre @ f)) (past \<or> frame_kind f = ''IEND'')
        (cs @ candidates_of (length pre) [f])"
    using Cons.prems by (intro walk_chunks_frame) auto
  also have "\<dots> = walk_end (length ((pre @ f) @ concat fs)) t
      ((past \<or> frame_kind f = ''IEND'') \<or> ''IEND'' \<in> frame_kind ` set fs)
      ((cs @ candidates_of (length pre) [f]) @ candidates_of (length (pre @ f)) fs)"
    by (rule Cons.IH) (use Cons.prems in auto)
  finally show ?case by (simp add: eq_commute disj_assoc add.assoc)
qed

subsection \<open>The spans and what is kept\<close>

fun spans_of :: "(string \<Rightarrow> bool) \<Rightarrow> nat \<Rightarrow> string list \<Rightarrow> span list" where
  "spans_of P base [] = []"
| "spans_of P base (f # fs) =
     (if P f then [\<lparr> span_start = base, span_end = base + length f \<rparr>] else []) @ spans_of P (base + length f) fs"

lemma has_envelope_candidates: "has_envelope (candidates_of base fs) = carries_envelope fs"
  by (induction fs arbitrary: base)
     (auto simp: has_envelope_def carries_envelope_def split: option.splits)

lemma filter_candidates:
  "map fst (filter (\<lambda>(_, owner). ours \<or> owner = OwnerEnvelope) (candidates_of base fs)) =
     spans_of (is_ours ours) base fs"
proof (induction fs arbitrary: base)
  case (Cons f fs)
  then show ?case
    by (cases "frame_owner f") (auto simp: is_ours_def intro: chunk_owner.exhaust)
qed simp

lemma resolve_candidates:
  "resolve_spans (candidates_of base fs) = spans_of (is_ours (carries_envelope fs)) base fs"
  by (simp add: resolve_spans_def has_envelope_candidates filter_candidates)

lemma spans_of_Nil_iff: "spans_of P base fs = [] \<longleftrightarrow> filter P fs = []"
  by (induction fs arbitrary: base) auto

lemma kept_bytes:
  assumes "c \<le> length pre" "\<forall>f\<in>set fs. f \<noteq> []"
  shows "concat (map (span_bytes (pre @ concat fs @ t))
           (kept_from (length (pre @ concat fs @ t)) c (spans_of P (length pre) fs))) =
         drop c pre @ concat (filter (\<lambda>f. \<not> P f) fs) @ t"
  using assms
proof (induction fs arbitrary: pre c)
  case Nil
  then show ?case by (cases t) (auto simp: span_bytes_def slice_def)
next
  case (Cons f fs)
  have IH: "concat (map (span_bytes (pre @ f @ concat fs @ t))
           (kept_from (length (pre @ f @ concat fs @ t)) c' (spans_of P (length pre + length f) fs))) =
         drop c' (pre @ f) @ concat (filter (\<lambda>f. \<not> P f) fs) @ t" if "c' \<le> length (pre @ f)" for c'
    using Cons.IH [of c' "pre @ f"] that Cons.prems by (simp add: add.assoc)
  show ?case
  proof (cases "P f")
    case True
    have "span_bytes (pre @ f @ concat fs @ t) \<lparr> span_start = c, span_end = length pre \<rparr> = drop c pre"
      using Cons.prems by (simp add: span_bytes_def slice_def)
    with True Cons.prems IH [of "length pre + length f"] show ?thesis by (simp add: add.assoc)
  next
    case False
    with Cons.prems IH [of c] show ?thesis by (simp add: add.assoc)
  qed
qed

section \<open>Stripping against the list of chunks\<close>

text \<open>The reference: keep the signature, every chunk that is not ours, and the tail.\<close>

definition strip_spec :: "string list \<Rightarrow> string \<Rightarrow> string option" where
  "strip_spec fs t =
     (let ours = carries_envelope fs in
      if filter (is_ours ours) fs = [] then None
      else Some (PNG_SIGNATURE @ concat (filter (\<lambda>f. \<not> is_ours ours f) fs) @ t))"

definition vouched :: "string list \<Rightarrow> string \<Rightarrow> bool" where
  "vouched fs t \<longleftrightarrow>
     ''IEND'' \<in> frame_kind ` set fs \<and> (t = [] \<or> hidden_keyword t (carries_envelope fs) = None)"

lemma length_PNG_SIGNATURE [simp]: "length PNG_SIGNATURE = 8"
  by (simp add: PNG_SIGNATURE_def)

lemma not_png_stripped:
  "take 8 bytes \<noteq> PNG_SIGNATURE \<Longrightarrow> strip_workflow_chunk bytes = Inr None"
  by (auto simp: strip_workflow_chunk_def workflow_chunk_spans_def)

lemma spans_of_frames:
  assumes "\<forall>f\<in>set fs. is_frame f" "chunk_end t 0 = None" "length (PNG_SIGNATURE @ concat fs @ t) < u64_limit"
  shows "workflow_chunk_spans (PNG_SIGNATURE @ concat fs @ t) =
    walk_end (length (PNG_SIGNATURE @ concat fs)) t (''IEND'' \<in> frame_kind ` set fs) (candidates_of 8 fs)"
  using walk_chunks_frames [OF assms, of False "[]"] by (simp add: workflow_chunk_spans_def)

lemma strip_frames:
  assumes "\<forall>f\<in>set fs. is_frame f" "chunk_end t 0 = None" "length (PNG_SIGNATURE @ concat fs @ t) < u64_limit"
  shows "vouched fs t \<Longrightarrow> (strip_workflow_chunk (PNG_SIGNATURE @ concat fs @ t) :: 'e strip_result) = Inr (strip_spec fs t)"
    and "\<not> vouched fs t \<Longrightarrow> \<exists>detail. (strip_workflow_chunk (PNG_SIGNATURE @ concat fs @ t) :: 'e strip_result) = Inl (Png detail)"
proof -
  have ne: "\<forall>f\<in>set fs. f \<noteq> []" using assms(1) is_frame_length by fastforce
  note kept = kept_bytes [of 0 PNG_SIGNATURE fs t, simplified, OF ne]
  show "(strip_workflow_chunk (PNG_SIGNATURE @ concat fs @ t) :: 'e strip_result) = Inr (strip_spec fs t)" if "vouched fs t"
    using that kept
    by (auto simp: strip_workflow_chunk_def spans_of_frames [OF assms] walk_end_def vouched_def strip_spec_def
        has_envelope_candidates resolve_candidates spans_of_Nil_iff kept_spans_def Let_def split: option.splits)
  show "\<exists>detail. (strip_workflow_chunk (PNG_SIGNATURE @ concat fs @ t) :: 'e strip_result) = Inl (Png detail)" if "\<not> vouched fs t"
    using that
    by (auto simp: strip_workflow_chunk_def spans_of_frames [OF assms] walk_end_def vouched_def
        has_envelope_candidates)
qed

lemma png_frames:
  assumes "take 8 bytes = PNG_SIGNATURE" "length bytes < u64_limit" "frames (drop 8 bytes) = (fs, t)"
  shows "bytes = PNG_SIGNATURE @ concat fs @ t" "\<forall>f\<in>set fs. is_frame f" "chunk_end t 0 = None"
proof -
  have "length (drop 8 bytes) < u64_limit" using assms(2) by simp
  note split = frames_split [OF assms(3) this]
  show "bytes = PNG_SIGNATURE @ concat fs @ t" using split assms(1) append_take_drop_id [of 8 bytes] by metis
  show "\<forall>f\<in>set fs. is_frame f" "chunk_end t 0 = None" using split by simp_all
qed

text \<open>A chunk as it is framed on disk.\<close>

definition framed_chunk :: "string \<Rightarrow> string \<Rightarrow> string \<Rightarrow> string" where
  "framed_chunk kind data crc = to_be_bytes 4 (length data) @ kind @ data @ crc"

lemma framed_chunk_is_frame:
  assumes "length kind = 4" "length crc = 4" "length data < 2 ^ 32"
  shows "is_frame (framed_chunk kind data crc)"
proof -
  have "from_be_bytes (slice 0 4 (framed_chunk kind data crc)) = length data"
    using assms(3) from_to_be_bytes [of "length data" 4] by (simp add: framed_chunk_def slice_append_left slice_def)
  moreover have "length (framed_chunk kind data crc) = 12 + length data"
    using assms by (simp add: framed_chunk_def)
  moreover have "12 + length data < u64_limit" using assms(3) by (simp add: u64_limit_def)
  ultimately show ?thesis by (simp add: is_frame_def chunk_end_iff)
qed

lemma framed_chunk_parts:
  assumes "length kind = 4" "length crc = 4"
  shows "frame_kind (framed_chunk kind data crc) = kind"
    and "frame_owner (framed_chunk kind data crc) = text_chunk_owner kind data"
proof -
  show kind: "frame_kind (framed_chunk kind data crc) = kind"
    using assms by (simp add: frame_kind_def framed_chunk_def slice_append_right slice_append_left slice_def)
  have "slice 8 (length (framed_chunk kind data crc) - 4) (framed_chunk kind data crc) = data"
    using assms by (simp add: framed_chunk_def slice_append_right slice_append_left slice_def)
  then show "frame_owner (framed_chunk kind data crc) = text_chunk_owner kind data"
    by (simp add: frame_owner_def kind)
qed

section \<open>Properties\<close>

text \<open>
  C20. Stripping a file whose length fits a 64-bit size is the filter over its chunks: a file without
  the PNG signature has nothing to strip; a PNG is read as framed chunks and a tail, and is refused
  unless an IEND is among the chunks and the tail hides no keyword of ours; otherwise the result is
  the signature, every chunk that is not ours in order and byte for byte, and the tail.
\<close>

theorem strip_is_chunk_filter:
  assumes "length bytes < u64_limit"
  shows "(take 8 bytes \<noteq> PNG_SIGNATURE \<longrightarrow> (strip_workflow_chunk bytes :: 'e strip_result) = Inr None) \<and>
    (take 8 bytes = PNG_SIGNATURE \<longrightarrow>
      (case frames (drop 8 bytes) of (fs, t) \<Rightarrow>
         if vouched fs t then (strip_workflow_chunk bytes :: 'e strip_result) = Inr (strip_spec fs t)
         else \<exists>detail. (strip_workflow_chunk bytes :: 'e strip_result) = Inl (Png detail)))"
proof (cases "take 8 bytes = PNG_SIGNATURE")
  case True
  obtain fs t where fs: "frames (drop 8 bytes) = (fs, t)" by fastforce
  note parts = png_frames [OF True assms fs]
  show ?thesis
    using True fs assms parts(1) strip_frames [OF parts(2,3), where 'e = 'e] by (auto split: prod.splits)
qed (simp add: not_png_stripped)

lemma length_concat_filter: "length (concat (filter P xss)) \<le> length (concat xss)"
  by (induction xss) auto

lemma strip_spec_clean:
  assumes "strip_spec fs t = Some out" "\<forall>f\<in>set fs. is_frame f" "chunk_end t 0 = None"
    "length (PNG_SIGNATURE @ concat fs @ t) < u64_limit" "vouched fs t"
  defines "gs \<equiv> filter (\<lambda>f. \<not> is_ours (carries_envelope fs) f) fs"
  shows "out = PNG_SIGNATURE @ concat gs @ t" "frames (drop 8 out) = (gs, t)" "vouched gs t"
    "\<not> carries_envelope gs" "carries_envelope fs"
proof -
  show out: "out = PNG_SIGNATURE @ concat gs @ t"
    using assms(1) by (simp add: strip_spec_def gs_def Let_def split: if_splits)
  have len: "length (concat gs) \<le> length (concat fs)" unfolding gs_def by (rule length_concat_filter)
  show "frames (drop 8 out) = (gs, t)"
    using assms(2-4) len by (simp add: out) (intro frames_concat, auto simp: gs_def)
  have "\<exists>f\<in>set fs. is_ours (carries_envelope fs) f"
    using assms(1) by (auto simp: strip_spec_def Let_def filter_empty_conv split: if_splits)
  then show env: "carries_envelope fs" by (force simp: is_ours_def carries_envelope_def)
  show none: "\<not> carries_envelope gs" by (auto simp: gs_def carries_envelope_def is_ours_def)
  have "frame_owner f = None" if "frame_kind f = ''IEND''" for f
    using that by (simp add: frame_owner_def text_chunk_owner_def TEXT_CHUNK_TYPES_def)
  then have "''IEND'' \<in> frame_kind ` set gs"
    using assms(5) by (auto simp: vouched_def gs_def is_ours_def)
  then show "vouched gs t"
    using assms(5) none by (auto simp: vouched_def hidden_keyword_def Let_def split: if_splits)
qed

text \<open>
  C21. A stripped copy is clean: none of its chunks carries either keyword of ours, stripping it again
  finds nothing, and it still has an IEND. A file that is reported to have nothing to strip and is a
  PNG carries no chunk under the workflow keyword.
\<close>

theorem strip_leaves_nothing_of_ours:
  assumes "length bytes < u64_limit"
  shows "(\<forall>out. (strip_workflow_chunk bytes :: 'e strip_result) = Inr (Some out) \<longrightarrow>
      (strip_workflow_chunk out :: 'e strip_result) = Inr None \<and>
      (\<forall>f\<in>set (fst (frames (drop 8 out))). frame_owner f = None) \<and>
      ''IEND'' \<in> frame_kind ` set (fst (frames (drop 8 out)))) \<and>
    ((strip_workflow_chunk bytes :: 'e strip_result) = Inr None \<and> take 8 bytes = PNG_SIGNATURE \<longrightarrow>
      (\<forall>f\<in>set (fst (frames (drop 8 bytes))). frame_owner f \<noteq> Some OwnerEnvelope))"
proof (cases "take 8 bytes = PNG_SIGNATURE")
  case False
  then show ?thesis by (simp add: not_png_stripped)
next
  case True
  obtain fs t where fs: "frames (drop 8 bytes) = (fs, t)" by fastforce
  note parts = png_frames [OF True assms fs]
  have len: "length (PNG_SIGNATURE @ concat fs @ t) < u64_limit" using assms parts(1) by simp
  note strip = strip_frames [OF parts(2,3) len, folded parts(1), where 'e = 'e]
  show ?thesis
  proof (cases "vouched fs t")
    case False
    then show ?thesis using strip(2) by auto
  next
    case vouched: True
    have stripped: "(strip_workflow_chunk bytes :: 'e strip_result) = Inr (strip_spec fs t)"
      using strip(1) [OF vouched] .
    have clean: "(strip_workflow_chunk out :: 'e strip_result) = Inr None \<and>
        (\<forall>f\<in>set (fst (frames (drop 8 out))). frame_owner f = None) \<and>
        ''IEND'' \<in> frame_kind ` set (fst (frames (drop 8 out)))" if out: "strip_spec fs t = Some out" for out
    proof -
      let ?gs = "filter (\<lambda>f. \<not> is_ours (carries_envelope fs) f) fs"
      note c = strip_spec_clean [OF out parts(2,3) len vouched]
      have none: "frame_owner f = None" if "f \<in> set ?gs" for f
        using that c(5) by (cases "frame_owner f") (auto simp: is_ours_def intro: chunk_owner.exhaust)
      have "length (PNG_SIGNATURE @ concat ?gs @ t) < u64_limit"
        using len length_concat_filter [of "\<lambda>f. \<not> is_ours (carries_envelope fs) f" fs] by simp
      then have "(strip_workflow_chunk out :: 'e strip_result) = Inr (strip_spec ?gs t)"
        unfolding c(1) using parts(2,3) c(3) by (intro strip_frames(1)) auto
      moreover have "filter (is_ours ours) ?gs = []" for ours
        using none unfolding filter_empty_conv is_ours_def [of ours] by fastforce
      then have "strip_spec ?gs t = None" unfolding strip_spec_def Let_def by (simp only: simp_thms if_True)
      ultimately show ?thesis using c(2,3) none unfolding vouched_def by (metis fst_conv)
    qed
    have "frame_owner f \<noteq> Some OwnerEnvelope" if "strip_spec fs t = None" "f \<in> set fs" for f
      using that by (auto simp: strip_spec_def is_ours_def filter_empty_conv Let_def split: if_splits)
    then show ?thesis using stripped clean fs by simp
  qed
qed

text \<open>
  C22. Embedding and stripping is the identity: text chunks of ours (an envelope among them) put between
  the chunks of a PNG that carries none are taken out again, and what is left is that PNG byte for byte.
\<close>

theorem embed_strip_roundtrip:
  assumes "\<forall>f\<in>set (fs @ es @ gs). is_frame f" "chunk_end t 0 = None"
    and "length (PNG_SIGNATURE @ concat (fs @ es @ gs) @ t) < u64_limit"
    and "\<forall>f\<in>set (fs @ gs). frame_owner f = None" "''IEND'' \<in> frame_kind ` set (fs @ gs)"
    and "\<forall>f\<in>set es. frame_owner f \<noteq> None" "carries_envelope es"
    and "hidden_keyword t True = None"
  shows "(strip_workflow_chunk (PNG_SIGNATURE @ concat (fs @ es @ gs) @ t) :: 'e strip_result) =
    Inr (Some (PNG_SIGNATURE @ concat (fs @ gs) @ t))"
proof -
  have env: "carries_envelope (fs @ es @ gs)" using assms(7) by (auto simp: carries_envelope_def)
  have "vouched (fs @ es @ gs) t" using assms(5,8) env by (auto simp: vouched_def)
  then have "(strip_workflow_chunk (PNG_SIGNATURE @ concat (fs @ es @ gs) @ t) :: 'e strip_result) = Inr (strip_spec (fs @ es @ gs) t)"
    using assms(1-3) by (intro strip_frames(1))
  moreover have ours: "is_ours True f \<longleftrightarrow> frame_owner f \<noteq> None" for f
    by (cases "frame_owner f") (auto simp: is_ours_def intro: chunk_owner.exhaust)
  have "filter (\<lambda>f. \<not> is_ours True f) (fs @ es @ gs) = fs @ gs"
    using assms(4,6) by (simp add: ours filter_id_conv filter_empty_conv)
  moreover have "filter (is_ours True) (fs @ es @ gs) \<noteq> []"
    using assms(6,7) by (auto simp: ours filter_empty_conv carries_envelope_def)
  ultimately show ?thesis using env by (simp only: strip_spec_def Let_def if_False)
qed

lemma spans_of_bounds:
  assumes "\<forall>f\<in>set fs. f \<noteq> []" "s \<in> set (spans_of P base fs)"
  shows "base \<le> span_start s \<and> span_start s < span_end s \<and> span_end s \<le> base + length (concat fs)"
  using assms
proof (induction fs arbitrary: base)
  case (Cons f fs)
  have "s = \<lparr> span_start = base, span_end = base + length f \<rparr> \<or> s \<in> set (spans_of P (base + length f) fs)"
    using Cons.prems(2) by (auto split: if_splits)
  then show ?case using Cons.IH [of "base + length f"] Cons.prems(1) by auto
qed simp

lemma spans_of_ascending:
  "\<forall>f\<in>set fs. f \<noteq> [] \<Longrightarrow> sorted_wrt (\<lambda>a b. span_end a \<le> span_start b) (spans_of P base fs)"
  by (induction fs arbitrary: base) (auto dest: spans_of_bounds)

text \<open>
  The spans to remove ascend, do not overlap, are never empty and lie between the signature and
  the end of the file; the spans that are kept cover every other byte.
\<close>

theorem workflow_chunk_spans_bounds:
  assumes "(workflow_chunk_spans bytes :: 'e spans_result) = Inr spans" "length bytes < u64_limit"
  shows "sorted_wrt (\<lambda>a b. span_end a \<le> span_start b) spans \<and>
    (\<forall>s\<in>set spans. 8 \<le> span_start s \<and> \<not> span_is_empty s \<and> span_end s \<le> length bytes)"
proof (cases "take 8 bytes = PNG_SIGNATURE")
  case False
  then show ?thesis using assms(1) by (auto simp: workflow_chunk_spans_def split: if_splits)
next
  case True
  obtain fs t where fs: "frames (drop 8 bytes) = (fs, t)" by fastforce
  note parts = png_frames [OF True assms(2) fs]
  have ne: "\<forall>f\<in>set fs. f \<noteq> []" using parts(2) is_frame_length by fastforce
  have "(walk_end (length (PNG_SIGNATURE @ concat fs)) t (''IEND'' \<in> frame_kind ` set fs) (candidates_of 8 fs)
      :: 'e spans_result) = Inr spans"
    using assms spans_of_frames [OF parts(2,3), where 'a = 'e] parts(1) by simp
  then have "spans = spans_of (is_ours (carries_envelope fs)) 8 fs"
    by (auto simp: walk_end_def has_envelope_candidates resolve_candidates split: if_splits option.splits)
  with ne show ?thesis
    using spans_of_ascending [OF ne] spans_of_bounds [OF ne] parts(1)
    by (fastforce simp: span_is_empty_def)
qed

text \<open>
  Whatever the reader accepts was checked: the file has the signature; the chunk is the only one
  under the workflow keyword before the image data, or the only one of a tail that was walked when
  there is none before it; its text was decompressed within one mebibyte and is no longer than that;
  the envelope comes from the parser and is of the image kind.
\<close>

theorem read_workflow_chunk_checked:
  assumes "read_workflow_chunk r bytes = Inr (Some share)"
  defines "matching \<equiv> filter (\<lambda>chunk. chunk_keyword r chunk = WORKFLOW_CHUNK_KEYWORD)"
  shows "take 8 bytes = PNG_SIGNATURE \<and> share_kind r share = WORKFLOW_KIND_IMAGE \<and>
    (\<exists>before chunk inflated txt. read_info r bytes = Inr before \<and>
       (matching before = [chunk] \<or>
        matching before = [] \<and> (\<exists>all_chunks. finish_info r bytes = Some all_chunks \<and> matching all_chunks = [chunk])) \<and>
       decompress_text_with_limit r MAX_WORKFLOW_TEXT_BYTES chunk = Inr inflated \<and>
       get_text r inflated = Inr txt \<and> length txt \<le> MAX_WORKFLOW_TEXT_BYTES \<and> parse_share r txt = Inr share)"
proof -
  have sig: "take 8 bytes = PNG_SIGNATURE"
    using assms(1) by (auto simp: read_workflow_chunk_def read_exact_def split: if_splits)
  obtain before where before: "read_info r bytes = Inr before"
    using assms(1) by (auto simp: read_workflow_chunk_def read_exact_def split: if_splits sum.splits decoding_error.splits)
  obtain chunk where chunk: "(case select_workflow_chunk r before of
      Inr None \<Rightarrow> workflow_chunk_after_image_data r bytes | found \<Rightarrow> found) = Inr (Some chunk)"
    and rest: "(case decompress_text_with_limit r MAX_WORKFLOW_TEXT_BYTES chunk of
        Inl e \<Rightarrow> None
      | Inr inflated \<Rightarrow> (case get_text r inflated of
          Inl e \<Rightarrow> None
        | Inr txt \<Rightarrow> if length txt > MAX_WORKFLOW_TEXT_BYTES then None
            else (case parse_share r txt of Inl e \<Rightarrow> None
              | Inr s \<Rightarrow> if share_kind r s \<noteq> WORKFLOW_KIND_IMAGE then None else Some s))) = Some share"
    using assms(1) before
    by (auto simp: read_workflow_chunk_def read_exact_def split: if_splits sum.splits option.splits)
  have "matching before = [chunk] \<or>
      matching before = [] \<and> (\<exists>all_chunks. finish_info r bytes = Some all_chunks \<and> matching all_chunks = [chunk])"
    using chunk
    by (auto simp: select_workflow_chunk_def workflow_chunk_after_image_data_def matching_def
        split: list.splits option.splits)
  with sig before rest show ?thesis by (auto split: sum.splits if_splits)
qed

section \<open>Witnesses\<close>

definition demo_ihdr :: string where "demo_ihdr = framed_chunk ''IHDR'' ''13 bytes here'' ''crc0''"
definition demo_itxt :: string where
  "demo_itxt = framed_chunk ''iTXt'' (''sceneworks:workflow'' @ [CHR 0x00] @ ''json'') ''crc1''"
definition demo_text :: string where
  "demo_text = framed_chunk ''tEXt'' (''parameters'' @ [CHR 0x00] @ ''Steps: 8'') ''crc2''"
definition demo_iend :: string where "demo_iend = framed_chunk ''IEND'' [] ''crc3''"
definition demo_png :: string where
  "demo_png = PNG_SIGNATURE @ concat ([demo_ihdr] @ [demo_itxt, demo_text] @ [demo_iend]) @ ''tail''"

lemmas demo_defs = demo_ihdr_def demo_itxt_def demo_text_def demo_iend_def

lemma demo_frames:
  "is_frame demo_ihdr" "is_frame demo_itxt" "is_frame demo_text" "is_frame demo_iend"
  unfolding demo_defs by (rule framed_chunk_is_frame; simp)+

lemma demo_owners:
  "frame_owner demo_ihdr = None" "frame_owner demo_itxt = Some OwnerEnvelope"
  "frame_owner demo_text = Some OwnerParameters" "frame_owner demo_iend = None"
  by (simp_all add: demo_defs framed_chunk_parts text_chunk_owner_def TEXT_CHUNK_TYPES_def
      WORKFLOW_CHUNK_KEYWORD_def PARAMETERS_CHUNK_KEYWORD_def)

lemma demo_kinds: "frame_kind demo_iend = ''IEND''"
  by (simp add: demo_iend_def framed_chunk_parts)

lemma demo_tail: "chunk_end ''tail'' 0 = None" "hidden_keyword ''tail'' b = None"
  by (simp_all add: chunk_end_def get_slice_def hidden_keyword_def contains_bytes_def WORKFLOW_CHUNK_KEYWORD_def
      PARAMETERS_CHUNK_KEYWORD_def)

lemma demo_length: "length demo_png < u64_limit"
  by (simp add: demo_png_def demo_defs framed_chunk_def u64_limit_def)

theorem embed_strip_roundtrip_witness:
  "(strip_workflow_chunk demo_png :: unit strip_result) =
    Inr (Some (PNG_SIGNATURE @ concat ([demo_ihdr] @ [demo_iend]) @ ''tail''))"
  unfolding demo_png_def
  by (rule embed_strip_roundtrip)
     (use demo_length in \<open>simp_all add: demo_frames demo_owners demo_kinds demo_tail carries_envelope_def demo_png_def\<close>)

lemma demo_read:
  "take 8 demo_png = PNG_SIGNATURE"
  "frames (drop 8 demo_png) = ([demo_ihdr, demo_itxt, demo_text, demo_iend], ''tail'')"
  "vouched [demo_ihdr, demo_itxt, demo_text, demo_iend] ''tail''"
proof -
  show "take 8 demo_png = PNG_SIGNATURE" by (simp add: demo_png_def)
  have "frames (concat [demo_ihdr, demo_itxt, demo_text, demo_iend] @ ''tail'') =
      ([demo_ihdr, demo_itxt, demo_text, demo_iend], ''tail'')"
    by (rule frames_concat) (use demo_length in \<open>simp_all add: demo_frames demo_tail demo_png_def\<close>)
  then show "frames (drop 8 demo_png) = ([demo_ihdr, demo_itxt, demo_text, demo_iend], ''tail'')"
    by (simp add: demo_png_def)
  show "vouched [demo_ihdr, demo_itxt, demo_text, demo_iend] ''tail''" by (simp add: vouched_def demo_kinds demo_tail)
qed

theorem strip_is_chunk_filter_witness:
  "(strip_workflow_chunk demo_png :: unit strip_result) =
     Inr (strip_spec [demo_ihdr, demo_itxt, demo_text, demo_iend] ''tail'')"
  using strip_is_chunk_filter [OF demo_length, where 'e = unit] by (simp add: demo_read)

lemma demo_strip:
  "(strip_workflow_chunk demo_png :: unit strip_result) =
    Inr (Some (PNG_SIGNATURE @ concat [demo_ihdr, demo_iend] @ ''tail''))"
proof -
  note parts = png_frames [OF demo_read(1) demo_length demo_read(2)]
  have "(strip_workflow_chunk demo_png :: unit strip_result) =
      Inr (strip_spec [demo_ihdr, demo_itxt, demo_text, demo_iend] ''tail'')"
    using strip_frames(1) [OF parts(2,3) demo_length [unfolded parts(1)] demo_read(3), folded parts(1)] .
  then show ?thesis by (simp add: strip_spec_def carries_envelope_def is_ours_def demo_owners)
qed

theorem strip_leaves_nothing_of_ours_witness:
  "(strip_workflow_chunk (PNG_SIGNATURE @ concat [demo_ihdr, demo_iend] @ ''tail'') :: unit strip_result) = Inr None"
  using strip_leaves_nothing_of_ours [OF demo_length, where 'e = unit] demo_strip by blast

theorem workflow_chunk_spans_bounds_witness:
  "\<exists>spans. (workflow_chunk_spans demo_png :: unit spans_result) = Inr spans \<and> spans \<noteq> [] \<and>
    sorted_wrt (\<lambda>a b. span_end a \<le> span_start b) spans \<and>
    (\<forall>s\<in>set spans. 8 \<le> span_start s \<and> \<not> span_is_empty s \<and> span_end s \<le> length demo_png)"
proof -
  obtain spans where "(workflow_chunk_spans demo_png :: unit spans_result) = Inr spans" "spans \<noteq> []"
    using demo_strip by (auto simp: strip_workflow_chunk_def split: sum.splits if_splits)
  then show ?thesis using workflow_chunk_spans_bounds [OF _ demo_length] by blast
qed

definition demo_reader :: "(string \<times> string, string, string) png_reader" where
  "demo_reader = \<lparr> read_info = (\<lambda>_. Inr [(''Title'', ''a'')]),
     finish_info = (\<lambda>_. Some [(''Title'', ''a''), (WORKFLOW_CHUNK_KEYWORD, ''image'')]),
     chunk_keyword = fst, decompress_text_with_limit = (\<lambda>limit chunk. Inr chunk), get_text = (\<lambda>chunk. Inr (snd chunk)),
     parse_share = Inr, share_kind = (\<lambda>share. share), unsupported_kind = (\<lambda>found supported. found) \<rparr>"

theorem read_workflow_chunk_checked_witness:
  "read_workflow_chunk demo_reader demo_png = Inr (Some ''image'') \<and> share_kind demo_reader ''image'' = WORKFLOW_KIND_IMAGE"
proof -
  have read: "read_workflow_chunk demo_reader demo_png = Inr (Some ''image'')"
    using demo_read(1)
    by (simp add: read_workflow_chunk_def read_exact_def demo_png_def demo_reader_def select_workflow_chunk_def
        workflow_chunk_after_image_data_def WORKFLOW_CHUNK_KEYWORD_def WORKFLOW_KIND_IMAGE_def MAX_WORKFLOW_TEXT_BYTES_def)
  show ?thesis using read read_workflow_chunk_checked [OF read] by blast
qed

end
