(* ===== verification/Mp4Boxes.thy ===== *)
theory Mp4Boxes
  imports Bytes
begin

text \<open>
  The workflow envelope in a video file (\<open>workflow_mp4.rs\<close>): the \<open>ffmetadata\<close> document that is
  handed to the muxer, and the walk over the box framing that finds the comment again. The reader is
  the list of the file's bytes with the length the caller states; offsets are \<open>u64\<close> values.
\<close>

section \<open>Model\<close>

definition WORKFLOW_MP4_TAG :: string where "WORKFLOW_MP4_TAG = ''comment''"
definition FFMETADATA_HEADER :: string where "FFMETADATA_HEADER = '';FFMETADATA1''"
definition WORKFLOW_SHARE_MARKER_KEY :: string where "WORKFLOW_SHARE_MARKER_KEY = ''sceneworksWorkflow''"
definition WORKFLOW_KIND_VIDEO :: string where "WORKFLOW_KIND_VIDEO = ''video''"

definition MAX_COMMENT_TEXT_BYTES :: nat where "MAX_COMMENT_TEXT_BYTES = 1024 * 1024"
definition MAX_BOX_DEPTH :: nat where "MAX_BOX_DEPTH = 8"
definition MAX_BOXES_SCANNED :: nat where "MAX_BOXES_SCANNED = 100000"

definition BOX_MOOV :: string where "BOX_MOOV = ''moov''"
definition BOX_UDTA :: string where "BOX_UDTA = ''udta''"
definition BOX_META :: string where "BOX_META = ''meta''"
definition BOX_ILST :: string where "BOX_ILST = ''ilst''"
definition BOX_DATA :: string where "BOX_DATA = ''data''"
definition BOX_CMT :: string where "BOX_CMT = CHR 0xA9 # ''cmt''"
definition DATA_BOX_PREFIX :: nat where "DATA_BOX_PREFIX = 8"
definition BOX_HEADER :: nat where "BOX_HEADER = 8"

datatype 'e workflow_mp4_error =
    Mp4Io string
  | Mp4Malformed string
  | TooLarge nat nat
  | NotUtf8
  | Share 'e
  | Unencodable string

subsection \<open>The document\<close>

definition needs_escape :: "char \<Rightarrow> bool" where
  "needs_escape c \<longleftrightarrow> c \<in> {CHR ''='', CHR '';'', CHR ''#'', CHR 0x5C, CHR 0x0A}"

fun escape_ffmetadata :: "string \<Rightarrow> string" where
  "escape_ffmetadata [] = []"
| "escape_ffmetadata (c # v) = (if needs_escape c then [CHR 0x5C, c] else [c]) @ escape_ffmetadata v"

definition ffmetadata_document :: "('s \<Rightarrow> string + string) \<Rightarrow> 's \<Rightarrow> 'e workflow_mp4_error + string" where
  "ffmetadata_document to_json share =
     (case to_json share of
        Inl e \<Rightarrow> Inl (Unencodable e)
      | Inr payload \<Rightarrow>
          if CHR 0x0D \<in> set payload then
            Inl (Unencodable ''the envelope contains a carriage return, which `ffmetadata` truncates at rather than escapes'')
          else Inr (FFMETADATA_HEADER @ [CHR 0x0A] @ WORKFLOW_MP4_TAG @ ''='' @ escape_ffmetadata payload @ [CHR 0x0A]))"

definition ffmetadata_input_args :: "string \<Rightarrow> string list" where
  "ffmetadata_input_args path = [''-f'', ''ffmetadata'', ''-i'', path]"

definition ffmetadata_map_args :: "nat \<Rightarrow> string list" where
  "ffmetadata_map_args input_index = [''-map_metadata'', show_nat input_index]"

definition workflow_metadata_size :: "('s \<Rightarrow> string + string) \<Rightarrow> 's \<Rightarrow> 'e workflow_mp4_error + nat" where
  "workflow_metadata_size to_json share =
     (case to_json share of Inl e \<Rightarrow> Inl (Unencodable e) | Inr payload \<Rightarrow> Inr (length payload + 24))"

subsection \<open>Boxes\<close>

record box_header =
  box_kind :: string
  body_start :: nat
  box_end :: nat

definition saturating_u64 :: "nat \<Rightarrow> nat" where
  "saturating_u64 n = min n (u64_limit - 1)"

text \<open>A seek to an offset and \<open>read_exact\<close>: at the end of the file the read fails.\<close>

definition read_at :: "string \<Rightarrow> nat \<Rightarrow> nat \<Rightarrow> 'e workflow_mp4_error + string" where
  "read_at bytes offset n =
     (case get_slice offset (offset + n) bytes of
        None \<Rightarrow> Inl (Mp4Io ''failed to fill whole buffer'')
      | Some b \<Rightarrow> Inr b)"

definition box_extent :: "string \<Rightarrow> nat \<Rightarrow> nat \<Rightarrow> nat \<Rightarrow> 'e workflow_mp4_error + nat \<times> nat" where
  "box_extent bytes offset limit declared =
     (if declared = 1 then
        if saturating_u64 (offset + 16) > limit
        then Inl (Mp4Malformed ''a 64-bit box size runs past the end of the file'')
        else (case read_at bytes (offset + 8) 8 of
                Inl e \<Rightarrow> Inl e
              | Inr large \<Rightarrow> Inr (offset + 16, from_be_bytes large))
      else if declared = 0 then Inr (offset + BOX_HEADER, limit - offset)
      else Inr (offset + BOX_HEADER, declared))"

text \<open>The UTF-8 functions of the standard library are parameters.\<close>

record utf8_ops =
  is_utf8 :: "string \<Rightarrow> bool"
  from_utf8_lossy :: "string \<Rightarrow> string"

definition read_box_header ::
  "utf8_ops \<Rightarrow> string \<Rightarrow> nat \<Rightarrow> nat \<Rightarrow> 'e workflow_mp4_error + box_header option" where
  "read_box_header u bytes offset limit =
     (if saturating_u64 (offset + BOX_HEADER) > limit then Inr None
      else case read_at bytes offset 8 of
        Inl e \<Rightarrow> Inl e
      | Inr header \<Rightarrow>
          let declared = from_be_bytes (take 4 header); kind = drop 4 header in
          (case box_extent bytes offset limit declared of
             Inl e \<Rightarrow> Inl e
           | Inr (start, declared_size) \<Rightarrow>
               (case checked_u64 (offset + declared_size) of
                  None \<Rightarrow> Inl (Mp4Malformed ''a box size overflows the file offset'')
                | Some end \<Rightarrow>
                    if declared_size < start - offset \<or> end > limit then
                      Inl (Mp4Malformed (''a `'' @ from_utf8_lossy u kind @ ''` box declares '' @ show_nat declared_size
                        @ '' bytes, which does not fit inside its parent''))
                    else Inr (Some \<lparr> box_kind = kind, body_start = start, box_end = end \<rparr>))))"

definition is_box_type :: "string \<Rightarrow> bool" where
  "is_box_type bytes = list_all (\<lambda>b. (0x20 \<le> char_code b \<and> char_code b \<le> 0x7E) \<or> char_code b = 0xA9) bytes"

definition meta_body_start :: "string \<Rightarrow> nat \<Rightarrow> nat \<Rightarrow> 'e workflow_mp4_error + nat" where
  "meta_body_start bytes start end =
     (if saturating_u64 (start + 8) > end then Inr start
      else case read_at bytes start 8 of
        Inl e \<Rightarrow> Inl e
      | Inr probe \<Rightarrow> if is_box_type (slice 4 8 probe) then Inr start else Inr (start + 4))"

lemma read_box_header_bounds:
  assumes "read_box_header u bytes offset limit = Inr (Some h)" "limit < u64_limit - 1"
  shows "offset + 8 \<le> body_start h" "body_start h \<le> box_end h" "box_end h \<le> limit" "limit \<ge> offset + 8"
  using assms
  by (auto simp: read_box_header_def box_extent_def BOX_HEADER_def saturating_u64_def Let_def
      split: if_splits sum.splits option.splits)

lemma read_box_header_end: "read_box_header u bytes offset limit = Inr (Some h) \<Longrightarrow> box_end h \<le> limit"
  by (auto simp: read_box_header_def Let_def split: if_splits sum.splits option.splits)

text \<open>The loop of \<open>read_comment_data\<close> from an offset on.\<close>

function read_comment_data ::
  "utf8_ops \<Rightarrow> string \<Rightarrow> nat \<Rightarrow> nat \<Rightarrow> 'e workflow_mp4_error + string option" where
  "read_comment_data u bytes offset limit =
     (case read_box_header u bytes offset limit of
        Inl e \<Rightarrow> Inl e
      | Inr None \<Rightarrow> Inr None
      | Inr (Some h) \<Rightarrow>
          if box_end h \<le> offset then Inl (Mp4Malformed ''a `data` box declares no length'')
          else if box_kind h = BOX_DATA then
            let payload_start = body_start h + DATA_BOX_PREFIX in
            if payload_start > box_end h
            then Inl (Mp4Malformed ''a `data` box is too short to hold its own type indicator'')
            else
              let payload_len = box_end h - payload_start in
              if payload_len > MAX_COMMENT_TEXT_BYTES then Inl (TooLarge payload_len MAX_COMMENT_TEXT_BYTES)
              else (case read_at bytes payload_start payload_len of
                      Inl e \<Rightarrow> Inl e
                    | Inr payload \<Rightarrow> if is_utf8 u payload then Inr (Some payload) else Inl NotUtf8)
          else read_comment_data u bytes (box_end h) limit)"
  by pat_completeness auto
termination
  by (relation "measure (\<lambda>(_, _, offset, limit). limit - offset)") (auto dest: read_box_header_end)

declare read_comment_data.simps [simp del]

text \<open>Where the children of a box on the path start: \<open>meta\<close> alone may have a prefix.\<close>

definition child_start :: "string \<Rightarrow> string \<Rightarrow> nat \<Rightarrow> nat \<Rightarrow> 'e workflow_mp4_error + nat" where
  "child_start bytes kind start end =
     (if kind = BOX_META then meta_body_start bytes start end else Inr start)"

text \<open>
  \<open>descend\<close> and its loop. The counter of scanned boxes is shared by all levels, so it is returned
  with the result.
\<close>

function descend ::
  "utf8_ops \<Rightarrow> string \<Rightarrow> nat \<Rightarrow> nat \<Rightarrow> string list \<Rightarrow> nat \<Rightarrow> nat \<Rightarrow> 'e workflow_mp4_error + string option \<times> nat"
and descend_loop ::
  "utf8_ops \<Rightarrow> string \<Rightarrow> nat \<Rightarrow> nat \<Rightarrow> string list \<Rightarrow> nat \<Rightarrow> nat \<Rightarrow> 'e workflow_mp4_error + string option \<times> nat"
where
  "descend u bytes start limit path depth scanned =
     (if depth > MAX_BOX_DEPTH then Inr (None, scanned)
      else descend_loop u bytes start limit path depth scanned)"
| "descend_loop u bytes offset limit path depth scanned =
     (case read_box_header u bytes offset limit of
        Inl e \<Rightarrow> Inl e
      | Inr None \<Rightarrow> Inr (None, scanned)
      | Inr (Some h) \<Rightarrow>
          let scanned = scanned + 1 in
          if scanned > MAX_BOXES_SCANNED then
            Inl (Mp4Malformed (''more than '' @ show_nat MAX_BOXES_SCANNED @ '' boxes in the header''))
          else if box_end h \<le> offset then
            Inl (Mp4Malformed ''a box declares no length, so the walk cannot advance'')
          else
            (case path of
               [] \<Rightarrow>
                 if box_kind h = BOX_CMT then
                   (case read_comment_data u bytes (body_start h) (box_end h) of
                      Inl e \<Rightarrow> Inl e
                    | Inr (Some txt) \<Rightarrow> Inr (Some txt, scanned)
                    | Inr None \<Rightarrow> descend_loop u bytes (box_end h) limit path depth scanned)
                 else descend_loop u bytes (box_end h) limit path depth scanned
             | kind # path' \<Rightarrow>
                 if box_kind h = kind then
                   (case child_start bytes (box_kind h) (body_start h) (box_end h) of
                      Inl e \<Rightarrow> Inl e
                    | Inr start \<Rightarrow>
                        (case descend u bytes start (box_end h) path' (depth + 1) scanned of
                           Inl e \<Rightarrow> Inl e
                         | Inr (Some found, scanned) \<Rightarrow> Inr (Some found, scanned)
                         | Inr (None, scanned) \<Rightarrow> descend_loop u bytes (box_end h) limit path depth scanned))
                 else descend_loop u bytes (box_end h) limit path depth scanned))"
  by pat_completeness auto
termination
  by (relation "measures [\<lambda>x. case x of Inl (_, _, _, _, path, _) \<Rightarrow> length path | Inr (_, _, _, _, path, _) \<Rightarrow> length path,
      \<lambda>x. case x of Inl (_, _, a, b, _) \<Rightarrow> b - a | Inr (_, _, a, b, _) \<Rightarrow> b - a,
      \<lambda>x. case x of Inl _ \<Rightarrow> 1 | Inr _ \<Rightarrow> 0]") (auto dest: read_box_header_end)

declare descend.simps [simp del] descend_loop.simps [simp del]

definition PATH :: "string list" where "PATH = [BOX_MOOV, BOX_UDTA, BOX_META, BOX_ILST]"

definition find_comment :: "utf8_ops \<Rightarrow> string \<Rightarrow> nat \<Rightarrow> 'e workflow_mp4_error + string option" where
  "find_comment u bytes len =
     (case descend u bytes 0 len PATH 0 0 of Inl e \<Rightarrow> Inl e | Inr (found, _) \<Rightarrow> Inr found)"

definition read_mp4_comment :: "utf8_ops \<Rightarrow> string \<Rightarrow> 'e workflow_mp4_error + string option" where
  "read_mp4_comment u bytes = find_comment u bytes (length bytes)"

text \<open>The envelope parser is a parameter: its result, the kind of an envelope and the refusal of a kind.\<close>

record ('s, 'e) envelope_parser =
  parse_json :: "string \<Rightarrow> 'e + 's"
  kind_of :: "'s \<Rightarrow> string"
  refused_kind :: "string \<Rightarrow> string \<Rightarrow> 'e"

definition read_workflow_metadata_from ::
  "utf8_ops \<Rightarrow> ('s, 'e) envelope_parser \<Rightarrow> string \<Rightarrow> nat \<Rightarrow> 'e workflow_mp4_error + 's option" where
  "read_workflow_metadata_from u p bytes len =
     (case find_comment u bytes len of
        Inl e \<Rightarrow> Inl e
      | Inr None \<Rightarrow> Inr None
      | Inr (Some comment) \<Rightarrow>
          if \<not> contains_bytes WORKFLOW_SHARE_MARKER_KEY comment then Inr None
          else (case parse_json p comment of
                  Inl e \<Rightarrow> Inl (Share e)
                | Inr share \<Rightarrow>
                    if kind_of p share \<noteq> WORKFLOW_KIND_VIDEO
                    then Inl (Share (refused_kind p (kind_of p share) WORKFLOW_KIND_VIDEO))
                    else Inr (Some share)))"

definition read_workflow_metadata ::
  "utf8_ops \<Rightarrow> ('s, 'e) envelope_parser \<Rightarrow> string \<Rightarrow> 'e workflow_mp4_error + 's option" where
  "read_workflow_metadata u p bytes = read_workflow_metadata_from u p bytes (length bytes)"

section \<open>Every read stays inside the file\<close>

lemma read_at_inside: "offset + n \<le> length bytes \<Longrightarrow> read_at bytes offset n = Inr (slice offset (offset + n) bytes)"
  by (simp add: read_at_def get_slice_def)

lemma saturating_u64_le: "limit < u64_limit - 1 \<Longrightarrow> \<not> limit < saturating_u64 n \<longleftrightarrow> n \<le> limit"
  by (auto simp: saturating_u64_def)

lemma read_box_header_no_io:
  assumes "limit \<le> length bytes" "length bytes < u64_limit - 1"
  shows "read_box_header u bytes offset limit \<noteq> Inl (Mp4Io m)"
proof -
  have "limit < u64_limit - 1" using assms by simp
  then show ?thesis
    using assms(1)
    by (auto simp: read_box_header_def box_extent_def BOX_HEADER_def Let_def saturating_u64_le read_at_inside
        split: if_splits sum.splits option.splits)
qed

definition comment_ok :: "utf8_ops \<Rightarrow> string \<Rightarrow> string \<Rightarrow> bool" where
  "comment_ok u bytes txt \<longleftrightarrow> length txt \<le> MAX_COMMENT_TEXT_BYTES \<and> is_utf8 u txt \<and> sublist txt bytes"

lemma sublist_slice: "sublist (slice a b xs) xs"
  unfolding slice_def sublist_def by (metis append_take_drop_id)

text \<open>What reading a header can give inside the file; a header that is read moves the walk forward.\<close>

lemma box_header_cases:
  assumes "limit \<le> length bytes" "length bytes < u64_limit - 1"
  obtains (err) e where "(read_box_header u bytes offset limit :: 'e workflow_mp4_error + box_header option) = Inl e"
      "\<forall>m. e \<noteq> Mp4Io m"
    | (none) "(read_box_header u bytes offset limit :: 'e workflow_mp4_error + box_header option) = Inr None"
    | (some) h where "(read_box_header u bytes offset limit :: 'e workflow_mp4_error + box_header option) = Inr (Some h)"
      "offset < box_end h" "box_end h \<le> limit" "limit - box_end h < limit - offset"
proof (cases "read_box_header u bytes offset limit :: 'e workflow_mp4_error + box_header option")
  case (Inl e)
  with read_box_header_no_io [OF assms, of u offset, where 'a = 'e] show ?thesis by (intro err) auto
next
  case (Inr oh)
  show ?thesis
  proof (cases oh)
    case None
    with Inr show ?thesis by (intro none) simp
  next
    case (Some h)
    have "limit < u64_limit - 1" using assms by simp
    from read_box_header_bounds [OF Inr [unfolded Some] this] Inr Some show ?thesis by (intro some) auto
  qed
qed

lemma read_comment_data_ok:
  assumes "limit \<le> length bytes" "length bytes < u64_limit - 1"
  shows "(case (read_comment_data u bytes offset limit :: 'e workflow_mp4_error + string option) of
      Inl e \<Rightarrow> (\<forall>m. e \<noteq> Mp4Io m) | Inr None \<Rightarrow> True | Inr (Some txt) \<Rightarrow> comment_ok u bytes txt)"
proof (induction "limit - offset" arbitrary: offset rule: less_induct)
  case less
  note unfold = read_comment_data.simps [of u bytes offset limit]
  from assms show ?case
  proof (cases rule: box_header_cases [of limit bytes u offset, where 'e = 'e])
    case (some h)
    show ?thesis
    proof (cases "box_kind h = BOX_DATA")
      case True
      with some assms(1) show ?thesis
        by (auto simp: unfold Let_def read_at_inside comment_ok_def sublist_slice)
    next
      case False
      with less [of "box_end h"] some show ?thesis by (simp add: unfold)
    qed
  qed (simp_all add: unfold)
qed

lemma meta_body_start_no_io:
  assumes "end \<le> length bytes" "length bytes < u64_limit - 1"
  shows "\<exists>start'. meta_body_start bytes start end = Inr start'"
proof -
  have "end < u64_limit - 1" using assms by simp
  then show ?thesis using assms(1) by (auto simp: meta_body_start_def saturating_u64_le read_at_inside)
qed

definition walk_ok :: "utf8_ops \<Rightarrow> string \<Rightarrow> 'e workflow_mp4_error + string option \<times> nat \<Rightarrow> bool" where
  "walk_ok u bytes r =
     (case r of
        Inl e \<Rightarrow> (\<forall>m. e \<noteq> Mp4Io m)
      | Inr (found, n) \<Rightarrow> n \<le> MAX_BOXES_SCANNED \<and> (\<forall>txt. found = Some txt \<longrightarrow> comment_ok u bytes txt))"

lemma walk_ok_simps:
  "walk_ok u bytes (Inl e) \<longleftrightarrow> (\<forall>m. e \<noteq> Mp4Io m)"
  "walk_ok u bytes (Inr (found, n)) \<longleftrightarrow> n \<le> MAX_BOXES_SCANNED \<and> (\<forall>txt. found = Some txt \<longrightarrow> comment_ok u bytes txt)"
  by (simp_all add: walk_ok_def)

lemma descend_loop_ok:
  assumes "limit \<le> length bytes" "length bytes < u64_limit - 1" "n \<le> MAX_BOXES_SCANNED"
  shows "walk_ok u bytes (descend_loop u bytes start limit path depth n :: 'e workflow_mp4_error + string option \<times> nat)"
  using assms
proof (induction path arbitrary: start limit depth n)
  case Nil
  from Nil.prems(1,3) show ?case
  proof (induction "limit - start" arbitrary: start n rule: less_induct)
    case less
    note unfold = descend_loop.simps [of u bytes start limit "[]" depth n]
    from less.prems(1) assms(2) show ?case
    proof (cases rule: box_header_cases [of limit bytes u start, where 'e = 'e])
      case (some h)
      note IH = less.hyps [OF some(4), of "n + 1"]
      show ?thesis
        using some IH less.prems read_comment_data_ok [of "box_end h" bytes u "body_start h", where 'e = 'e] assms(2)
        by (auto simp: unfold walk_ok_def Let_def split: sum.splits option.splits)
    qed (use less.prems in \<open>simp_all add: unfold walk_ok_def\<close>)
  qed
next
  case (Cons k path)
  from Cons.prems(1,3) show ?case
  proof (induction "limit - start" arbitrary: start n rule: less_induct)
    case less
    note unfold = descend_loop.simps [of u bytes start limit "k # path" depth n]
    from less.prems(1) assms(2) show ?case
    proof (cases rule: box_header_cases [of limit bytes u start, where 'e = 'e])
      case (some h)
      have len: "box_end h \<le> length bytes" using some(3) less.prems(1) by simp
      have inner: "walk_ok u bytes (descend u bytes s (box_end h) path d m :: 'e workflow_mp4_error + string option \<times> nat)"
        if "m \<le> MAX_BOXES_SCANNED" for s d m
        using Cons.IH [OF len assms(2) that] that by (simp add: descend.simps [of u bytes] walk_ok_def)
      obtain s where s: "child_start bytes (box_kind h) (body_start h) (box_end h) = (Inr s :: 'e workflow_mp4_error + nat)"
        using meta_body_start_no_io [OF len assms(2)] unfolding child_start_def by metis
      have later: "walk_ok u bytes (descend_loop u bytes (box_end h) limit (k # path) depth m
          :: 'e workflow_mp4_error + string option \<times> nat)" if "m \<le> MAX_BOXES_SCANNED" for m
        using less.hyps [OF some(4) less.prems(1) that] .
      show ?thesis
      proof (cases "n + 1 > MAX_BOXES_SCANNED \<or> box_kind h \<noteq> k")
        case True
        with some later [of "n + 1"] show ?thesis
          by (cases "n + 1 > MAX_BOXES_SCANNED") (simp_all add: unfold Let_def walk_ok_def)
      next
        case False
        let ?r = "descend u bytes s (box_end h) path (depth + 1) (n + 1) :: 'e workflow_mp4_error + string option \<times> nat"
        have step: "descend_loop u bytes start limit (k # path) depth n =
            (case ?r of Inl e \<Rightarrow> Inl e | Inr (Some found, m) \<Rightarrow> Inr (Some found, m)
             | Inr (None, m) \<Rightarrow> descend_loop u bytes (box_end h) limit (k # path) depth m)"
          using False some s by (simp add: unfold Let_def)
        have "walk_ok u bytes ?r" using inner False by simp
        then show ?thesis
          unfolding step by (auto simp: walk_ok_simps intro: later split: sum.split option.split)
      qed
    qed (use less.prems in \<open>simp_all add: unfold walk_ok_def\<close>)
  qed
qed

lemma descend_ok:
  assumes "limit \<le> length bytes" "length bytes < u64_limit - 1" "n \<le> MAX_BOXES_SCANNED"
  shows "walk_ok u bytes (descend u bytes start limit path depth n :: 'e workflow_mp4_error + string option \<times> nat)"
  using descend_loop_ok [OF assms, where 'e = 'e] assms(3) by (simp add: descend.simps [of u bytes start] walk_ok_simps)

text \<open>
  C23. Looking for the comment of any file shorter than the 64-bit range ends with an answer and reads
  only inside the file: no read fails for want of bytes, whatever the boxes declare; a comment that is
  returned is at most one mebibyte of consecutive bytes of the file and is valid UTF-8.
\<close>

theorem read_mp4_comment_safe:
  assumes "length bytes < u64_limit - 1"
  shows "(\<forall>m. (read_mp4_comment u bytes :: 'e workflow_mp4_error + string option) \<noteq> Inl (Mp4Io m)) \<and>
    (\<forall>txt. (read_mp4_comment u bytes :: 'e workflow_mp4_error + string option) = Inr (Some txt) \<longrightarrow>
       length txt \<le> 1024 * 1024 \<and> is_utf8 u txt \<and> sublist txt bytes)"
proof -
  have "walk_ok u bytes (descend u bytes 0 (length bytes) PATH 0 0 :: 'e workflow_mp4_error + string option \<times> nat)"
    using assms by (intro descend_ok) simp_all
  then show ?thesis
    by (auto simp: read_mp4_comment_def find_comment_def walk_ok_simps comment_ok_def MAX_COMMENT_TEXT_BYTES_def
        split: sum.splits)
qed

section \<open>Well-formed files are read back\<close>

text \<open>A box as it is written: its size, its type and its body.\<close>

definition box :: "string \<Rightarrow> string \<Rightarrow> string" where
  "box kind body = to_be_bytes 4 (8 + length body) @ kind @ body"

definition box_sized :: "string \<times> string \<Rightarrow> bool" where
  "box_sized b \<longleftrightarrow> length (fst b) = 4 \<and> 8 + length (snd b) < 2 ^ 32"

abbreviation boxes :: "(string \<times> string) list \<Rightarrow> string" where
  "boxes bs \<equiv> concat (map (\<lambda>(kind, body). box kind body) bs)"

lemma length_box: "length kind = 4 \<Longrightarrow> length (box kind body) = 8 + length body"
  by (simp add: box_def)

lemma read_box:
  assumes "box_sized (kind, body)" "length (pre @ box kind body @ post) < u64_limit - 1"
    "length pre + 8 + length body \<le> limit" "limit \<le> length (pre @ box kind body @ post)"
  shows "read_box_header u (pre @ box kind body @ post) (length pre) limit =
    Inr (Some \<lparr> box_kind = kind, body_start = length pre + 8, box_end = length pre + 8 + length body \<rparr>)"
proof -
  let ?bytes = "pre @ box kind body @ post"
  have k: "length kind = 4" and n: "8 + length body < 256 ^ 4" using assms(1) by (simp_all add: box_sized_def)
  have at: "read_at ?bytes (length pre) 8 = Inr (to_be_bytes 4 (8 + length body) @ kind)"
    using k by (simp add: read_at_def get_slice_def slice_def box_def)
  have lim: "limit < u64_limit - 1" using assms(2,4) by simp
  show ?thesis
    using k n lim assms(3)
    by (simp add: read_box_header_def BOX_HEADER_def saturating_u64_le at Let_def box_extent_def from_to_be_bytes
        checked_u64_def)
qed

text \<open>The box the walk looks for at a level.\<close>

definition wanted :: "string list \<Rightarrow> string" where
  "wanted path = (case path of [] \<Rightarrow> BOX_CMT | kind # _ \<Rightarrow> kind)"

lemma descend_skip_box:
  assumes "box_sized (kind, body)" "kind \<noteq> wanted path" "length (pre @ box kind body @ post) < u64_limit - 1"
    "length pre + 8 + length body \<le> limit" "limit \<le> length (pre @ box kind body @ post)" "n < MAX_BOXES_SCANNED"
  shows "descend_loop u (pre @ box kind body @ post) (length pre) limit path depth n =
    descend_loop u (pre @ box kind body @ post) (length pre + 8 + length body) limit path depth (n + 1)"
  using assms(2,6)
  by (cases path) (simp_all add: descend_loop.simps [of u _ "length pre"] read_box [OF assms(1,3-5)] Let_def wanted_def)

lemma descend_skip_boxes:
  assumes "\<forall>b\<in>set bs. box_sized b \<and> fst b \<noteq> wanted path" "length (pre @ boxes bs @ post) < u64_limit - 1"
    "length (pre @ boxes bs) \<le> limit" "limit \<le> length (pre @ boxes bs @ post)" "n + length bs \<le> MAX_BOXES_SCANNED"
  shows "(descend_loop u (pre @ boxes bs @ post) (length pre) limit path depth n
      :: 'e workflow_mp4_error + string option \<times> nat) =
    descend_loop u (pre @ boxes bs @ post) (length (pre @ boxes bs)) limit path depth (n + length bs)"
  using assms
proof (induction bs arbitrary: pre n)
  case (Cons b bs)
  obtain kind body where b: "b = (kind, body)" by fastforce
  then have k: "length kind = 4" using Cons.prems(1) by (simp add: box_sized_def)
  have "(descend_loop u (pre @ box kind body @ boxes bs @ post) (length pre) limit path depth n
        :: 'e workflow_mp4_error + string option \<times> nat) =
      descend_loop u (pre @ box kind body @ boxes bs @ post) (length pre + 8 + length body) limit path depth (n + 1)"
    using Cons.prems b k by (intro descend_skip_box) (auto simp: length_box)
  also have "\<dots> = descend_loop u ((pre @ box kind body) @ boxes bs @ post) (length (pre @ box kind body)) limit path depth (n + 1)"
    by (simp add: length_box k add.assoc)
  also have "\<dots> = descend_loop u ((pre @ box kind body) @ boxes bs @ post) (length ((pre @ box kind body) @ boxes bs))
      limit path depth (n + 1 + length bs)"
    by (rule Cons.IH) (use Cons.prems b in auto)
  finally show ?case by (simp add: b)
qed simp

lemma descend_enter:
  assumes "box_sized (kind, body)" "length (pre @ box kind body @ post) < u64_limit - 1"
    "length pre + 8 + length body \<le> limit" "limit \<le> length (pre @ box kind body @ post)" "n < MAX_BOXES_SCANNED"
    "child_start (pre @ box kind body @ post) kind (length pre + 8) (length pre + 8 + length body) =
      (Inr start :: 'e workflow_mp4_error + nat)"
    "descend u (pre @ box kind body @ post) start (length pre + 8 + length body) path (depth + 1) (n + 1) =
      (Inr (Some txt, m) :: 'e workflow_mp4_error + string option \<times> nat)"
  shows "descend_loop u (pre @ box kind body @ post) (length pre) limit (kind # path) depth n =
      (Inr (Some txt, m) :: 'e workflow_mp4_error + string option \<times> nat)"
  using assms(5-7)
  by (simp add: descend_loop.simps [of u _ "length pre"] read_box [OF assms(1-4)] Let_def)

text \<open>
  The comment atom with the boxes before it and the bytes after it, and the containers around it:
  each level is the type of its box, the boxes before it and the bytes after it; the body of a
  \<open>meta\<close> box starts with four bytes of version and flags.
\<close>

definition comment_atom :: "(string \<times> string) list \<Rightarrow> string \<Rightarrow> string \<Rightarrow> string \<Rightarrow> string" where
  "comment_atom before flags txt after = boxes before @ box BOX_CMT (box BOX_DATA (flags @ txt)) @ after"

definition box_prefix :: "string \<Rightarrow> string" where
  "box_prefix kind = (if kind = BOX_META then replicate 4 (CHR 0x00) else [])"

fun nest :: "(string \<times> (string \<times> string) list \<times> string) list \<Rightarrow> string \<Rightarrow> string" where
  "nest [] inner = inner"
| "nest ((kind, before, after) # levels) inner = boxes before @ box kind (box_prefix kind @ nest levels inner) @ after"

fun nest_ok :: "(string \<times> (string \<times> string) list \<times> string) list \<Rightarrow> string \<Rightarrow> bool" where
  "nest_ok [] inner = True"
| "nest_ok ((kind, before, after) # levels) inner \<longleftrightarrow>
     list_all (\<lambda>b. box_sized b \<and> fst b \<noteq> kind) before \<and> box_sized (kind, box_prefix kind @ nest levels inner) \<and>
     (kind = BOX_META \<longrightarrow> 4 \<le> length (nest levels inner) \<and> \<not> is_box_type (take 4 (nest levels inner))) \<and> nest_ok levels inner"

fun nest_boxes :: "(string \<times> (string \<times> string) list \<times> string) list \<Rightarrow> nat" where
  "nest_boxes [] = 0"
| "nest_boxes ((_, before, _) # levels) = length before + 1 + nest_boxes levels"

lemma read_comment_atom:
  assumes "length flags = 8" "is_utf8 u txt" "length txt \<le> MAX_COMMENT_TEXT_BYTES"
    "length (pre @ box BOX_DATA (flags @ txt) @ post) < u64_limit - 1"
  shows "read_comment_data u (pre @ box BOX_DATA (flags @ txt) @ post) (length pre)
    (length pre + length (box BOX_DATA (flags @ txt))) = Inr (Some txt)"
proof -
  have sized: "box_sized (BOX_DATA, flags @ txt)"
    using assms(1,3) by (simp add: box_sized_def BOX_DATA_def MAX_COMMENT_TEXT_BYTES_def)
  have k: "length BOX_DATA = 4" by (simp add: BOX_DATA_def)
  have len: "length (box BOX_DATA (flags @ txt)) = 16 + length txt" using assms(1) by (simp add: length_box k)
  have payload: "read_at (pre @ box BOX_DATA (flags @ txt) @ post) (16 + length pre) (length txt) = Inr txt"
    using assms(1) k by (simp add: read_at_def get_slice_def len) (simp add: box_def slice_def)
  show ?thesis
    using assms sized
    by (simp add: read_comment_data.simps [of u _ "length pre"] read_box len Let_def DATA_BOX_PREFIX_def payload)
qed

lemma descend_comment_atom:
  assumes "list_all (\<lambda>b. box_sized b \<and> fst b \<noteq> BOX_CMT) before" "length flags = 8" "is_utf8 u txt"
    "length txt \<le> MAX_COMMENT_TEXT_BYTES" "length (pre @ comment_atom before flags txt after @ post) < u64_limit - 1"
    "n + length before < MAX_BOXES_SCANNED" "depth \<le> MAX_BOX_DEPTH"
  shows "\<exists>m. descend u (pre @ comment_atom before flags txt after @ post) (length pre)
      (length (pre @ comment_atom before flags txt after)) [] depth n =
    (Inr (Some txt, m) :: 'e workflow_mp4_error + string option \<times> nat)"
proof -
  let ?data = "box BOX_DATA (flags @ txt)"
  let ?pre = "pre @ boxes before" and ?post = "after @ post"
  let ?bytes = "pre @ boxes before @ box BOX_CMT ?data @ ?post"
  let ?limit = "length (pre @ boxes before @ box BOX_CMT ?data @ after)"
  have k: "length BOX_CMT = 4" "length BOX_DATA = 4" by (simp_all add: BOX_CMT_def BOX_DATA_def)
  have sized: "box_sized (BOX_CMT, ?data)"
    using assms(2,4) by (simp add: box_sized_def k length_box MAX_COMMENT_TEXT_BYTES_def)
  have small: "length ?bytes < u64_limit - 1" using assms(5) by (simp add: comment_atom_def)
  have "descend u ?bytes (length pre) ?limit [] depth n =
      (descend_loop u ?bytes (length pre) ?limit [] depth n :: 'e workflow_mp4_error + string option \<times> nat)"
    using assms(7) by (simp add: descend.simps [of u])
  also have "\<dots> = descend_loop u ?bytes (length ?pre) ?limit [] depth (n + length before)"
    using assms(1,6) small by (intro descend_skip_boxes) (auto simp: wanted_def list_all_iff)
  also have "\<dots> = Inr (Some txt, n + length before + 1)"
  proof -
    have header: "read_box_header u (?pre @ box BOX_CMT ?data @ ?post) (length ?pre) ?limit =
        Inr (Some \<lparr> box_kind = BOX_CMT, body_start = length ?pre + 8, box_end = length ?pre + 8 + length ?data \<rparr>)"
      using sized small by (intro read_box) (simp_all add: length_box k)
    have split: "?pre @ box BOX_CMT ?data @ ?post = (?pre @ to_be_bytes 4 (8 + length ?data) @ BOX_CMT) @ ?data @ ?post"
      by (simp add: box_def [of BOX_CMT])
    have comment: "read_comment_data u (?pre @ box BOX_CMT ?data @ ?post) (length ?pre + 8) (length ?pre + 8 + length ?data)
        = Inr (Some txt)"
      using read_comment_atom [OF assms(2-4), of "?pre @ to_be_bytes 4 (8 + length ?data) @ BOX_CMT" ?post] small split
      by (simp add: k add.assoc)
    show ?thesis
      using assms(6)
      by (simp add: descend_loop.simps [of u _ "length pre + length (boxes before)"] Let_def header [simplified]
          comment [simplified])
  qed
  finally show ?thesis by (auto simp: comment_atom_def)
qed

lemma meta_prefix_skipped:
  assumes "length (pre @ replicate 4 (CHR 0x00) @ body @ post) < u64_limit - 1" "4 \<le> length body"
    "\<not> is_box_type (take 4 body)"
  shows "meta_body_start (pre @ replicate 4 (CHR 0x00) @ body @ post) (length pre) (length pre + 4 + length body) =
    Inr (length pre + 4)"
proof -
  have lim: "length pre + 4 + length body < u64_limit - 1" using assms(1) by simp
  have "slice 4 8 (slice (length pre) (length pre + 8) (pre @ replicate 4 (CHR 0x00) @ body @ post)) = take 4 body"
    using assms(2) by (simp add: slice_def numeral_eq_Suc)
  then show ?thesis
    using assms lim by (simp add: meta_body_start_def saturating_u64_le read_at_inside)
qed

lemma descend_nest:
  assumes "nest_ok levels (comment_atom before flags txt after)"
    "list_all (\<lambda>b. box_sized b \<and> fst b \<noteq> BOX_CMT) before" "length flags = 8" "is_utf8 u txt"
    "length txt \<le> MAX_COMMENT_TEXT_BYTES"
    "length (pre @ nest levels (comment_atom before flags txt after) @ post) < u64_limit - 1"
    "n + nest_boxes levels + length before < MAX_BOXES_SCANNED" "depth + length levels \<le> MAX_BOX_DEPTH"
  shows "\<exists>m. descend u (pre @ nest levels (comment_atom before flags txt after) @ post) (length pre)
      (length (pre @ nest levels (comment_atom before flags txt after))) (map fst levels) depth n =
    (Inr (Some txt, m) :: 'e workflow_mp4_error + string option \<times> nat)"
  using assms(1,6-)
proof (induction levels arbitrary: pre post n depth)
  case Nil
  then show ?case using descend_comment_atom [OF assms(2-5)] by simp
next
  case (Cons level levels)
  obtain kind bs rest where level: "level = (kind, bs, rest)" by (cases level)
  let ?inner = "nest levels (comment_atom before flags txt after)"
  let ?body = "box_prefix kind @ ?inner"
  let ?pre = "pre @ boxes bs" and ?post = "rest @ post"
  let ?bytes = "pre @ boxes bs @ box kind ?body @ rest @ post"
  let ?limit = "length (pre @ boxes bs @ box kind ?body @ rest)"
  let ?head = "?pre @ to_be_bytes 4 (8 + length ?body) @ kind"
  have ok: "\<forall>b\<in>set bs. box_sized b \<and> fst b \<noteq> kind" "box_sized (kind, ?body)"
    and meta: "kind = BOX_META \<Longrightarrow> 4 \<le> length ?inner \<and> \<not> is_box_type (take 4 ?inner)"
    and inner_ok: "nest_ok levels (comment_atom before flags txt after)"
    using Cons.prems(1) by (simp_all add: level list_all_iff)
  have k: "length kind = 4" using ok(2) by (simp add: box_sized_def)
  have small: "length ?bytes < u64_limit - 1" using Cons.prems(2) by (simp add: level)
  have split: "?bytes = (?head @ box_prefix kind) @ ?inner @ ?post" "?bytes = ?head @ ?body @ ?post"
    by (simp_all add: box_def)
  have start: "child_start (?pre @ box kind ?body @ ?post) kind (length ?pre + 8) (length ?pre + 8 + length ?body) =
      (Inr (length (?head @ box_prefix kind)) :: 'e workflow_mp4_error + nat)"
  proof (cases "kind = BOX_META")
    case True
    have "(meta_body_start (?head @ replicate 4 (CHR 0x00) @ ?inner @ ?post) (length ?head) (length ?head + 4 + length ?inner)
        :: 'e workflow_mp4_error + nat) = Inr (length ?head + 4)"
      by (rule meta_prefix_skipped) (use True meta small split in \<open>simp_all add: box_prefix_def\<close>)
    then show ?thesis using True split k by (simp add: child_start_def box_prefix_def add.assoc)
  qed (simp add: child_start_def box_prefix_def k)
  obtain m where inner: "descend u ((?head @ box_prefix kind) @ ?inner @ ?post) (length (?head @ box_prefix kind))
      (length ((?head @ box_prefix kind) @ ?inner)) (map fst levels) (depth + 1) (n + length bs + 1) =
      (Inr (Some txt, m) :: 'e workflow_mp4_error + string option \<times> nat)"
    using Cons.IH [OF inner_ok, of "?head @ box_prefix kind" ?post "n + length bs + 1" "depth + 1"] small split(1)
      Cons.prems(3,4) by (auto simp: level)
  have "descend u ?bytes (length pre) ?limit (kind # map fst levels) depth n =
      (descend_loop u ?bytes (length pre) ?limit (kind # map fst levels) depth n
        :: 'e workflow_mp4_error + string option \<times> nat)"
    using Cons.prems(4) by (simp add: descend.simps [of u])
  also have "\<dots> = descend_loop u ?bytes (length ?pre) ?limit (kind # map fst levels) depth (n + length bs)"
    using ok(1) small Cons.prems(3) by (intro descend_skip_boxes) (auto simp: wanted_def level)
  also have "\<dots> = descend_loop u (?pre @ box kind ?body @ ?post) (length ?pre) ?limit (kind # map fst levels) depth (n + length bs)"
    by simp
  also have "\<dots> = Inr (Some txt, m)"
  proof (rule descend_enter [where start = "length (?head @ box_prefix kind)"])
    show "descend u (?pre @ box kind ?body @ ?post) (length (?head @ box_prefix kind)) (length ?pre + 8 + length ?body)
        (map fst levels) (depth + 1) (n + length bs + 1) = (Inr (Some txt, m) :: 'e workflow_mp4_error + string option \<times> nat)"
      using inner split(1) k by (simp add: add.assoc)
  qed (rule start | use ok(2) small k Cons.prems(3) in \<open>simp add: length_box level\<close>)+
  finally show ?case by (auto simp: level)
qed

text \<open>A file whose comment sits on the path, with any other boxes around it.\<close>

lemma read_mp4_comment_nest:
  assumes "map fst levels = PATH" "nest_ok levels (comment_atom before flags txt after)"
    "list_all (\<lambda>b. box_sized b \<and> fst b \<noteq> BOX_CMT) before" "length flags = 8" "is_utf8 u txt"
    "length txt \<le> MAX_COMMENT_TEXT_BYTES" "length (nest levels (comment_atom before flags txt after)) < u64_limit - 1"
    "nest_boxes levels + length before < MAX_BOXES_SCANNED"
  shows "read_mp4_comment u (nest levels (comment_atom before flags txt after)) =
    (Inr (Some txt) :: 'e workflow_mp4_error + string option)"
proof -
  have "length (map fst levels) = 4" unfolding assms(1) PATH_def by simp
  then obtain m where "descend u ([] @ nest levels (comment_atom before flags txt after) @ []) (length [])
      (length ([] @ nest levels (comment_atom before flags txt after))) (map fst levels) 0 0 =
    (Inr (Some txt, m) :: 'e workflow_mp4_error + string option \<times> nat)"
    using descend_nest [OF assms(2-6), of "[]" "[]" 0 0, where 'e = 'e] assms(7,8) by (auto simp: MAX_BOX_DEPTH_def)
  then show ?thesis using assms(1) by (simp add: read_mp4_comment_def find_comment_def)
qed

text \<open>
  C24. A video envelope survives the container: in any file whose comment atom holds the serialized
  envelope, under \<open>moov\<close>, \<open>udta\<close>, \<open>meta\<close> and \<open>ilst\<close> and with other boxes around it on every level, the
  reader returns the envelope, provided the parser reads back what was serialized.
\<close>

theorem mp4_envelope_roundtrip:
  assumes "map fst levels = PATH" "nest_ok levels (comment_atom before flags payload after)"
    "list_all (\<lambda>b. box_sized b \<and> fst b \<noteq> BOX_CMT) before" "length flags = 8" "is_utf8 u payload"
    "length payload \<le> MAX_COMMENT_TEXT_BYTES"
    "length (nest levels (comment_atom before flags payload after)) < u64_limit - 1"
    "nest_boxes levels + length before < MAX_BOXES_SCANNED"
    and "sublist WORKFLOW_SHARE_MARKER_KEY payload" "parse_json p payload = Inr share" "kind_of p share = WORKFLOW_KIND_VIDEO"
  shows "read_workflow_metadata u p (nest levels (comment_atom before flags payload after)) = Inr (Some share)"
  using assms(9-11)
  by (simp add: read_workflow_metadata_def read_workflow_metadata_from_def contains_bytes_iff
      read_mp4_comment_nest [OF assms(1-8), unfolded read_mp4_comment_def])

section \<open>The document is read back\<close>

text \<open>
  How a metadata line is read: up to the first line end that is not escaped, a backslash taking the
  next character as it is.
\<close>

fun read_value :: "string \<Rightarrow> string \<times> string" where
  "read_value [] = ([], [])"
| "read_value (c # rest) =
     (if c = CHR 0x0A then ([], rest)
      else if c = CHR 0x5C then
        (case rest of [] \<Rightarrow> ([], []) | d # rest' \<Rightarrow> (let (v, t) = read_value rest' in (d # v, t)))
      else (let (v, t) = read_value rest in (c # v, t)))"

lemma read_escaped: "read_value (escape_ffmetadata v @ CHR 0x0A # rest) = (v, rest)"
  by (induction v) (auto simp: needs_escape_def)

text \<open>
  The document names the comment and carries the whole envelope: reading its value line gives back
  the serialized envelope and leaves nothing; an envelope with a carriage return is refused.
\<close>

theorem ffmetadata_document_roundtrip:
  "(case to_json share of
      Inl e \<Rightarrow> ffmetadata_document to_json share = Inl (Unencodable e)
    | Inr payload \<Rightarrow>
        if CHR 0x0D \<in> set payload then \<exists>detail. ffmetadata_document to_json share = Inl (Unencodable detail)
        else \<exists>v. ffmetadata_document to_json share = Inr ('';FFMETADATA1'' @ [CHR 0x0A] @ ''comment='' @ v) \<and>
               read_value v = (payload, []) \<and> CHR 0x0D \<notin> set v)"
proof (cases "to_json share")
  case (Inr payload)
  have "set (escape_ffmetadata payload) \<subseteq> insert (CHR 0x5C) (set payload)" by (induction payload) auto
  then show ?thesis
    using Inr read_escaped [of payload "[]"]
    by (auto simp: ffmetadata_document_def FFMETADATA_HEADER_def WORKFLOW_MP4_TAG_def)
qed (simp add: ffmetadata_document_def)

section \<open>Witnesses\<close>

definition demo_utf8 :: utf8_ops where
  "demo_utf8 = \<lparr> is_utf8 = list_all (\<lambda>c. char_code c < 128), from_utf8_lossy = (\<lambda>s. s) \<rparr>"

definition demo_parser :: "(string, string) envelope_parser" where
  "demo_parser = \<lparr> parse_json = Inr, kind_of = (\<lambda>_. ''video''), refused_kind = (\<lambda>found supported. found) \<rparr>"

definition demo_payload :: string where "demo_payload = ''{sceneworksWorkflow:video}''"

definition demo_levels :: "(string \<times> (string \<times> string) list \<times> string) list" where
  "demo_levels = [(BOX_MOOV, [(''ftyp'', ''isom'')], ''tail''), (BOX_UDTA, [(''mvhd'', [])], []), (BOX_META, [], []),
     (BOX_ILST, [(''hdlr'', ''mdir'')], [])]"

definition demo_atom :: string where
  "demo_atom = comment_atom [] (replicate 8 (CHR 0x01)) demo_payload []"

lemma demo_lengths: "length demo_atom = 50"
  by (simp add: demo_atom_def comment_atom_def box_def demo_payload_def BOX_CMT_def BOX_DATA_def)

lemma demo_size: "to_be_bytes 4 12 = [CHR 0x00, CHR 0x00, CHR 0x00, CHR 0x0C]"
  by code_simp

lemmas demo_kinds = BOX_MOOV_def BOX_UDTA_def BOX_META_def BOX_ILST_def

lemma demo_meta_child: "take 4 (box ''hdlr'' ''mdir'') = [CHR 0x00, CHR 0x00, CHR 0x00, CHR 0x0C]"
  by (simp add: box_def demo_size)

lemma demo_not_type: "\<not> is_box_type [CHR 0x00, CHR 0x00, CHR 0x00, CHR 0x0C]"
  by (simp add: is_box_type_def char_code_def)

lemma demo_nest_ok: "nest_ok demo_levels demo_atom"
  by (simp add: demo_levels_def box_sized_def box_prefix_def length_box demo_lengths demo_kinds
      demo_meta_child demo_not_type)

lemma demo_file_length: "length (nest demo_levels demo_atom) = 122"
  by (simp add: demo_levels_def box_prefix_def length_box demo_lengths demo_kinds)

theorem mp4_envelope_roundtrip_witness:
  "read_workflow_metadata demo_utf8 demo_parser (nest demo_levels demo_atom) = Inr (Some demo_payload)"
  unfolding demo_atom_def
proof (rule mp4_envelope_roundtrip)
  show "nest_ok demo_levels (comment_atom [] (replicate 8 (CHR 0x01)) demo_payload [])"
    using demo_nest_ok by (simp add: demo_atom_def)
  show "length (nest demo_levels (comment_atom [] (replicate 8 (CHR 0x01)) demo_payload [])) < u64_limit - 1"
    using demo_file_length by (simp add: demo_atom_def u64_limit_def)
  show "sublist WORKFLOW_SHARE_MARKER_KEY demo_payload"
    by (simp add: WORKFLOW_SHARE_MARKER_KEY_def demo_payload_def sublist_code)
  show "map fst demo_levels = PATH" by (simp add: demo_levels_def PATH_def)
  show "is_utf8 demo_utf8 demo_payload" by (simp add: demo_utf8_def demo_payload_def char_code_def)
  show "nest_boxes demo_levels + length ([] :: (string \<times> string) list) < MAX_BOXES_SCANNED"
    by (simp add: demo_levels_def MAX_BOXES_SCANNED_def)
qed (simp_all add: demo_payload_def MAX_COMMENT_TEXT_BYTES_def demo_parser_def WORKFLOW_KIND_VIDEO_def)

theorem read_mp4_comment_safe_witness:
  "length (nest demo_levels demo_atom) < u64_limit - 1 \<and>
    (\<forall>m. (read_mp4_comment demo_utf8 (nest demo_levels demo_atom) :: unit workflow_mp4_error + string option) \<noteq> Inl (Mp4Io m))"
  using read_mp4_comment_safe [of "nest demo_levels demo_atom" demo_utf8, where 'e = unit]
  by (simp add: demo_file_length u64_limit_def)

end
