(* ===== verification/AbcFrac.thy ===== *)
theory AbcFrac
  imports Complex_Main Prelude
begin

text \<open>
  Exact time of the score dialect (\<open>yue2_score/abc.rs\<close>): reduced fractions of a quarter note with
  the arithmetic the parser uses, and its agreement with the rational numbers. The \<open>i128\<close>
  components are integers.
\<close>

section \<open>Model\<close>

record frac =
  numer :: int
  denom :: int

text \<open>\<open>gcd\<close>: the loop on the absolute values.\<close>

function gcd_loop :: "int \<Rightarrow> int \<Rightarrow> int" where
  "gcd_loop a b = (if b = 0 then a else gcd_loop b (a mod b))"
  by pat_completeness auto
termination
proof (relation "measure (\<lambda>(a, b). nat \<bar>b\<bar>)")
  fix a b :: int
  assume "b \<noteq> 0"
  then have "\<bar>a mod b\<bar> < \<bar>b\<bar>" by (rule abs_mod_less)
  then show "((b, a mod b), (a, b)) \<in> measure (\<lambda>(a, b). nat \<bar>b\<bar>)" by simp
qed simp

declare gcd_loop.simps [simp del]

definition frac_gcd :: "int \<Rightarrow> int \<Rightarrow> int" where
  "frac_gcd a b = gcd_loop \<bar>a\<bar> \<bar>b\<bar>"

text \<open>\<open>Frac::new\<close>; its assertion that the denominator is not zero is a premise of the lemmas.\<close>

definition frac_new :: "int \<Rightarrow> int \<Rightarrow> frac" where
  "frac_new n d =
     (let sign = (if d < 0 then - 1 else 1); divisor = max (frac_gcd n d) 1 in
      \<lparr> numer = sign * n div divisor, denom = sign * d div divisor \<rparr>)"

definition frac_zero :: frac where "frac_zero = \<lparr> numer = 0, denom = 1 \<rparr>"

definition frac_int :: "int \<Rightarrow> frac" where "frac_int v = \<lparr> numer = v, denom = 1 \<rparr>"

definition is_integer :: "frac \<Rightarrow> bool" where "is_integer f \<longleftrightarrow> denom f = 1"

definition frac_add :: "frac \<Rightarrow> frac \<Rightarrow> frac" where
  "frac_add a b = frac_new (numer a * denom b + numer b * denom a) (denom a * denom b)"

definition frac_sub :: "frac \<Rightarrow> frac \<Rightarrow> frac" where
  "frac_sub a b = frac_new (numer a * denom b - numer b * denom a) (denom a * denom b)"

definition frac_mul :: "frac \<Rightarrow> frac \<Rightarrow> frac" where
  "frac_mul a b = frac_new (numer a * numer b) (denom a * denom b)"

text \<open>\<open>Ord::cmp\<close>, as the strict and the weak comparison the operators use.\<close>

definition frac_less :: "frac \<Rightarrow> frac \<Rightarrow> bool" where
  "frac_less a b \<longleftrightarrow> numer a * denom b < numer b * denom a"

definition frac_le :: "frac \<Rightarrow> frac \<Rightarrow> bool" where
  "frac_le a b \<longleftrightarrow> numer a * denom b \<le> numer b * denom a"

definition frac_show :: "frac \<Rightarrow> string" where
  "frac_show f = (if denom f = 1 then show_int (numer f) else show_int (numer f) @ ''/'' @ show_int (denom f))"

text \<open>\<open>str::split_once\<close>.\<close>

definition split_once :: "char \<Rightarrow> string \<Rightarrow> (string \<times> string) option" where
  "split_once c s =
     (if c \<in> set s then Some (takeWhile (\<lambda>x. x \<noteq> c) s, tl (dropWhile (\<lambda>x. x \<noteq> c) s)) else None)"

definition frac_parse :: "string \<Rightarrow> frac option" where
  "frac_parse s =
     (let s = trim s;
          (n, d) = (case split_once (CHR ''/'') s of Some (n, d) \<Rightarrow> (trim n, trim d) | None \<Rightarrow> (s, ''1'')) in
      if n = [] \<or> d = [] \<or> \<not> list_all is_ascii_digit n \<or> \<not> list_all is_ascii_digit d \<or> length n > 18 \<or> length d > 18
      then None
      else let n = int (digits_value n); d = int (digits_value d) in
        if d \<noteq> 0 then Some (frac_new n d) else None)"

section \<open>Agreement with the rational numbers\<close>

definition frac_ok :: "frac \<Rightarrow> bool" where
  "frac_ok f \<longleftrightarrow> 0 < denom f \<and> coprime (numer f) (denom f)"

definition val :: "frac \<Rightarrow> rat" where
  "val f = of_int (numer f) / of_int (denom f)"

lemma gcd_loop_gcd: "0 \<le> a \<Longrightarrow> 0 \<le> b \<Longrightarrow> gcd_loop a b = gcd a b"
proof (induction a b rule: gcd_loop.induct)
  case (1 a b)
  show ?case
  proof (cases "b = 0")
    case True
    with 1(2) show ?thesis by (simp add: gcd_loop.simps [of a 0])
  next
    case False
    with 1 have "gcd_loop b (a mod b) = gcd b (a mod b)" by simp
    with False show ?thesis by (simp add: gcd_loop.simps [of a b] gcd_red_int [symmetric])
  qed
qed

lemma frac_gcd_gcd: "frac_gcd a b = gcd a b"
  by (simp add: frac_gcd_def gcd_loop_gcd)

lemma frac_new_ok:
  assumes "d \<noteq> 0"
  shows "frac_ok (frac_new n d)" "val (frac_new n d) = of_int n / of_int d"
proof -
  let ?g = "gcd n d" and ?s = "if d < 0 then - 1 else (1 :: int)"
  have g: "0 < ?g" using assms by simp
  then have m: "max ?g 1 = ?g" by linarith
  have new: "numer (frac_new n d) = ?s * (n div ?g)" "denom (frac_new n d) = ?s * (d div ?g)"
    using m by (simp_all add: frac_new_def frac_gcd_gcd Let_def dvd_neg_div)
  have "coprime (n div ?g) (d div ?g)" using assms by (intro div_gcd_coprime) auto
  moreover have "0 < ?s * (d div ?g)"
    using assms g by (auto simp: pos_imp_zdiv_pos_iff zdvd_imp_le pos_imp_zdiv_neg_iff zero_less_mult_iff linorder_neq_iff
        dest: zdvd_imp_le)
  ultimately show "frac_ok (frac_new n d)" by (simp add: frac_ok_def new)
  have "(of_int (n div ?g) :: rat) / of_int (d div ?g) = of_int n / of_int d"
    using g assms by (simp add: of_int_div)
  then show "val (frac_new n d) = of_int n / of_int d" by (simp add: val_def new)
qed

lemma val_zero [simp]: "val frac_zero = 0" and val_int [simp]: "val (frac_int n) = of_int n"
  by (simp_all add: val_def frac_zero_def frac_int_def)

lemma frac_ok_zero [simp, intro]: "frac_ok frac_zero" and frac_ok_int [simp, intro]: "frac_ok (frac_int n)"
  by (simp_all add: frac_ok_def frac_zero_def frac_int_def)

lemma frac_add_ok [simp]:
  "frac_ok a \<Longrightarrow> frac_ok b \<Longrightarrow> frac_ok (frac_add a b)"
  "frac_ok a \<Longrightarrow> frac_ok b \<Longrightarrow> val (frac_add a b) = val a + val b"
  using frac_new_ok [of "denom a * denom b" "numer a * denom b + numer b * denom a"]
  by (auto simp: frac_add_def frac_ok_def val_def add_frac_eq)

lemma frac_sub_ok [simp]:
  "frac_ok a \<Longrightarrow> frac_ok b \<Longrightarrow> frac_ok (frac_sub a b)"
  "frac_ok a \<Longrightarrow> frac_ok b \<Longrightarrow> val (frac_sub a b) = val a - val b"
  using frac_new_ok [of "denom a * denom b" "numer a * denom b - numer b * denom a"]
  by (auto simp: frac_sub_def frac_ok_def val_def diff_frac_eq)

lemma frac_mul_ok [simp]:
  "frac_ok a \<Longrightarrow> frac_ok b \<Longrightarrow> frac_ok (frac_mul a b)"
  "frac_ok a \<Longrightarrow> frac_ok b \<Longrightarrow> val (frac_mul a b) = val a * val b"
  using frac_new_ok [of "denom a * denom b" "numer a * numer b"]
  by (auto simp: frac_mul_def frac_ok_def val_def)

lemma frac_le_val: "frac_ok a \<Longrightarrow> frac_ok b \<Longrightarrow> frac_le a b \<longleftrightarrow> val a \<le> val b"
  by (simp add: frac_le_def frac_ok_def val_def field_simps flip: of_int_mult)

lemma frac_less_val: "frac_ok a \<Longrightarrow> frac_ok b \<Longrightarrow> frac_less a b \<longleftrightarrow> val a < val b"
  by (simp add: frac_less_def frac_ok_def val_def field_simps flip: of_int_mult)

lemma frac_eq_val:
  assumes "frac_ok a" "frac_ok b"
  shows "a = b \<longleftrightarrow> val a = val b"
proof
  assume "val a = val b"
  with assms have cross: "numer a * denom b = numer b * denom a"
    by (simp add: frac_ok_def val_def field_simps flip: of_int_mult)
  have "denom a dvd numer a * denom b" "denom b dvd numer b * denom a" by (simp add: cross) (simp flip: cross)
  then have "denom a dvd denom b" "denom b dvd denom a"
    using assms by (auto simp: frac_ok_def coprime_commute coprime_dvd_mult_right_iff)
  then have d: "denom a = denom b" using assms by (simp add: frac_ok_def zdvd_antisym_nonneg)
  moreover have "numer a = numer b" using cross d assms by (simp add: frac_ok_def)
  ultimately show "a = b" by simp
qed simp

text \<open>
  The exact time arithmetic is that of the rational numbers: on reduced fractions, which every
  operation keeps, addition, subtraction and multiplication give the rational result, the comparisons
  are the order of the rationals, equality of values is equality of fractions, and a fraction that is
  parsed is reduced and not negative.
\<close>

theorem frac_is_rational:
  assumes "frac_ok a" "frac_ok b"
  shows "(frac_ok (frac_add a b) \<and> val (frac_add a b) = val a + val b) \<and>
    (frac_ok (frac_sub a b) \<and> val (frac_sub a b) = val a - val b) \<and>
    (frac_ok (frac_mul a b) \<and> val (frac_mul a b) = val a * val b) \<and>
    (frac_less a b \<longleftrightarrow> val a < val b) \<and> (frac_le a b \<longleftrightarrow> val a \<le> val b) \<and> (a = b \<longleftrightarrow> val a = val b) \<and>
    (\<forall>s f. frac_parse s = Some f \<longrightarrow> frac_ok f \<and> 0 \<le> val f)"
proof -
  have "frac_ok f \<and> 0 \<le> val f" if "frac_parse s = Some f" for s f
    using that frac_new_ok by (auto simp: frac_parse_def Let_def split: if_splits prod.splits)
  then show ?thesis
    using assms frac_less_val [OF assms] frac_le_val [OF assms] frac_eq_val [OF assms] by simp
qed

theorem frac_is_rational_witness:
  "frac_ok (frac_new 6 4) \<and> val (frac_add (frac_new 6 4) (frac_int 1)) = val (frac_new 6 4) + 1"
  using frac_is_rational [of "frac_new 6 4" "frac_int 1"] frac_new_ok(1) [of 4 6] by simp

end
