(* ===== verification/AbcTokens.thy ===== *)
theory AbcTokens
  imports AbcFrac
begin

text \<open>
  The vocabulary of the score dialect (\<open>yue2_score/abc.rs\<close>): keys, meters, chord symbols, and the
  tokens of a measure with their lexer. The cursor of the lexer is the rest of the text. A rejection
  is a value that names the failed check; its context is the text the code prefixes.
\<close>

section \<open>Model\<close>

definition VOICE_NAMES :: "string list" where "VOICE_NAMES = [''Vocal'', ''Ins'']"
definition DURATIONS :: "nat list" where "DURATIONS = [1, 2, 3, 4, 6, 8, 12, 16, 24, 32, 48]"
definition MAX_METER_NUMERATOR :: nat where "MAX_METER_NUMERATOR = 64"

definition CHORD_QUALITIES :: "string list" where
  "CHORD_QUALITIES = ['''', ''m'', ''dim'', ''aug'', ''7'', ''maj7'', ''m7'', ''dim7'', ''m7b5'', ''sus4'', ''sus2'',
     ''6'', ''m6'', ''7sus4'', ''m(maj7)'']"

datatype abc_error =
    UnsupportedKey string
  | UnsupportedMeter string
  | UnsupportedMeterDenominator nat
  | UnsupportedMeterNumerator nat
  | TieEntersFullRest string
  | UnsupportedToken string string
  | EventAfterMeasure string
  | UnsupportedChord string string
  | UnsupportedDuration string string
  | ExceedsMeter string
  | MixedOctaves string
  | MarkedRest string
  | TieEntersRest string
  | TieChangesPitch string int int
  | PitchOutsideMidi string int
  | DurationMismatch string frac frac
  | NoPlainBarline string
  | EmptyMeasure string
  | IncompleteScore
  | HeaderMismatch
  | MissingHeaderMeter
  | UnitExpected
  | UnsupportedUnit
  | TempoExpected
  | VoiceDefinitionsChanged
  | MissingHeaderKey
  | DanglingComment
  | VoiceExpected string string
  | DuplicateField string char
  | MissingMusicLine string
  | MeasureCountOutOfRange string
  | MeasureCountsDiffer nat
  | UnresolvedTie string
  | ChordsInInstrument
  | TimeGridsDiffer
  | KeyTimelinesDiffer

definition MAJOR_KEYS :: "string list" where
  "MAJOR_KEYS = [''Cb'', ''Gb'', ''Db'', ''Ab'', ''Eb'', ''Bb'', ''F'', ''C'', ''G'', ''D'', ''A'', ''E'', ''B'', ''F#'', ''C#'']"

definition MINOR_KEYS :: "string list" where
  "MINOR_KEYS = [''Abm'', ''Ebm'', ''Bbm'', ''Fm'', ''Cm'', ''Gm'', ''Dm'', ''Am'', ''Em'', ''Bm'', ''F#m'', ''C#m'', ''G#m'',
     ''D#m'', ''A#m'']"

text \<open>\<open>natural_semitone\<close> and \<open>letter_index\<close> on the note letters; elsewhere the code does not return.\<close>

definition natural_semitone :: "char \<Rightarrow> int" where
  "natural_semitone c =
     (if c = CHR ''C'' then 0 else if c = CHR ''D'' then 2 else if c = CHR ''E'' then 4 else if c = CHR ''F'' then 5
      else if c = CHR ''G'' then 7 else if c = CHR ''A'' then 9 else 11)"

text \<open>\<open>Iterator::position\<close> of an equal element.\<close>

fun position :: "'a \<Rightarrow> 'a list \<Rightarrow> nat option" where
  "position x [] = None"
| "position x (y # ys) = (if x = y then Some 0 else map_option Suc (position x ys))"

definition letter_index :: "char \<Rightarrow> nat" where
  "letter_index c = (case position c ''CDEFGAB'' of Some i \<Rightarrow> i | None \<Rightarrow> 0)"

definition key_accidentals :: "string \<Rightarrow> abc_error + int list" where
  "key_accidentals key =
     (case (case position key MAJOR_KEYS of Some i \<Rightarrow> Some i | None \<Rightarrow> position key MINOR_KEYS) of
        None \<Rightarrow> Inl (UnsupportedKey key)
      | Some i \<Rightarrow>
          let n = int i - 7; order = (if n > 0 then ''FCGDAEB'' else ''BEADGCF'') in
          Inr (foldl (\<lambda>r letter. r[letter_index letter := (if n > 0 then 1 else - 1)]) (replicate 7 0)
                 (take (nat \<bar>n\<bar>) order)))"

record meter =
  m_numerator :: nat
  m_denominator :: nat

definition meter_length :: "meter \<Rightarrow> frac" where
  "meter_length m = frac_new (4 * int (m_numerator m)) (int (m_denominator m))"

text \<open>\<open>str::parse\<close> of a run of digits as a \<open>u32\<close>.\<close>

definition parse_u32 :: "string \<Rightarrow> nat option" where
  "parse_u32 s = (if digits_value s < 2 ^ 32 then Some (digits_value s) else None)"

definition positive_decimal :: "string \<Rightarrow> nat option" where
  "positive_decimal s =
     (if s = [] \<or> hd s = CHR ''0'' \<or> \<not> list_all is_ascii_digit s then None else parse_u32 s)"

definition is_power_of_two_upto_1024 :: "nat \<Rightarrow> bool" where
  "is_power_of_two_upto_1024 v \<longleftrightarrow> v \<le> 1024 \<and> list_ex (\<lambda>k. v = 2 ^ k) [0..<11]"

definition meter_value :: "string \<Rightarrow> abc_error + meter" where
  "meter_value s =
     (case Option.bind (split_once (CHR ''/'') s) (\<lambda>(n, d).
             Option.bind (positive_decimal n) (\<lambda>numerator. map_option (\<lambda>denominator. (numerator, denominator)) (positive_decimal d))) of
        None \<Rightarrow> Inl (UnsupportedMeter s)
      | Some (numerator, denominator) \<Rightarrow>
          if \<not> is_power_of_two_upto_1024 denominator then Inl (UnsupportedMeterDenominator denominator)
          else if numerator > MAX_METER_NUMERATOR then Inl (UnsupportedMeterNumerator numerator)
          else Inr \<lparr> m_numerator = numerator, m_denominator = denominator \<rparr>)"

definition is_note_letter :: "char \<Rightarrow> bool" where
  "is_note_letter c \<longleftrightarrow> 65 \<le> char_code c \<and> char_code c \<le> 71"

definition strip_prefix :: "string \<Rightarrow> string \<Rightarrow> string option" where
  "strip_prefix p s = (if take (length p) s = p then Some (drop (length p) s) else None)"

definition starts_with_text :: "string \<Rightarrow> string \<Rightarrow> bool" where
  "starts_with_text p s \<longleftrightarrow> strip_prefix p s \<noteq> None"

definition pitch_name_len :: "string \<Rightarrow> nat option" where
  "pitch_name_len s =
     (case s of
        [] \<Rightarrow> None
      | letter # rest \<Rightarrow>
          if \<not> is_note_letter letter then None
          else case find (\<lambda>a. starts_with_text a rest) [''bb'', ''##'', ''b'', ''#''] of
            Some a \<Rightarrow> Some (1 + length a)
          | None \<Rightarrow> Some 1)"

definition is_native_chord :: "string \<Rightarrow> bool" where
  "is_native_chord symbol =
     (case pitch_name_len symbol of
        None \<Rightarrow> False
      | Some root_len \<Rightarrow>
          let rest = drop root_len symbol;
              (quality, bass) = (case split_once (CHR ''/'') rest of Some (q, b) \<Rightarrow> (q, Some b) | None \<Rightarrow> (rest, None)) in
          List.member CHORD_QUALITIES quality \<and>
          (case bass of None \<Rightarrow> True | Some b \<Rightarrow> pitch_name_len b = Some (length b)))"

datatype accidental = DoubleSharp | DoubleFlat | Sharp | Flat | Natural

fun alteration :: "accidental \<Rightarrow> int" where
  "alteration DoubleSharp = 2"
| "alteration DoubleFlat = - 2"
| "alteration Sharp = 1"
| "alteration Flat = - 1"
| "alteration Natural = 0"

fun accidental_text :: "accidental \<Rightarrow> string" where
  "accidental_text DoubleSharp = ''^^''"
| "accidental_text DoubleFlat = ''__''"
| "accidental_text Sharp = ''^''"
| "accidental_text Flat = ''_''"
| "accidental_text Natural = ''=''"

record note_token =
  t_accidental :: "accidental option"
  t_note :: char
  t_octave :: string
  t_duration :: string
  t_tie :: bool

datatype token = TChord string | TKey string | TNote note_token

fun render :: "token \<Rightarrow> string" where
  "render (TChord symbol) = [CHR 0x22] @ symbol @ [CHR 0x22]"
| "render (TKey key) = ''[K:'' @ key @ '']''"
| "render (TNote n) =
     (case t_accidental n of Some a \<Rightarrow> accidental_text a | None \<Rightarrow> []) @ [t_note n] @ t_octave n @ t_duration n
       @ (if t_tie n then ''-'' else [])"

definition is_octave_mark :: "char \<Rightarrow> bool" where
  "is_octave_mark c \<longleftrightarrow> c = CHR '','' \<or> c = CHR 0x27"

definition lex_accidental :: "string \<Rightarrow> accidental option \<times> string" where
  "lex_accidental s =
     (case find (\<lambda>a. starts_with_text (accidental_text a) s) [DoubleSharp, DoubleFlat, Sharp, Flat, Natural] of
        Some a \<Rightarrow> (Some a, drop (length (accidental_text a)) s)
      | None \<Rightarrow> (None, s))"

definition is_note_char :: "char \<Rightarrow> bool" where
  "is_note_char c \<longleftrightarrow> is_note_letter c \<or> (97 \<le> char_code c \<and> char_code c \<le> 103) \<or> c = CHR ''z''"

definition lex_note :: "string \<Rightarrow> (token \<times> string) option" where
  "lex_note s =
     (case lex_accidental s of
        (a, []) \<Rightarrow> None
      | (a, note # r) \<Rightarrow>
          if \<not> is_note_char note then None
          else
            let octave = takeWhile is_octave_mark r; r = drop (length octave) r;
                duration = takeWhile is_ascii_digit r; r = drop (length duration) r;
                tie = starts_with_text ''-'' r; r = (if tie then drop 1 r else r) in
            Some (TNote \<lparr> t_accidental = a, t_note = note, t_octave = octave, t_duration = duration, t_tie = tie \<rparr>, r))"

text \<open>The text up to the first of a closing character and a line end; only the closing character counts.\<close>

definition find_close :: "char \<Rightarrow> string \<Rightarrow> nat option" where
  "find_close c s =
     (let inner = takeWhile (\<lambda>x. x \<noteq> c \<and> x \<noteq> CHR 0x0A) s in
      if length inner < length s \<and> s ! length inner = c then Some (length inner) else None)"

definition lex_token :: "string \<Rightarrow> (token \<times> string) option" where
  "lex_token rest =
     (case strip_prefix [CHR 0x22] rest of
        Some inner \<Rightarrow>
          map_option (\<lambda>end. (TChord (take end inner), drop (end + 2) rest)) (find_close (CHR 0x22) inner)
      | None \<Rightarrow>
          (case strip_prefix ''[K:'' rest of
             Some inner \<Rightarrow>
               Option.bind (find_close (CHR '']'') inner) (\<lambda>end.
                 if end = 0 then None else Some (TKey (take end inner), drop (3 + end + 1) rest))
           | None \<Rightarrow> lex_note rest))"

definition token_units :: "string \<Rightarrow> nat option" where
  "token_units duration =
     (if duration = [] then Some 1
      else if length duration > 9 then None
      else Option.bind (parse_u32 duration) (\<lambda>units. if List.member DURATIONS units then Some units else None))"

definition preview :: "string \<Rightarrow> string" where
  "preview rest = take 24 rest"

section \<open>Lexing and rendering\<close>

lemma strip_prefix_Some: "strip_prefix p s = Some r \<longleftrightarrow> s = p @ r"
  by (metis append_eq_conv_conj append_take_drop_id option.inject option.simps(3) strip_prefix_def)

lemma strip_prefix_None: "strip_prefix p s = None \<longleftrightarrow> (\<forall>r. s \<noteq> p @ r)"
  by (metis not_Some_eq strip_prefix_Some)

lemma starts_with_text_iff: "starts_with_text p s \<longleftrightarrow> (\<exists>r. s = p @ r)"
  by (auto simp: starts_with_text_def strip_prefix_Some)

lemma find_close_Some: "find_close c s = Some n \<Longrightarrow> n < length s \<and> s = take n s @ c # drop (Suc n) s"
  by (auto simp: find_close_def Let_def id_take_nth_drop split: if_splits)

lemma find_close_append:
  assumes "c \<notin> set s" "CHR 0x0A \<notin> set s"
  shows "find_close c (s @ c # r) = Some (length s)"
proof -
  have "takeWhile (\<lambda>x. x \<noteq> c \<and> x \<noteq> CHR 0x0A) (s @ c # r) = s"
    using assms by (subst takeWhile_append2) auto
  then show ?thesis by (simp add: find_close_def)
qed

lemma lex_accidental_split:
  "lex_accidental s = (a, r) \<Longrightarrow> s = (case a of Some a \<Rightarrow> accidental_text a | None \<Rightarrow> []) @ r"
  by (auto simp: lex_accidental_def starts_with_text_iff find_Some_iff split: option.splits if_splits)

lemma strip_minus:
  "(if starts_with_text ''-'' q then ''-'' else []) @ (if starts_with_text ''-'' q then drop 1 q else q) = q"
  by (auto simp: starts_with_text_iff)

lemma lex_note_split:
  assumes "lex_note s = Some (t, r)"
  shows "s = render t @ r"
proof -
  obtain a c q where q: "lex_accidental s = (a, c # q)"
    using assms by (auto simp: lex_note_def split: prod.splits list.splits)
  let ?o = "takeWhile is_octave_mark q" and ?q1 = "drop (length (takeWhile is_octave_mark q)) q"
  let ?d = "takeWhile is_ascii_digit ?q1" and ?q2 = "drop (length (takeWhile is_ascii_digit ?q1)) ?q1"
  have t: "t = TNote \<lparr> t_accidental = a, t_note = c, t_octave = ?o, t_duration = ?d, t_tie = starts_with_text ''-'' ?q2 \<rparr>"
    and r: "r = (if starts_with_text ''-'' ?q2 then drop 1 ?q2 else ?q2)"
    using assms q by (auto simp: lex_note_def Let_def split: if_splits)
  have "?q2 = (if starts_with_text ''-'' ?q2 then ''-'' else []) @ r"
    unfolding r by (rule strip_minus [symmetric])
  moreover have "?q1 = ?d @ ?q2" "q = ?o @ ?q1"
    by (simp_all add: dropWhile_eq_drop [symmetric])
  ultimately show ?thesis using lex_accidental_split [OF q] by (simp add: t)
qed

lemma lex_token_split:
  assumes "lex_token s = Some (t, r)"
  shows "s = render t @ r"
proof (cases "strip_prefix [CHR 0x22] s")
  case (Some inner)
  then obtain n where n: "find_close (CHR 0x22) inner = Some n" and t: "t = TChord (take n inner)" and r: "r = drop (n + 2) s"
    using assms by (auto simp: lex_token_def)
  have "s = CHR 0x22 # inner" using Some by (simp add: strip_prefix_Some)
  with find_close_Some [OF n] t r show ?thesis by simp
next
  case no_chord: None
  show ?thesis
  proof (cases "strip_prefix ''[K:'' s")
    case (Some inner)
    then obtain n where n: "find_close (CHR '']'') inner = Some n" and t: "t = TKey (take n inner)"
      and r: "r = drop (3 + n + 1) s"
      using assms no_chord by (auto simp: lex_token_def bind_eq_Some_conv split: if_splits)
    have "s = ''[K:'' @ inner" using Some by (simp add: strip_prefix_Some)
    with find_close_Some [OF n] t r show ?thesis by (simp add: numeral_eq_Suc)
  next
    case None
    with no_chord assms show ?thesis by (simp add: lex_token_def lex_note_split)
  qed
qed

lemma render_not_Nil [simp]: "render t \<noteq> []"
  by (cases t) auto

lemma lex_token_shorter: "lex_token s = Some (t, r) \<Longrightarrow> length r < length s"
  using lex_token_split [of s t r] by (cases "render t") auto

text \<open>The tokens the lexer produces, and what may follow one without becoming part of it.\<close>

fun token_ok :: "token \<Rightarrow> bool" where
  "token_ok (TChord symbol) \<longleftrightarrow> CHR 0x22 \<notin> set symbol \<and> CHR 0x0A \<notin> set symbol"
| "token_ok (TKey key) \<longleftrightarrow> key \<noteq> [] \<and> CHR '']'' \<notin> set key \<and> CHR 0x0A \<notin> set key"
| "token_ok (TNote n) \<longleftrightarrow> is_note_char (t_note n) \<and> list_all is_octave_mark (t_octave n) \<and> list_all is_ascii_digit (t_duration n)"

fun separated :: "token \<Rightarrow> string \<Rightarrow> bool" where
  "separated (TNote n) r \<longleftrightarrow>
     t_tie n \<or> r = [] \<or>
     (hd r \<noteq> CHR ''-'' \<and> \<not> is_ascii_digit (hd r) \<and> (t_duration n = [] \<longrightarrow> \<not> is_octave_mark (hd r)))"
| "separated _ r = True"

lemma note_char_facts:
  assumes "is_note_char c"
  shows "c \<noteq> CHR 0x22" "c \<noteq> CHR ''[''" "c \<noteq> CHR ''^''" "c \<noteq> CHR ''_''" "c \<noteq> CHR ''=''"
  using assms by (auto simp: is_note_char_def is_note_letter_def char_code_def)

lemma lex_accidental_render:
  assumes "is_note_char c"
  shows "lex_accidental ((case a of Some a \<Rightarrow> accidental_text a | None \<Rightarrow> []) @ c # r) = (a, c # r)"
  using note_char_facts [OF assms]
  by (cases a; (cases "the a")?) (simp_all add: lex_accidental_def starts_with_text_def strip_prefix_def)

lemma takeWhile_block:
  "list_all P xs \<Longrightarrow> r = [] \<or> \<not> P (hd r) \<Longrightarrow> takeWhile P (xs @ r) = xs"
  by (induction xs) (auto simp: takeWhile_eq_Nil_iff)

lemma lex_note_parts:
  assumes "is_note_char c" "takeWhile is_octave_mark (octave @ duration @ q) = octave"
    "takeWhile is_ascii_digit (duration @ q) = duration"
  shows "lex_note ((case a of Some a \<Rightarrow> accidental_text a | None \<Rightarrow> []) @ c # octave @ duration @ q) =
    Some (TNote \<lparr> t_accidental = a, t_note = c, t_octave = octave, t_duration = duration, t_tie = starts_with_text ''-'' q \<rparr>,
      if starts_with_text ''-'' q then drop 1 q else q)"
  using assms by (simp add: lex_note_def lex_accidental_render Let_def)

lemma lex_note_render:
  assumes "token_ok (TNote n)" "separated (TNote n) r"
  shows "lex_note (render (TNote n) @ r) = Some (TNote n, r)"
proof -
  let ?tie = "(if t_tie n then ''-'' else []) @ r"
  have minus: "\<not> is_ascii_digit (CHR ''-'')" "\<not> is_octave_mark (CHR ''-'')"
    by (simp_all add: is_ascii_digit_def is_octave_mark_def char_code_def)
  have digits: "takeWhile is_ascii_digit (t_duration n @ ?tie) = t_duration n"
    using assms minus by (intro takeWhile_block) (cases r; auto)+
  have "\<not> is_octave_mark d" if "is_ascii_digit d" for d
    using that by (auto simp: is_ascii_digit_def is_octave_mark_def char_code_def)
  then have octaves: "takeWhile is_octave_mark (t_octave n @ t_duration n @ ?tie) = t_octave n"
    using assms minus by (intro takeWhile_block) (cases "t_duration n"; cases r; auto)+
  have tie: "starts_with_text ''-'' ?tie \<longleftrightarrow> t_tie n" using assms by (cases r) (auto simp: starts_with_text_iff)
  have "is_note_char (t_note n)" using assms(1) by simp
  note parts = lex_note_parts [OF this octaves digits, of "t_accidental n"]
  show ?thesis using parts unfolding tie by (cases "t_tie n") simp_all
qed

text \<open>
  C19. Lexing and rendering are inverse: a token that is lexed renders to exactly the text that was
  consumed, so the rest is strictly shorter; and the rendering of a well-formed token followed by
  text that cannot extend it is lexed back to that token, with that text as the rest.
\<close>

theorem lex_render_roundtrip:
  "(lex_token s = Some (t, r) \<longrightarrow> s = render t @ r \<and> length r < length s) \<and>
   (token_ok u \<and> separated u q \<longrightarrow> lex_token (render u @ q) = Some (u, q))"
proof -
  have "lex_token (render u @ q) = Some (u, q)" if "token_ok u" "separated u q"
  proof (cases u)
    case (TChord symbol)
    with that find_close_append [of "CHR 0x22" symbol q] show ?thesis by (simp add: lex_token_def strip_prefix_def)
  next
    case (TKey key)
    with that find_close_append [of "CHR '']''" key q] show ?thesis
      by (simp add: lex_token_def strip_prefix_def numeral_eq_Suc)
  next
    case (TNote n)
    have "strip_prefix [CHR 0x22] (render u @ q) = None" "strip_prefix ''[K:'' (render u @ q) = None"
      using that note_char_facts [of "t_note n"] TNote
      by (cases "t_accidental n"; (cases "the (t_accidental n)")?; simp add: strip_prefix_def)+
    then show ?thesis using that TNote lex_note_render [of n q] by (simp only: lex_token_def option.case)
  qed
  then show ?thesis using lex_token_split lex_token_shorter by blast
qed

theorem lex_render_roundtrip_witness:
  "lex_token (''^c,12-'' @ ''d'') =
    Some (TNote \<lparr> t_accidental = Some Sharp, t_note = CHR ''c'', t_octave = '','', t_duration = ''12'', t_tie = True \<rparr>, ''d'')"
  using lex_render_roundtrip [of "[]" "TChord []" "[]"
      "TNote \<lparr> t_accidental = Some Sharp, t_note = CHR ''c'', t_octave = '','', t_duration = ''12'', t_tie = True \<rparr>" "''d''"]
  by (simp add: is_note_char_def is_octave_mark_def is_ascii_digit_def char_code_def)

end
