(* ===== verification/SafePath.thy ===== *)
theory SafePath
  imports Prelude
begin

text \<open>
  Relative paths from documents and their confinement under a root
  (\<open>safe_path.rs\<close>). A \<open>PathBuf\<close> built here is the list of its components; a root is an
  absolute path, so its components are a list as well and joining is appending. The file
  system enters as a record of the three calls the code makes: \<open>fs::canonicalize\<close>,
  \<open>fs::symlink_metadata(..).is_ok()\<close> and \<open>Path::is_file\<close>. \<open>Path::components\<close> is that of a
  Unix path.
\<close>

section \<open>Splitting and joining\<close>

fun split_on :: "char \<Rightarrow> string \<Rightarrow> string list" where
  "split_on sep [] = [[]]"
| "split_on sep (c # cs) =
     (if c = sep then [] # split_on sep cs
      else (case split_on sep cs of [] \<Rightarrow> [[c]] | p # ps \<Rightarrow> (c # p) # ps))"

fun join_with :: "string \<Rightarrow> string list \<Rightarrow> string" where
  "join_with sep [] = []"
| "join_with sep [p] = p"
| "join_with sep (p # q # ps) = p @ sep @ join_with sep (q # ps)"

lemma split_on_not_Nil [simp]: "split_on sep s \<noteq> []"
  by (induction s) (auto split: list.split)

lemma join_split: "join_with [sep] (split_on sep s) = s"
proof (induction s)
  case (Cons c cs)
  obtain p ps where "split_on sep cs = p # ps" by (cases "split_on sep cs") simp_all
  with Cons show ?case by (cases ps) auto
qed simp

lemma split_on_no_sep: "p \<in> set (split_on sep s) \<Longrightarrow> sep \<notin> set p"
  by (induction s arbitrary: p) (auto split: list.splits if_splits)

lemma split_on_part: "sep \<notin> set p \<Longrightarrow> split_on sep p = [p]"
  by (induction p) auto

lemma split_on_append: "sep \<notin> set p \<Longrightarrow> split_on sep (p @ sep # s) = p # split_on sep s"
  by (induction p) (auto split: list.split)

lemma split_join: "ps \<noteq> [] \<Longrightarrow> \<forall>p \<in> set ps. sep \<notin> set p \<Longrightarrow> split_on sep (join_with [sep] ps) = ps"
  by (induction "[sep]" ps rule: join_with.induct) (simp_all add: split_on_part split_on_append)

lemma set_join: "set (join_with [sep] ps) \<subseteq> insert sep (\<Union> (set ` set ps))"
  by (induction "[sep]" ps rule: join_with.induct) auto

section \<open>Portable relative paths\<close>

type_synonym path = "string list"

definition quoted :: "string \<Rightarrow> string" where
  "quoted s = CHR 0x27 # s @ [CHR 0x27]"

fun push_parts :: "path \<Rightarrow> string list \<Rightarrow> string + path" where
  "push_parts out [] = Inr out"
| "push_parts out (part # parts) =
     (if part = [] then Inl ''empty path component''
      else if part = ''.'' then Inl (''contains '' @ quoted ''.'')
      else if part = ''..'' then Inl (''contains '' @ quoted ''..'')
      else push_parts (out @ [part]) parts)"

definition portable_relative_path_parts :: "string \<Rightarrow> string + path" where
  "portable_relative_path_parts relative_path =
     (if trim relative_path = [] then Inl ''empty''
      else if CHR 0x5C \<in> set relative_path then Inl (''must use '' @ quoted ''/'' @ '' separators'')
      else if CHR '':'' \<in> set relative_path then Inl (''must not contain '' @ quoted '':'')
      else if list_ex is_ascii_control relative_path then Inl ''must not contain control characters''
      else if take 1 relative_path = ''/'' then Inl ''must be relative''
      else (case push_parts [] (split_on CHR ''/'' relative_path) of
              Inl e \<Rightarrow> Inl e
            | Inr out \<Rightarrow> if out = [] then Inl ''empty'' else Inr out))"

datatype component = RootDir | CurDir | ParentDir | Normal string

text \<open>
  \<open>Path::components\<close>: repeated separators and inner \<open>.\<close> components vanish, a leading
  separator is the root, and a leading \<open>.\<close> is kept.
\<close>

definition component_of :: "string \<Rightarrow> component" where
  "component_of part = (if part = ''..'' then ParentDir else Normal part)"

definition components :: "string \<Rightarrow> component list" where
  "components path =
     (if take 1 path = ''/'' then [RootDir]
      else if hd (split_on CHR ''/'' path) = ''.'' then [CurDir] else [])
     @ map component_of (filter (\<lambda>p. p \<noteq> [] \<and> p \<noteq> ''.'') (split_on CHR ''/'' path))"

fun normal_parts :: "component list \<Rightarrow> string + string list" where
  "normal_parts [] = Inr []"
| "normal_parts (Normal part # cs) =
     (case normal_parts cs of Inl e \<Rightarrow> Inl e | Inr parts \<Rightarrow> Inr (part # parts))"
| "normal_parts (_ # cs) = Inl ''must contain only normal relative components''"

definition path_normal_components :: "string \<Rightarrow> string + path" where
  "path_normal_components path =
     (case normal_parts (components path) of
        Inl e \<Rightarrow> Inl e
      | Inr parts \<Rightarrow> portable_relative_path_parts (join_with ''/'' parts))"

definition relative_normal_components :: "string \<Rightarrow> string + path" where
  "relative_normal_components relative =
     (if CHR 0x5C \<in> set relative \<or> CHR '':'' \<in> set relative then Inl ''must use portable relative components''
      else path_normal_components relative)"

definition is_safe_media_path :: "string \<Rightarrow> bool" where
  "is_safe_media_path path \<longleftrightarrow> \<not> isl (portable_relative_path_parts path)
     \<and> list_all (\<lambda>b. is_ascii_alphanumeric b \<or> b \<in> {CHR ''/'', CHR ''_'', CHR ''-'', CHR ''.''}) path"

section \<open>Confinement\<close>

datatype io_error = NotFound_io | InvalidInput string | PermissionDenied string | OtherIo string

record file_system =
  canonicalize :: "path \<Rightarrow> io_error + path"
  entry_exists :: "path \<Rightarrow> bool"
  is_file :: "path \<Rightarrow> bool"

datatype confinement = Lexical | SymlinkSafe

definition file_name :: "path \<Rightarrow> string option" where
  "file_name p = (if p = [] \<or> last p = ''..'' then None else Some (last p))"

text \<open>The loop walks up to the longest ancestor that exists; the components it left are pushed back.\<close>

function canonicalize_from :: "file_system \<Rightarrow> path \<Rightarrow> string list \<Rightarrow> io_error + path" where
  "canonicalize_from fs ancestor missing =
     (case canonicalize fs ancestor of
        Inr canonical \<Rightarrow> Inr (canonical @ missing)
      | Inl NotFound_io \<Rightarrow>
          (if entry_exists fs ancestor then Inl NotFound_io
           else (case file_name ancestor of
                   None \<Rightarrow> Inl NotFound_io
                 | Some name \<Rightarrow> canonicalize_from fs (butlast ancestor) (name # missing)))
      | Inl e \<Rightarrow> Inl e)"
  by pat_completeness auto
termination
  by (relation "measure (\<lambda>(fs, ancestor, missing). length ancestor)")
    (auto simp: file_name_def split: if_splits)

declare canonicalize_from.simps [simp del]

definition canonicalize_existing_ancestor :: "file_system \<Rightarrow> path \<Rightarrow> io_error + path" where
  "canonicalize_existing_ancestor fs path = canonicalize_from fs path []"

definition confine_under :: "file_system \<Rightarrow> path \<Rightarrow> string \<Rightarrow> confinement \<Rightarrow> io_error + path" where
  "confine_under fs root relative policy =
     (case path_normal_components relative of
        Inl reason \<Rightarrow> Inl (InvalidInput reason)
      | Inr parts \<Rightarrow>
          (case policy of
             Lexical \<Rightarrow> Inr (root @ parts)
           | SymlinkSafe \<Rightarrow>
               (case canonicalize fs root of
                  Inl e \<Rightarrow> Inl e
                | Inr canonical_root \<Rightarrow>
                    (case canonicalize_existing_ancestor fs (root @ parts) of
                       Inl e \<Rightarrow> Inl e
                     | Inr resolved \<Rightarrow>
                         if take (length canonical_root) resolved \<noteq> canonical_root
                         then Inl (PermissionDenied ''path escapes its root'')
                         else Inr resolved))))"

definition resolve_local_file :: "file_system \<Rightarrow> path \<Rightarrow> string \<Rightarrow> io_error + path" where
  "resolve_local_file fs root relative =
     (case confine_under fs root relative SymlinkSafe of
        Inl e \<Rightarrow> Inl e
      | Inr path \<Rightarrow> if \<not> is_file fs path then Inl NotFound_io else Inr path)"

section \<open>What the syntax accepts\<close>

definition normal_component :: "string \<Rightarrow> bool" where
  "normal_component p \<longleftrightarrow> p \<noteq> [] \<and> p \<noteq> ''.'' \<and> p \<noteq> ''..'' \<and> CHR ''/'' \<notin> set p
     \<and> CHR 0x5C \<notin> set p \<and> CHR '':'' \<notin> set p \<and> \<not> list_ex is_ascii_control p"

lemma push_parts_Inr:
  "push_parts out parts = Inr r \<longleftrightarrow> r = out @ parts \<and> (\<forall>p \<in> set parts. p \<noteq> [] \<and> p \<noteq> ''.'' \<and> p \<noteq> ''..'')"
  by (induction out parts rule: push_parts.induct) auto

lemma set_split_on: "p \<in> set (split_on sep s) \<Longrightarrow> c \<in> set p \<Longrightarrow> c \<in> set s"
  by (induction s arbitrary: p) (fastforce split: list.splits if_splits)+

lemma normal_component_chars:
  "normal_component p \<Longrightarrow> c \<in> set p \<Longrightarrow>
   c \<noteq> CHR ''/'' \<and> c \<noteq> CHR 0x5C \<and> c \<noteq> CHR '':'' \<and> \<not> is_ascii_control c"
  by (auto simp: normal_component_def list_ex_iff)

lemma portable_accepts_normal:
  assumes "portable_relative_path_parts s = Inr parts"
  shows "parts \<noteq> [] \<and> list_all normal_component parts \<and> s = join_with ''/'' parts"
proof -
  from assms have s: "CHR 0x5C \<notin> set s" "CHR '':'' \<notin> set s" "\<not> list_ex is_ascii_control s"
    and push: "push_parts [] (split_on CHR ''/'' s) = Inr parts"
    by (auto simp: portable_relative_path_parts_def split: if_splits sum.splits)
  from push have parts: "parts = split_on CHR ''/'' s" "\<forall>p \<in> set parts. p \<noteq> [] \<and> p \<noteq> ''.'' \<and> p \<noteq> ''..''"
    by (simp_all add: push_parts_Inr)
  have "normal_component p" if "p \<in> set parts" for p
    using that parts s set_split_on [of p "CHR ''/''" s] split_on_no_sep [of p "CHR ''/''" s]
    unfolding normal_component_def list_ex_iff by metis
  then show ?thesis by (simp add: parts(1) join_split list_all_iff)
qed

lemma portable_of_normal:
  assumes "parts \<noteq> []" and "list_all normal_component parts" and "trim (join_with ''/'' parts) \<noteq> []"
  shows "portable_relative_path_parts (join_with ''/'' parts) = Inr parts"
proof -
  let ?s = "join_with ''/'' parts"
  have normal: "normal_component p" if "p \<in> set parts" for p using assms(2) that by (simp add: list_all_iff)
  have split: "split_on CHR ''/'' ?s = parts"
    using assms(1) normal by (intro split_join) (auto simp: normal_component_def)
  have chars: "c \<noteq> CHR 0x5C \<and> c \<noteq> CHR '':'' \<and> \<not> is_ascii_control c" if in_s: "c \<in> set ?s" for c
  proof (cases "c = CHR ''/''")
    case True
    then show ?thesis by (simp add: is_ascii_control_def char_code_def)
  next
    case False
    then obtain p where "p \<in> set parts" "c \<in> set p" using set_join [of "CHR ''/''" parts] in_s by auto
    then show ?thesis using normal_component_chars [OF normal] by blast
  qed
  then have "CHR 0x5C \<notin> set ?s" "CHR '':'' \<notin> set ?s" "\<not> list_ex is_ascii_control ?s"
    by (auto simp: list_ex_iff)
  moreover have "take 1 ?s \<noteq> ''/''"
  proof -
    obtain p ps where parts: "parts = p # ps" using assms(1) by (cases parts) simp_all
    then obtain c cs where p: "p = c # cs" "c \<noteq> CHR ''/''"
      using normal [of p] unfolding normal_component_def by (cases p) auto
    then show ?thesis by (cases ps) (simp_all add: parts)
  qed
  moreover have "push_parts [] parts = Inr parts"
    using normal by (auto simp: push_parts_Inr normal_component_def)
  ultimately show ?thesis
    using assms(1,3) by (simp add: portable_relative_path_parts_def split)
qed

lemma path_normal_components_Inr:
  "path_normal_components s = Inr parts \<Longrightarrow> parts \<noteq> [] \<and> list_all normal_component parts"
  using portable_accepts_normal by (auto simp: path_normal_components_def split: sum.splits)

section \<open>What confinement gives\<close>

text \<open>
  A successful walk stops at the longest ancestor that resolves: nothing exists at the
  components below it, which are appended to what the ancestor resolves to.
\<close>

lemma canonicalize_from_Inr:
  assumes "canonicalize_from fs ancestor missing = Inr p"
  shows "\<exists>existing below canonical. ancestor = existing @ below \<and> canonicalize fs existing = Inr canonical
    \<and> p = canonical @ below @ missing
    \<and> (\<forall>n < length below. canonicalize fs (existing @ take (Suc n) below) = Inl NotFound_io
         \<and> \<not> entry_exists fs (existing @ take (Suc n) below))"
  using assms
proof (induction fs ancestor missing rule: canonicalize_from.induct)
  case (1 fs ancestor missing)
  show ?case
  proof (cases "canonicalize fs ancestor")
    case (Inr canonical)
    then have "p = canonical @ missing" using "1.prems" by (subst (asm) canonicalize_from.simps) simp
    then show ?thesis using Inr by (intro exI [of _ ancestor] exI [of _ "[]"] exI [of _ canonical]) simp
  next
    case (Inl e)
    with "1.prems" obtain name where e: "e = NotFound_io" "\<not> entry_exists fs ancestor" "file_name ancestor = Some name"
      and up: "canonicalize_from fs (butlast ancestor) (name # missing) = Inr p"
      by (subst (asm) canonicalize_from.simps) (auto split: io_error.splits if_splits option.splits)
    from "1.IH" [OF Inl e up] obtain existing below canonical where
      ih: "butlast ancestor = existing @ below" "canonicalize fs existing = Inr canonical"
        "p = canonical @ below @ name # missing"
        "\<forall>n < length below. canonicalize fs (existing @ take (Suc n) below) = Inl NotFound_io
           \<and> \<not> entry_exists fs (existing @ take (Suc n) below)" by blast
    have whole: "ancestor = existing @ below @ [name]"
      using e(3) ih(1) by (metis append.assoc append_butlast_last_id file_name_def option.distinct(1) option.inject)
    have "canonicalize fs (existing @ take (Suc n) (below @ [name])) = Inl NotFound_io
        \<and> \<not> entry_exists fs (existing @ take (Suc n) (below @ [name]))" if "n < length (below @ [name])" for n
    proof (cases "n < length below")
      case True
      then show ?thesis using ih(4) by simp
    next
      case False
      then have "take (Suc n) (below @ [name]) = below @ [name]" using that by simp
      then show ?thesis using e(1,2) Inl whole by simp
    qed
    then show ?thesis using whole ih(2,3)
      by (intro exI [of _ existing] exI [of _ "below @ [name]"] exI [of _ canonical]) simp
  qed
qed

text \<open>Since the root resolves, the walk from a path below it ends at the root at the latest.\<close>

lemma canonicalize_below_root:
  assumes "canonicalize fs root = Inr canonical_root"
    and "canonicalize_existing_ancestor fs (root @ parts) = Inr p"
  shows "\<exists>found below canonical. parts = found @ below \<and> canonicalize fs (root @ found) = Inr canonical
    \<and> p = canonical @ below \<and> (\<forall>n < length below. \<not> entry_exists fs (root @ found @ take (Suc n) below))"
proof -
  from canonicalize_from_Inr [OF assms(2) [unfolded canonicalize_existing_ancestor_def]]
  obtain existing below canonical where walk: "root @ parts = existing @ below" "canonicalize fs existing = Inr canonical"
    "p = canonical @ below"
    "\<forall>n < length below. canonicalize fs (existing @ take (Suc n) below) = Inl NotFound_io
       \<and> \<not> entry_exists fs (existing @ take (Suc n) below)" by auto
  have "\<exists>found. existing = root @ found \<and> parts = found @ below"
  proof (rule ccontr)
    assume "\<not> ?thesis"
    with walk(1) obtain us where us: "root = existing @ us" "us @ parts = below" "us \<noteq> []"
      by (auto simp: append_eq_append_conv2)
    then have "length us - 1 < length below" "take (Suc (length us - 1)) below = us"
      by (cases us; auto)+
    with walk(4) have "canonicalize fs (existing @ us) = Inl NotFound_io" by fastforce
    then show False using us(1) assms(1) by simp
  qed
  then obtain found where "existing = root @ found" "parts = found @ below" by blast
  with walk show ?thesis
    by (intro exI [of _ found] exI [of _ below] exI [of _ canonical]) simp
qed

section \<open>Theorems\<close>

text \<open>
  The strict syntax accepts exactly the paths it means to: the accepted texts are the
  joins of nonempty component lists in which no component is empty, a dot or a double dot,
  or holds a separator, a backslash, a colon or a control character, and the result is that
  list; only an all-blank text of this shape is refused.
\<close>

theorem portable_path_exact:
  "portable_relative_path_parts s = Inr parts \<longleftrightarrow>
     parts \<noteq> [] \<and> list_all normal_component parts \<and> s = join_with ''/'' parts \<and> trim s \<noteq> []"
proof
  assume ok: "portable_relative_path_parts s = Inr parts"
  then have "trim s \<noteq> []" by (auto simp: portable_relative_path_parts_def)
  with portable_accepts_normal [OF ok] show
    "parts \<noteq> [] \<and> list_all normal_component parts \<and> s = join_with ''/'' parts \<and> trim s \<noteq> []" by blast
next
  assume "parts \<noteq> [] \<and> list_all normal_component parts \<and> s = join_with ''/'' parts \<and> trim s \<noteq> []"
  then show "portable_relative_path_parts s = Inr parts" using portable_of_normal by blast
qed

text \<open>
  C36. A confined path is below its root. Lexically it is the root followed by normal
  components. With links resolved it starts with what the root resolves to, and it consists
  of what an existing path below the root resolves to and of normal components at which no
  entry exists, not even a dangling link, so nothing can redirect it.
\<close>

theorem confined_path_below_root:
  assumes "confine_under fs root relative policy = Inr p"
  shows "\<exists>parts. parts \<noteq> [] \<and> list_all normal_component parts
    \<and> (case policy of
         Lexical \<Rightarrow> p = root @ parts
       | SymlinkSafe \<Rightarrow>
           (\<exists>canonical_root found below canonical. canonicalize fs root = Inr canonical_root
             \<and> take (length canonical_root) p = canonical_root
             \<and> parts = found @ below \<and> canonicalize fs (root @ found) = Inr canonical \<and> p = canonical @ below
             \<and> (\<forall>n < length below. \<not> entry_exists fs (root @ found @ take (Suc n) below))))"
proof -
  from assms obtain parts where parts: "path_normal_components relative = Inr parts"
    by (auto simp: confine_under_def split: sum.splits)
  note normal = path_normal_components_Inr [OF parts]
  show ?thesis
  proof (cases policy)
    case Lexical
    then show ?thesis using assms normal by (auto simp: confine_under_def parts)
  next
    case SymlinkSafe
    with assms obtain canonical_root where
      root: "canonicalize fs root = Inr canonical_root" "take (length canonical_root) p = canonical_root"
      and walk: "canonicalize_existing_ancestor fs (root @ parts) = Inr p"
      by (auto simp: confine_under_def parts split: sum.splits if_splits)
    from canonicalize_below_root [OF root(1) walk] SymlinkSafe root normal show ?thesis by auto
  qed
qed

text \<open>A small file system: one directory with a link that leaves it.\<close>

definition sample_fs :: file_system where
  "sample_fs = \<lparr>
     canonicalize = (\<lambda>p. if p = [''data''] then Inr [''data'']
       else if p = [''data'', ''out''] then Inr [''etc''] else Inl NotFound_io),
     entry_exists = (\<lambda>p. p = [''data''] \<or> p = [''data'', ''out'']),
     is_file = (\<lambda>p. False) \<rparr>"

theorem confined_path_below_root_witness:
  "confine_under sample_fs [''data''] ''images/a.png'' SymlinkSafe = Inr [''data'', ''images'', ''a.png'']
   \<and> confine_under sample_fs [''data''] ''out/a.png'' SymlinkSafe = Inl (PermissionDenied ''path escapes its root'')
   \<and> (\<exists>parts. parts \<noteq> [] \<and> list_all normal_component parts)"
proof -
  have "confine_under sample_fs [''data''] ''images/a.png'' SymlinkSafe = Inr [''data'', ''images'', ''a.png'']"
    and "confine_under sample_fs [''data''] ''out/a.png'' SymlinkSafe = Inl (PermissionDenied ''path escapes its root'')"
    by code_simp+
  moreover from this(1) have "\<exists>parts. parts \<noteq> [] \<and> list_all normal_component parts"
    using confined_path_below_root by blast
  ultimately show ?thesis by blast
qed

end
