(* ===== verification/AbcParse.thy ===== *)
theory AbcParse
  imports AbcTokens SafePath
begin

text \<open>
  The parser of the two-voice score dialect (\<open>yue2_score/abc.rs\<close>): one measure, one music line, one
  group of two voice blocks, the whole score. The state of a voice is passed along; every check that
  fails ends the parse with its error. Line numbers and the cursor are natural numbers.
\<close>

section \<open>Model\<close>

record sounding_note =
  n_onset :: frac
  n_pitch :: int
  n_duration :: frac

record bar =
  b_start :: frac
  b_length :: frac
  b_meter :: meter

record chord_event =
  c_onset :: frac
  c_chord :: string

record key_event =
  k_onset :: frac
  k_key :: string

record voice_track =
  vt_notes :: "sounding_note list"
  vt_bars :: "bar list"
  vt_chords :: "chord_event list"
  vt_keys :: "key_event list"

definition track_duration :: "voice_track \<Rightarrow> frac" where
  "track_duration t =
     (if vt_bars t = [] then frac_zero else frac_add (b_start (last (vt_bars t))) (b_length (last (vt_bars t))))"

record voice_state =
  v_meter :: meter
  v_key :: string
  v_time :: frac
  v_pending :: "(int \<times> int) option"
  v_track :: voice_track

subsection \<open>One measure\<close>

text \<open>The locals of \<open>parse_bar\<close> that its loop changes.\<close>

record bar_state =
  s_offset :: frac
  s_local :: "int option list"
  s_voice :: voice_state

definition count_char :: "char \<Rightarrow> string \<Rightarrow> int" where
  "count_char c s = int (length (filter (\<lambda>x. x = c) s))"

definition to_ascii_uppercase :: "char \<Rightarrow> char" where
  "to_ascii_uppercase c = (if is_ascii_lower c then char_of (char_code c - 32) else c)"

definition written_pitch :: "char \<Rightarrow> string \<Rightarrow> int" where
  "written_pitch c octave =
     60 + natural_semitone (to_ascii_uppercase c) + (if is_ascii_lower c then 12 else 0)
       + 12 * (count_char (CHR 0x27) octave - count_char (CHR '','') octave)"

text \<open>The alteration a letter has without a mark: from the measure so far, or from the key.\<close>

definition inherited_alteration :: "bar_state \<Rightarrow> nat \<Rightarrow> abc_error + int" where
  "inherited_alteration s index =
     (case s_local s ! index of
        Some a \<Rightarrow> Inr a
      | None \<Rightarrow>
          (case key_accidentals (v_key (s_voice s)) of Inl e \<Rightarrow> Inl e | Inr accidentals \<Rightarrow> Inr (accidentals ! index)))"

text \<open>A sounding note: its pitch after the accidentals, merged into the open tie or appended.\<close>

definition sound_note ::
  "string \<Rightarrow> frac \<Rightarrow> note_token \<Rightarrow> frac \<Rightarrow> bar_state \<Rightarrow> abc_error + bar_state" where
  "sound_note context onset n len s =
     (let v = s_voice s; index = letter_index (to_ascii_uppercase (t_note n));
          written = written_pitch (t_note n) (t_octave n) in
      case inherited_alteration s index of
        Inl e \<Rightarrow> Inl e
      | Inr inherited \<Rightarrow>
          let alter = (case t_accidental n of Some mark \<Rightarrow> alteration mark | None \<Rightarrow> inherited);
              loc = (case t_accidental n of Some mark \<Rightarrow> (s_local s)[index := Some (alteration mark)] | None \<Rightarrow> s_local s);
              pitch = written + alter;
              track = v_track v in
          (case v_pending v of
             Some (old_pitch, old_written) \<Rightarrow>
               let pitch = (if t_accidental n = None \<and> written = old_written then old_pitch else pitch) in
               if pitch \<noteq> old_pitch then Inl (TieChangesPitch context old_pitch pitch)
               else
                 let old = last (vt_notes track);
                     merged = butlast (vt_notes track) @ [old\<lparr> n_duration := frac_add (n_duration old) len \<rparr>] in
                 Inr (s\<lparr> s_local := loc,
                         s_voice := v\<lparr> v_track := track\<lparr> vt_notes := merged \<rparr>,
                                       v_pending := (if t_tie n then Some (pitch, written) else None) \<rparr> \<rparr>)
           | None \<Rightarrow>
               if \<not> (0 \<le> pitch \<and> pitch \<le> 127) then Inl (PitchOutsideMidi context pitch)
               else
                 Inr (s\<lparr> s_local := loc,
                         s_voice := v\<lparr> v_track := track\<lparr> vt_notes := vt_notes track @
                                         [\<lparr> n_onset = onset, n_pitch = pitch, n_duration = len \<rparr>] \<rparr>,
                                       v_pending := (if t_tie n then Some (pitch, written) else None) \<rparr> \<rparr>)))"

definition bar_note ::
  "string \<Rightarrow> frac \<Rightarrow> frac \<Rightarrow> frac \<Rightarrow> note_token \<Rightarrow> bar_state \<Rightarrow> abc_error + bar_state" where
  "bar_note context unit len start n s =
     (case token_units (t_duration n) of
        None \<Rightarrow> Inl (UnsupportedDuration context (if t_duration n = [] then ''1'' else t_duration n))
      | Some units \<Rightarrow>
          let length_of = frac_mul (frac_mul (frac_int (int units)) unit) (frac_int 4) in
          if frac_less len (frac_add (s_offset s) length_of) then Inl (ExceedsMeter context)
          else if CHR '','' \<in> set (t_octave n) \<and> CHR 0x27 \<in> set (t_octave n) then Inl (MixedOctaves context)
          else
            (case (if t_note n = CHR ''z'' then
                     if t_accidental n \<noteq> None \<or> t_octave n \<noteq> [] \<or> t_tie n then Inl (MarkedRest context)
                     else if v_pending (s_voice s) \<noteq> None then Inl (TieEntersRest context)
                     else Inr s
                   else sound_note context (frac_add start (s_offset s)) n length_of s) of
               Inl e \<Rightarrow> Inl e
             | Inr s \<Rightarrow> Inr (s\<lparr> s_offset := frac_add (s_offset s) length_of \<rparr>)))"

definition bar_token ::
  "string \<Rightarrow> frac \<Rightarrow> frac \<Rightarrow> frac \<Rightarrow> token \<Rightarrow> bar_state \<Rightarrow> abc_error + bar_state" where
  "bar_token context unit len start t s =
     (case t of
        TChord symbol \<Rightarrow>
          if \<not> is_native_chord symbol then Inl (UnsupportedChord context symbol)
          else let v = s_voice s; track = v_track v in
            Inr (s\<lparr> s_voice := v\<lparr> v_track := track\<lparr> vt_chords := vt_chords track @
                      [\<lparr> c_onset = frac_add start (s_offset s), c_chord = symbol \<rparr>] \<rparr> \<rparr> \<rparr>)
      | TKey key \<Rightarrow>
          (case key_accidentals key of
             Inl e \<Rightarrow> Inl e
           | Inr _ \<Rightarrow>
               let v = s_voice s; track = v_track v in
               Inr (s\<lparr> s_local := replicate 7 None,
                       s_voice := v\<lparr> v_key := key, v_track := track\<lparr> vt_keys := vt_keys track @
                         [\<lparr> k_onset = frac_add start (s_offset s), k_key = key \<rparr>] \<rparr> \<rparr> \<rparr>))
      | TNote n \<Rightarrow> bar_note context unit len start n s)"

text \<open>The loop over the body of a measure.\<close>

function bar_loop ::
  "string \<Rightarrow> frac \<Rightarrow> frac \<Rightarrow> frac \<Rightarrow> string \<Rightarrow> bar_state \<Rightarrow> abc_error + bar_state" where
  "bar_loop context unit len start [] s = Inr s"
| "bar_loop context unit len start (c # cs) s =
     (if is_whitespace c then bar_loop context unit len start cs s
      else case lex_token (c # cs) of
        None \<Rightarrow> Inl (UnsupportedToken context (preview (c # cs)))
      | Some (t, rest) \<Rightarrow>
          if frac_le len (s_offset s) then Inl (EventAfterMeasure context)
          else case bar_token context unit len start t s of
            Inl e \<Rightarrow> Inl e
          | Inr s \<Rightarrow> bar_loop context unit len start rest s)"
  by pat_completeness auto
termination
  by (relation "measure (\<lambda>(_, _, _, _, body, _). length body)") (auto dest: lex_token_shorter)

definition parse_bar :: "string \<Rightarrow> voice_state \<Rightarrow> frac \<Rightarrow> string \<Rightarrow> abc_error + voice_state" where
  "parse_bar body v unit context =
     (let len = meter_length (v_meter v); start = v_time v in
      case (if body = ''Z'' then
              if v_pending v \<noteq> None then Inl (TieEntersFullRest context)
              else Inr \<lparr> s_offset = len, s_local = replicate 7 None, s_voice = v \<rparr>
            else bar_loop context unit len start body
                   \<lparr> s_offset = frac_zero, s_local = replicate 7 None, s_voice = v \<rparr>) of
        Inl e \<Rightarrow> Inl e
      | Inr s \<Rightarrow>
          if s_offset s \<noteq> len then Inl (DurationMismatch context (s_offset s) len)
          else let v = s_voice s; track = v_track v in
            Inr (v\<lparr> v_track := track\<lparr> vt_bars := vt_bars track @
                     [\<lparr> b_start = start, b_length = len, b_meter = v_meter v \<rparr>] \<rparr>,
                    v_time := frac_add (v_time v) len \<rparr>))"

subsection \<open>One music line\<close>

definition expand_bar :: "string \<Rightarrow> nat \<Rightarrow> (string \<times> nat) list" where
  "expand_bar b segment =
     (case strip_prefix ''Z'' b of
        Some n \<Rightarrow>
          if n = [] then [(''Z'', segment)]
          else if n = ''2'' then replicate 2 (''Z'', segment)
          else if n = ''3'' then replicate 3 (''Z'', segment)
          else if n = ''4'' then replicate 4 (''Z'', segment)
          else [(b, segment)]
      | None \<Rightarrow> [(b, segment)])"

fun split_bars :: "string \<Rightarrow> nat \<Rightarrow> string list \<Rightarrow> abc_error + (string \<times> nat) list" where
  "split_bars context segment [] = Inr []"
| "split_bars context segment (b # bs) =
     (if trim b = [] then Inl (EmptyMeasure context)
      else case split_bars context (segment + 1) bs of
        Inl e \<Rightarrow> Inl e
      | Inr rest \<Rightarrow> Inr (expand_bar (trim b) segment @ rest))"

definition split_music_line :: "string \<Rightarrow> string \<Rightarrow> abc_error + (string \<times> nat) list" where
  "split_music_line line context =
     (if line = [] \<or> last line \<noteq> CHR ''|'' then Inl (NoPlainBarline context)
      else split_bars context 0 (split_on (CHR ''|'') (butlast line)))"

subsection \<open>The score\<close>

record group_voice_block =
  gb_fields :: "(char \<times> string) list"
  gb_line_index :: nat
  gb_line :: string

record group =
  g_comments :: "string list"
  g_blocks :: "group_voice_block list"
  g_first_bar :: nat
  g_bar_count :: nat

record sect =
  sec_label :: "string option"
  sec_groups :: "nat \<times> nat"
  sec_first_bar :: nat
  sec_bar_count :: nat
  sec_start :: frac
  sec_length :: frac
  sec_inherited_meter :: meter
  sec_inherited_key :: string
  sec_open_tie :: bool

record score =
  sc_text :: string
  sc_unit :: frac
  sc_bpm :: nat
  sc_header_meter :: meter
  sc_header_key :: string
  sc_voices :: "voice_track \<times> voice_track"
  sc_groups :: "group list"
  sc_sections :: "sect list"

definition score_duration :: "score \<Rightarrow> frac" where
  "score_duration s = track_duration (fst (sc_voices s))"

definition score_bar_count :: "score \<Rightarrow> nat" where
  "score_bar_count s = length (vt_bars (fst (sc_voices s)))"

text \<open>\<open>Iterator::position\<close> of the first element that satisfies a predicate.\<close>

fun position_where :: "('a \<Rightarrow> bool) \<Rightarrow> 'a list \<Rightarrow> nat option" where
  "position_where P [] = None"
| "position_where P (x # xs) = (if P x then Some 0 else map_option Suc (position_where P xs))"

definition bar_number_at :: "score \<Rightarrow> frac \<Rightarrow> nat option" where
  "bar_number_at s onset =
     map_option (\<lambda>i. i + 1)
       (position_where (\<lambda>b. frac_le (b_start b) onset \<and> frac_less onset (frac_add (b_start b) (b_length b)))
          (vt_bars (fst (sc_voices s))))"

text \<open>The \<open>M:\<close> and \<open>K:\<close> lines at the head of a voice block.\<close>

fun parse_fields ::
  "string \<Rightarrow> string list \<Rightarrow> nat \<Rightarrow> (char \<times> string) list \<Rightarrow> voice_state
    \<Rightarrow> abc_error + (string list \<times> nat \<times> (char \<times> string) list \<times> voice_state)" where
  "parse_fields context [] cursor fs v = Inr ([], cursor, fs, v)"
| "parse_fields context (line # rest) cursor fs v =
     (if starts_with_text ''M:'' line \<or> starts_with_text ''K:'' line then
        let field = hd line; value = drop 2 line in
        if list_ex (\<lambda>(f, _). f = field) fs then Inl (DuplicateField context field)
        else if field = CHR ''M'' then
          (case meter_value value of
             Inl e \<Rightarrow> Inl e
           | Inr m \<Rightarrow> parse_fields context rest (cursor + 1) (fs @ [(field, value)]) (v\<lparr> v_meter := m \<rparr>))
        else
          (case key_accidentals value of
             Inl e \<Rightarrow> Inl e
           | Inr _ \<Rightarrow>
               parse_fields context rest (cursor + 1) (fs @ [(field, value)])
                 (v\<lparr> v_key := value, v_track := (v_track v)\<lparr> vt_keys := vt_keys (v_track v) @
                        [\<lparr> k_onset = v_time v, k_key = value \<rparr>] \<rparr> \<rparr>))
      else Inr (line # rest, cursor, fs, v))"

fun parse_bars :: "string \<Rightarrow> frac \<Rightarrow> (string \<times> nat) list \<Rightarrow> voice_state \<Rightarrow> abc_error + voice_state" where
  "parse_bars context unit [] v = Inr v"
| "parse_bars context unit ((b, _) # bs) v =
     (case parse_bar b v unit (context @ '', bar '' @ show_nat (length (vt_bars (v_track v)) + 1)) of
        Inl e \<Rightarrow> Inl e
      | Inr v \<Rightarrow> parse_bars context unit bs v)"

text \<open>One voice block: the rest of the lines, the block, its measure count and the voice after it.\<close>

definition parse_block ::
  "frac \<Rightarrow> string \<Rightarrow> string \<Rightarrow> string list \<Rightarrow> nat \<Rightarrow> voice_state
    \<Rightarrow> abc_error + (string list \<times> nat \<times> group_voice_block \<times> nat \<times> voice_state)" where
  "parse_block unit context name lines cursor v =
     (case lines of
        [] \<Rightarrow> Inl (VoiceExpected context name)
      | line # rest \<Rightarrow>
          if line \<noteq> ''V: '' @ name then Inl (VoiceExpected context name)
          else case parse_fields context rest (cursor + 1) [] v of
            Inl e \<Rightarrow> Inl e
          | Inr ([], _, _, _) \<Rightarrow> Inl (MissingMusicLine context)
          | Inr (line # rest, cursor, fs, v) \<Rightarrow>
              (case split_music_line line context of
                 Inl e \<Rightarrow> Inl e
               | Inr bs \<Rightarrow>
                   if \<not> (1 \<le> length bs \<and> length bs \<le> 4) then Inl (MeasureCountOutOfRange context)
                   else case parse_bars context unit bs v of
                     Inl e \<Rightarrow> Inl e
                   | Inr v \<Rightarrow>
                       Inr (rest, cursor + 1, \<lparr> gb_fields = fs, gb_line_index = cursor, gb_line = line \<rparr>, length bs, v)))"

record parse_state =
  p_vocal :: voice_state
  p_ins :: voice_state
  p_groups :: "group list"
  p_sections :: "sect list"
  p_group_number :: nat

definition section_label :: "string list \<Rightarrow> string option" where
  "section_label comments =
     (if comments = [] then None else Some (join_with '' / '' (map (\<lambda>line. trim (drop 2 line)) comments)))"

definition add_group :: "string list \<Rightarrow> group_voice_block list \<Rightarrow> nat \<Rightarrow> parse_state \<Rightarrow> voice_state \<Rightarrow> voice_state \<Rightarrow> parse_state" where
  "add_group comments blocks n st vocal ins =
     (let group_index = length (p_groups st); prior = p_vocal st;
          first_bar = length (vt_bars (v_track prior));
          fresh = \<lparr> sec_label = section_label comments, sec_groups = (group_index, group_index), sec_first_bar = first_bar,
                    sec_bar_count = 0, sec_start = v_time prior, sec_length = frac_zero,
                    sec_inherited_meter = v_meter prior, sec_inherited_key = v_key prior, sec_open_tie = False \<rparr>;
          sections = (if comments \<noteq> [] \<or> p_sections st = [] then p_sections st @ [fresh] else p_sections st);
          current = last sections;
          grown = current\<lparr> sec_groups := (fst (sec_groups current), group_index + 1),
                           sec_bar_count := sec_bar_count current + n,
                           sec_length := frac_sub (v_time vocal) (sec_start current),
                           sec_open_tie := (v_pending vocal \<noteq> None \<or> v_pending ins \<noteq> None) \<rparr> in
      st\<lparr> p_vocal := vocal, p_ins := ins, p_sections := butlast sections @ [grown],
          p_groups := p_groups st @ [\<lparr> g_comments = comments, g_blocks = blocks, g_first_bar = first_bar, g_bar_count = n \<rparr>],
          p_group_number := p_group_number st + 1 \<rparr>)"

definition parse_group :: "frac \<Rightarrow> string list \<Rightarrow> nat \<Rightarrow> parse_state \<Rightarrow> abc_error + (string list \<times> nat \<times> parse_state)" where
  "parse_group unit lines cursor st =
     (let comments = takeWhile (starts_with_text ''% '') lines; rest = drop (length comments) lines;
          cursor = cursor + length comments in
      if rest = [] then Inl DanglingComment
      else
        let number = p_group_number st + 1; context = (\<lambda>name. ''group '' @ show_nat number @ '', '' @ name) in
        (case parse_block unit (context ''Vocal'') ''Vocal'' rest cursor (p_vocal st) of
           Inl e \<Rightarrow> Inl e
         | Inr (rest, cursor, vocal_block, vocal_count, vocal) \<Rightarrow>
             (case parse_block unit (context ''Ins'') ''Ins'' rest cursor (p_ins st) of
                Inl e \<Rightarrow> Inl e
              | Inr (rest, cursor, ins_block, ins_count, ins) \<Rightarrow>
                  if vocal_count \<noteq> ins_count then Inl (MeasureCountsDiffer number)
                  else Inr (rest, cursor, add_group comments [vocal_block, ins_block] vocal_count st vocal ins))))"

lemma parse_fields_shorter: "parse_fields ctx lines cursor fs v = Inr (rest, p) \<Longrightarrow> length rest \<le> length lines"
  by (induction ctx lines cursor fs v arbitrary: rest p rule: parse_fields.induct)
     (fastforce simp: Let_def split: if_splits sum.splits)+

lemma parse_block_shorter: "parse_block unit context name lines cursor v = Inr (rest, p) \<Longrightarrow> length rest < length lines"
  by (auto simp: parse_block_def split: list.splits sum.splits if_splits dest: parse_fields_shorter)

lemma parse_group_shorter: "parse_group unit lines cursor st = Inr (rest, p) \<Longrightarrow> length rest < length lines"
  by (fastforce simp: parse_group_def Let_def split: if_splits sum.splits dest: parse_block_shorter)

function parse_groups :: "frac \<Rightarrow> string list \<Rightarrow> nat \<Rightarrow> parse_state \<Rightarrow> abc_error + parse_state" where
  "parse_groups unit lines cursor st =
     (if lines = [] then Inr st
      else case parse_group unit lines cursor st of
        Inl e \<Rightarrow> Inl e
      | Inr (rest, cursor, st) \<Rightarrow> parse_groups unit rest cursor st)"
  by pat_completeness auto
termination
  by (relation "measure (\<lambda>(_, lines, _, _). length lines)") (auto dest: parse_group_shorter)

declare parse_groups.simps [simp del]

text \<open>\<open>str::lines\<close>: the pieces between line feeds without a trailing carriage return; no last empty piece.\<close>

definition text_lines :: "string \<Rightarrow> string list" where
  "text_lines s =
     (let pieces = split_on (CHR 0x0A) s;
          strip = (\<lambda>l. if l \<noteq> [] \<and> last l = CHR 0x0D then butlast l else l) in
      map strip (butlast pieces) @ (if last pieces = [] then [] else [last pieces]))"

definition VOICE_DEFINITIONS :: "string list" where
  "VOICE_DEFINITIONS =
     [''V: Vocal clef=treble name='' @ [CHR 0x22] @ ''Vocal Melody'' @ [CHR 0x22] @ '' snm='' @ [CHR 0x22] @ ''Vocal'' @ [CHR 0x22],
      ''V: Ins clef=treble name='' @ [CHR 0x22] @ ''Ins Melody'' @ [CHR 0x22] @ '' snm='' @ [CHR 0x22] @ ''Inst.'' @ [CHR 0x22]]"

definition new_voice :: "meter \<Rightarrow> string \<Rightarrow> voice_state" where
  "new_voice m key =
     \<lparr> v_meter = m, v_key = key, v_time = frac_zero, v_pending = None,
       v_track = \<lparr> vt_notes = [], vt_bars = [], vt_chords = [], vt_keys = [\<lparr> k_onset = frac_zero, k_key = key \<rparr>] \<rparr> \<rparr>"

text \<open>The header: meter, unit, tempo and key, or the first check that fails.\<close>

definition parse_header :: "string list \<Rightarrow> abc_error + (meter \<times> frac \<times> nat \<times> string)" where
  "parse_header lines =
     (if length lines < 12 then Inl IncompleteScore
      else if lines ! 0 \<noteq> ''X:1'' \<or> lines ! 1 \<noteq> ''T:'' then Inl HeaderMismatch
      else case strip_prefix ''M:'' (lines ! 2) of
        None \<Rightarrow> Inl MissingHeaderMeter
      | Some meter_text \<Rightarrow>
          (case meter_value meter_text of
             Inl e \<Rightarrow> Inl e
           | Inr m \<Rightarrow>
               (case Option.bind (strip_prefix ''L:1/'' (lines ! 3)) positive_decimal of
                  None \<Rightarrow> Inl UnitExpected
                | Some denominator \<Rightarrow>
                    if \<not> is_power_of_two_upto_1024 denominator then Inl UnsupportedUnit
                    else case Option.bind (strip_prefix ''Q:1/4='' (lines ! 4)) positive_decimal of
                      None \<Rightarrow> Inl TempoExpected
                    | Some bpm \<Rightarrow>
                        if [lines ! 5, lines ! 6] \<noteq> VOICE_DEFINITIONS then Inl VoiceDefinitionsChanged
                        else case strip_prefix ''K:'' (lines ! 7) of
                          None \<Rightarrow> Inl MissingHeaderKey
                        | Some key \<Rightarrow>
                            (case key_accidentals key of
                               Inl e \<Rightarrow> Inl e
                             | Inr _ \<Rightarrow> Inr (m, frac_new 1 (int denominator), bpm, key)))))"

definition parse_score :: "string \<Rightarrow> abc_error + score" where
  "parse_score txt =
     (let lines = text_lines txt in
      case parse_header lines of
        Inl e \<Rightarrow> Inl e
      | Inr (m, unit, bpm, key) \<Rightarrow>
          (case parse_groups unit (drop 8 lines) 8
                  \<lparr> p_vocal = new_voice m key, p_ins = new_voice m key, p_groups = [], p_sections = [], p_group_number = 0 \<rparr> of
             Inl e \<Rightarrow> Inl e
           | Inr st \<Rightarrow>
               let vocal = v_track (p_vocal st); ins = v_track (p_ins st) in
               if v_pending (p_vocal st) \<noteq> None then Inl (UnresolvedTie ''Vocal'')
               else if v_pending (p_ins st) \<noteq> None then Inl (UnresolvedTie ''Ins'')
               else if vt_chords ins \<noteq> [] then Inl ChordsInInstrument
               else if vt_bars vocal \<noteq> vt_bars ins then Inl TimeGridsDiffer
               else if vt_keys vocal \<noteq> vt_keys ins then Inl KeyTimelinesDiffer
               else Inr \<lparr> sc_text = txt, sc_unit = unit, sc_bpm = bpm, sc_header_meter = m, sc_header_key = key,
                          sc_voices = (vocal, ins), sc_groups = p_groups st, sc_sections = p_sections st \<rparr>))"

end
