(* ===== verification/AbcLaws.thy ===== *)
theory AbcLaws
  imports AbcParse
begin

text \<open>
  What the score parser guarantees (\<open>yue2_score/abc.rs\<close>): the invariant of a voice between the
  tokens of a measure, its preservation by every operation, and the sections as a tiling of the
  groups, the measures and the time of the score. Times are compared as rational numbers.
\<close>

section \<open>The invariant of a voice\<close>

named_theorems voice_simps "parts of the voice invariant"

definition note_end :: "sounding_note \<Rightarrow> rat" where
  "note_end n = val (n_onset n) + val (n_duration n)"

definition note_ok :: "sounding_note \<Rightarrow> bool" where
  "note_ok n \<longleftrightarrow> frac_ok (n_onset n) \<and> frac_ok (n_duration n) \<and> 0 \<le> val (n_onset n) \<and> 0 < val (n_duration n) \<and>
     0 \<le> n_pitch n \<and> n_pitch n \<le> 127"

text \<open>Notes one after the other, none beyond a point in time.\<close>

definition notes_ok :: "sounding_note list \<Rightarrow> rat \<Rightarrow> bool" where
  "notes_ok ns now \<longleftrightarrow> (\<forall>n\<in>set ns. note_ok n \<and> note_end n \<le> now) \<and>
     sorted_wrt (\<lambda>a b. note_end a \<le> val (n_onset b)) ns"

definition meter_ok :: "meter \<Rightarrow> bool" where
  "meter_ok m \<longleftrightarrow> 0 < m_numerator m \<and> 0 < m_denominator m"

text \<open>Measures that follow one another from one point in time to another, each as long as its meter.\<close>

fun grid :: "rat \<Rightarrow> bar list \<Rightarrow> rat \<Rightarrow> bool" where
  "grid a [] b \<longleftrightarrow> a = b"
| "grid a (x # xs) b \<longleftrightarrow>
     frac_ok (b_start x) \<and> val (b_start x) = a \<and> b_length x = meter_length (b_meter x) \<and> meter_ok (b_meter x) \<and>
     grid (a + val (b_length x)) xs b"

definition chords_ok :: "chord_event list \<Rightarrow> rat \<Rightarrow> bool" where
  "chords_ok cs now \<longleftrightarrow>
     (\<forall>c\<in>set cs. frac_ok (c_onset c) \<and> 0 \<le> val (c_onset c) \<and> val (c_onset c) \<le> now \<and> is_native_chord (c_chord c)) \<and>
     sorted (map (\<lambda>c. val (c_onset c)) cs)"

definition key_ok :: "string \<Rightarrow> bool" where
  "key_ok key \<longleftrightarrow> (\<exists>r. key_accidentals key = Inr r)"

definition keys_ok :: "key_event list \<Rightarrow> rat \<Rightarrow> bool" where
  "keys_ok ks now \<longleftrightarrow>
     (\<forall>k\<in>set ks. frac_ok (k_onset k) \<and> 0 \<le> val (k_onset k) \<and> val (k_onset k) \<le> now \<and> key_ok (k_key k)) \<and>
     sorted (map (\<lambda>k. val (k_onset k)) ks)"

text \<open>An open tie continues the last note, which sounds up to now.\<close>

definition pending_ok :: "(int \<times> int) option \<Rightarrow> sounding_note list \<Rightarrow> rat \<Rightarrow> bool" where
  "pending_ok p ns now \<longleftrightarrow>
     (case p of None \<Rightarrow> True | Some (pitch, _) \<Rightarrow> ns \<noteq> [] \<and> n_pitch (last ns) = pitch \<and> note_end (last ns) = now)"

definition voice_ok :: "voice_state \<Rightarrow> rat \<Rightarrow> bool" where
  "voice_ok v off \<longleftrightarrow>
     frac_ok (v_time v) \<and> 0 \<le> val (v_time v) \<and> meter_ok (v_meter v) \<and> key_ok (v_key v) \<and>
     grid 0 (vt_bars (v_track v)) (val (v_time v)) \<and> notes_ok (vt_notes (v_track v)) (val (v_time v) + off) \<and>
     chords_ok (vt_chords (v_track v)) (val (v_time v) + off) \<and> keys_ok (vt_keys (v_track v)) (val (v_time v) + off) \<and>
     pending_ok (v_pending v) (vt_notes (v_track v)) (val (v_time v) + off)"

lemma grid_append: "grid a (xs @ ys) c \<longleftrightarrow> (\<exists>b. grid a xs b \<and> grid b ys c)"
  by (induction xs arbitrary: a) auto

lemma meter_length_ok: "meter_ok m \<Longrightarrow> frac_ok (meter_length m) \<and> 0 < val (meter_length m)"
  using frac_new_ok [of "int (m_denominator m)" "4 * int (m_numerator m)"] by (simp add: meter_length_def meter_ok_def)

lemma digits_fold_grows: "m \<le> foldl (\<lambda>n c. 10 * n + digit_value c) m cs"
proof (induction cs arbitrary: m)
  case (Cons d ds)
  show ?case using Cons.IH [of "10 * m + digit_value d"] by simp
qed simp

lemma positive_decimal_pos:
  assumes "positive_decimal t = Some n"
  shows "0 < n"
proof -
  from assms obtain c cs where t: "t = c # cs" "c \<noteq> CHR ''0''" "is_ascii_digit c" "n = digits_value t"
    by (cases t) (auto simp: positive_decimal_def parse_u32_def split: if_splits)
  have "0 < digit_value c" using t(2,3) char_code_inject [of c "CHR ''0''"]
    by (auto simp: is_ascii_digit_def digit_value_def char_code_def)
  then show ?thesis using t(1,4) digits_fold_grows [of "digit_value c" cs] by (simp add: digits_value_def)
qed

lemma meter_value_ok: "meter_value s = Inr m \<Longrightarrow> meter_ok m"
  by (auto simp: meter_value_def meter_ok_def bind_eq_Some_conv split: option.splits if_splits)
     (metis positive_decimal_pos)+

lemma token_units_pos: "token_units d = Some n \<Longrightarrow> 0 < n"
  by (auto simp: token_units_def DURATIONS_def bind_eq_Some_conv split: if_splits)

section \<open>One measure\<close>

lemma notes_ok_later: "notes_ok ns a \<Longrightarrow> a \<le> b \<Longrightarrow> notes_ok ns b"
  by (auto simp: notes_ok_def)

lemma chords_ok_later: "chords_ok cs a \<Longrightarrow> a \<le> b \<Longrightarrow> chords_ok cs b"
  by (auto simp: chords_ok_def)

lemma keys_ok_later: "keys_ok ks a \<Longrightarrow> a \<le> b \<Longrightarrow> keys_ok ks b"
  by (auto simp: keys_ok_def)

lemma notes_ok_append:
  assumes "notes_ok ns now" "note_ok n" "val (n_onset n) = now"
  shows "notes_ok (ns @ [n]) (note_end n)"
  using assms by (auto simp: notes_ok_def sorted_wrt_append note_ok_def note_end_def)

lemma notes_ok_extend:
  assumes "notes_ok ns now" "ns \<noteq> []" "note_end (last ns) = now" "frac_ok d" "0 < val d"
  shows "notes_ok (butlast ns @ [(last ns)\<lparr> n_duration := frac_add (n_duration (last ns)) d \<rparr>]) (now + val d)"
proof -
  obtain xs x where ns: "ns = xs @ [x]" using assms(2) by (metis append_butlast_last_id)
  have x: "note_ok x" "frac_ok (n_duration x)" using assms(1) by (simp_all add: ns notes_ok_def note_ok_def)
  with assms show ?thesis
    by (auto simp: ns notes_ok_def sorted_wrt_append note_ok_def note_end_def)
qed

text \<open>What the tokens of a measure leave alone.\<close>

definition same_frame :: "voice_state \<Rightarrow> voice_state \<Rightarrow> bool" where
  "same_frame v w \<longleftrightarrow> v_time w = v_time v \<and> v_meter w = v_meter v \<and> vt_bars (v_track w) = vt_bars (v_track v)"

lemma same_frame_refl [simp]: "same_frame v v"
  by (simp add: same_frame_def)

lemma same_frame_trans: "same_frame u v \<Longrightarrow> same_frame v w \<Longrightarrow> same_frame u w"
  by (simp add: same_frame_def)

lemma voice_ok_notes:
  assumes "voice_ok v off" "0 \<le> d" "same_frame v w" "v_key w = v_key v" "vt_chords (v_track w) = vt_chords (v_track v)"
    "vt_keys (v_track w) = vt_keys (v_track v)" "notes_ok (vt_notes (v_track w)) (val (v_time v) + (off + d))"
    "pending_ok (v_pending w) (vt_notes (v_track w)) (val (v_time v) + (off + d))"
  shows "voice_ok w (off + d)"
  using assms chords_ok_later [of "vt_chords (v_track v)" "val (v_time v) + off" "val (v_time v) + (off + d)"]
    keys_ok_later [of "vt_keys (v_track v)" "val (v_time v) + off" "val (v_time v) + (off + d)"]
  by (simp add: voice_ok_def same_frame_def)

lemma voice_ok_rest:
  assumes "voice_ok v off" "v_pending v = None" "0 \<le> d"
  shows "voice_ok v (off + d)"
  using assms notes_ok_later [of "vt_notes (v_track v)" "val (v_time v) + off"]
  by (intro voice_ok_notes) (auto simp: pending_ok_def voice_ok_def)

lemma sound_note_ok:
  assumes "sound_note ctx onset n len s = Inr s'" "voice_ok (s_voice s) off" "frac_ok onset"
    "val onset = val (v_time (s_voice s)) + off" "frac_ok len" "0 < val len" "0 \<le> off"
  shows "voice_ok (s_voice s') (off + val len) \<and> same_frame (s_voice s) (s_voice s') \<and> s_offset s' = s_offset s"
proof (cases "v_pending (s_voice s)")
  case None
  obtain pitch where s': "s_voice s' = (s_voice s)\<lparr>
        v_track := (v_track (s_voice s))\<lparr> vt_notes := vt_notes (v_track (s_voice s)) @ [\<lparr> n_onset = onset, n_pitch = pitch, n_duration = len \<rparr>] \<rparr>,
        v_pending := (if t_tie n then Some (pitch, written_pitch (t_note n) (t_octave n)) else None) \<rparr>"
    "s_offset s' = s_offset s" and pitch: "0 \<le> pitch" "pitch \<le> 127"
    using assms(1) None by (auto simp: sound_note_def Let_def split: sum.splits option.splits if_splits)
  let ?n = "\<lparr> n_onset = onset, n_pitch = pitch, n_duration = len \<rparr>"
  have "notes_ok (vt_notes (v_track (s_voice s)) @ [?n]) (note_end ?n)"
    using assms pitch by (intro notes_ok_append [where now = "val onset"]) (auto simp: voice_ok_def note_ok_def)
  then have "voice_ok (s_voice s') (off + val len)"
    using assms(2,4,6) by (intro voice_ok_notes) (auto simp: s' same_frame_def note_end_def pending_ok_def add.assoc)
  then show ?thesis by (simp add: s' same_frame_def)
next
  case (Some p)
  obtain pitch old_written where p: "p = (pitch, old_written)" by fastforce
  let ?ns = "vt_notes (v_track (s_voice s))"
  let ?merged = "butlast ?ns @ [(last ?ns)\<lparr> n_duration := frac_add (n_duration (last ?ns)) len \<rparr>]"
  have s': "s_voice s' = (s_voice s)\<lparr> v_track := (v_track (s_voice s))\<lparr> vt_notes := ?merged \<rparr>,
        v_pending := (if t_tie n then Some (pitch, written_pitch (t_note n) (t_octave n)) else None) \<rparr>"
    "s_offset s' = s_offset s"
    using assms(1) Some p by (auto simp: sound_note_def Let_def split: sum.splits option.splits if_splits)
  have open_tie: "?ns \<noteq> []" "n_pitch (last ?ns) = pitch" "note_end (last ?ns) = val (v_time (s_voice s)) + off"
    using assms(2) Some p by (simp_all add: voice_ok_def pending_ok_def)
  have ok: "notes_ok ?merged (val (v_time (s_voice s)) + off + val len)"
    using assms open_tie by (intro notes_ok_extend) (simp_all add: voice_ok_def)
  have "frac_ok (n_duration (last ?ns))" using assms(2) open_tie(1) by (simp add: voice_ok_def notes_ok_def note_ok_def)
  then have "note_end (last ?merged) = val (v_time (s_voice s)) + (off + val len)"
    using open_tie(3) assms(5) by (simp add: note_end_def)
  with ok have "voice_ok (s_voice s') (off + val len)"
    using assms(2,6) open_tie by (intro voice_ok_notes) (auto simp: s' same_frame_def pending_ok_def add.assoc)
  then show ?thesis by (simp add: s' same_frame_def)
qed

text \<open>The state inside a measure: how far it is filled, and the voice at that point.\<close>

definition bar_ok :: "frac \<Rightarrow> bar_state \<Rightarrow> bool" where
  "bar_ok len s \<longleftrightarrow> frac_ok (s_offset s) \<and> 0 \<le> val (s_offset s) \<and> val (s_offset s) \<le> val len \<and>
     voice_ok (s_voice s) (val (s_offset s))"

lemma bar_note_ok:
  assumes "bar_note ctx unit len start n s = Inr s'" "bar_ok len s" "frac_ok len" "frac_ok unit" "0 < val unit"
    "start = v_time (s_voice s)"
  shows "bar_ok len s' \<and> same_frame (s_voice s) (s_voice s') \<and> val (s_offset s) < val (s_offset s')"
proof -
  obtain units where units: "token_units (t_duration n) = Some units"
    using assms(1) by (auto simp: bar_note_def split: option.splits)
  define d where "d = frac_mul (frac_mul (frac_int (int units)) unit) (frac_int 4)"
  have d: "frac_ok d" "0 < val d"
    using token_units_pos [OF units] assms(4,5) by (simp_all add: d_def)
  have off: "frac_ok (s_offset s)" "0 \<le> val (s_offset s)" "voice_ok (s_voice s) (val (s_offset s))"
    using assms(2) by (simp_all add: bar_ok_def)
  have fits: "val (s_offset s) + val d \<le> val len"
    using assms(1,3) units d off by (auto simp: bar_note_def Let_def frac_less_val d_def [symmetric] split: if_splits)
  obtain t where s': "s' = t\<lparr> s_offset := frac_add (s_offset t) d \<rparr>"
    and t: "(if t_note n = CHR ''z'' then
               if t_accidental n \<noteq> None \<or> t_octave n \<noteq> [] \<or> t_tie n then Inl (MarkedRest ctx)
               else if v_pending (s_voice s) \<noteq> None then Inl (TieEntersRest ctx) else Inr s
             else sound_note ctx (frac_add start (s_offset s)) n d s) = Inr t"
    using assms(1) units by (auto simp: bar_note_def Let_def d_def [symmetric] split: if_splits sum.splits)
  have "voice_ok (s_voice t) (val (s_offset s) + val d) \<and> same_frame (s_voice s) (s_voice t) \<and> s_offset t = s_offset s"
  proof (cases "t_note n = CHR ''z''")
    case True
    then have "t = s" "v_pending (s_voice s) = None" using t by (simp_all split: if_splits del: not_None_eq)
    then show ?thesis using voice_ok_rest [OF off(3)] d(2) by simp
  next
    case False
    have "frac_ok (v_time (s_voice s))" using off(3) by (simp add: voice_ok_def)
    with False t off d assms(6) show ?thesis by (intro sound_note_ok [where onset = "frac_add start (s_offset s)"]) auto
  qed
  then show ?thesis using off d fits by (simp add: bar_ok_def s')
qed

lemma bar_token_ok:
  assumes "bar_token ctx unit len start t s = Inr s'" "bar_ok len s" "frac_ok len" "frac_ok unit" "0 < val unit"
    "start = v_time (s_voice s)"
  shows "bar_ok len s' \<and> same_frame (s_voice s) (s_voice s') \<and> val (s_offset s) \<le> val (s_offset s')"
proof (cases t)
  case (TNote n)
  with assms bar_note_ok [of ctx unit len start n s s'] show ?thesis by (auto simp: bar_token_def)
next
  case (TChord symbol)
  have ok: "voice_ok (s_voice s) (val (s_offset s))" "frac_ok (s_offset s)" "0 \<le> val (s_offset s)"
    using assms(2) by (simp_all add: bar_ok_def)
  with assms TChord show ?thesis
    by (auto simp: bar_token_def bar_ok_def voice_ok_def chords_ok_def same_frame_def Let_def sorted_append split: if_splits)
next
  case (TKey key)
  have ok: "voice_ok (s_voice s) (val (s_offset s))" "frac_ok (s_offset s)" "0 \<le> val (s_offset s)"
    using assms(2) by (simp_all add: bar_ok_def)
  with assms TKey show ?thesis
    by (auto simp: bar_token_def bar_ok_def voice_ok_def keys_ok_def key_ok_def same_frame_def Let_def sorted_append
        split: sum.splits)
qed

lemma bar_loop_ok:
  assumes "bar_loop ctx unit len start body s = Inr s'" "bar_ok len s" "frac_ok len" "frac_ok unit" "0 < val unit"
    "start = v_time (s_voice s)"
  shows "bar_ok len s' \<and> same_frame (s_voice s) (s_voice s')"
  using assms
proof (induction ctx unit len start body s rule: bar_loop.induct)
  case (2 ctx unit len start c cs s)
  show ?case
  proof (cases "is_whitespace c")
    case True
    with 2 show ?thesis by simp
  next
    case False
    obtain t rest u where lex: "lex_token (c # cs) = Some (t, rest)" and before: "\<not> frac_le len (s_offset s)"
      and u: "bar_token ctx unit len start t s = Inr u" and loop: "bar_loop ctx unit len start rest u = Inr s'"
      using 2(3) False by (auto split: option.splits if_splits sum.splits)
    have u_ok: "bar_ok len u" "same_frame (s_voice s) (s_voice u)"
      using bar_token_ok [OF u] 2 by auto
    then have "bar_ok len s' \<and> same_frame (s_voice u) (s_voice s')"
      using 2(2) [OF False lex refl before u loop] 2(5-) by (simp add: same_frame_def)
    with u_ok(2) show ?thesis by (auto intro: same_frame_trans)
  qed
qed simp

lemma voice_ok_bar:
  assumes "voice_ok v (val len)" "len = meter_length (v_meter v)"
  shows "voice_ok (v\<lparr> v_track := (v_track v)\<lparr> vt_bars := vt_bars (v_track v) @
      [\<lparr> b_start = v_time v, b_length = len, b_meter = v_meter v \<rparr>] \<rparr>, v_time := frac_add (v_time v) len \<rparr>) 0"
  using assms meter_length_ok [of "v_meter v"] by (simp add: voice_ok_def grid_append)

lemma parse_bar_ok:
  assumes "parse_bar body v unit ctx = Inr w" "voice_ok v 0" "frac_ok unit" "0 < val unit"
  shows "voice_ok w 0 \<and> v_meter w = v_meter v \<and> v_time w = frac_add (v_time v) (meter_length (v_meter v)) \<and>
    vt_bars (v_track w) = vt_bars (v_track v) @ [\<lparr> b_start = v_time v, b_length = meter_length (v_meter v), b_meter = v_meter v \<rparr>]"
proof -
  let ?len = "meter_length (v_meter v)"
  let ?s = "\<lambda>offset. \<lparr> s_offset = offset, s_local = replicate 7 None, s_voice = v \<rparr>"
  have len: "frac_ok ?len" "0 < val ?len" using assms(2) meter_length_ok by (auto simp: voice_ok_def)
  obtain s where s: "(if body = ''Z'' then if v_pending v \<noteq> None then Inl (TieEntersFullRest ctx) else Inr (?s ?len)
      else bar_loop ctx unit ?len (v_time v) body (?s frac_zero)) = Inr s"
    and full: "s_offset s = ?len"
    and w: "w = (s_voice s)\<lparr> v_track := (v_track (s_voice s))\<lparr> vt_bars := vt_bars (v_track (s_voice s)) @
        [\<lparr> b_start = v_time v, b_length = ?len, b_meter = v_meter (s_voice s) \<rparr>] \<rparr>,
        v_time := frac_add (v_time (s_voice s)) ?len \<rparr>"
    using assms(1) by (auto simp: parse_bar_def Let_def split: sum.splits if_splits)
  have ok: "voice_ok (s_voice s) (val ?len) \<and> same_frame v (s_voice s)"
  proof (cases "body = ''Z''")
    case True
    then have "s = ?s ?len" "v_pending v = None" using s by (simp_all split: if_splits del: not_None_eq)
    then show ?thesis using voice_ok_rest [OF assms(2), of "val ?len"] len by simp
  next
    case False
    then have loop: "bar_loop ctx unit ?len (v_time v) body (?s frac_zero) = Inr s" using s by simp
    have "bar_ok ?len (?s frac_zero)" using assms(2) len by (simp add: bar_ok_def)
    from bar_loop_ok [OF loop this len(1) assms(3,4)] show ?thesis using full by (simp add: bar_ok_def)
  qed
  then have frame: "v_time (s_voice s) = v_time v" "v_meter (s_voice s) = v_meter v"
      "vt_bars (v_track (s_voice s)) = vt_bars (v_track v)"
    by (simp_all add: same_frame_def)
  have "voice_ok w 0" unfolding w frame using voice_ok_bar [OF conjunct1 [OF ok], unfolded frame, OF refl] .
  then show ?thesis by (simp add: w frame)
qed

section \<open>Lines, blocks and groups\<close>

lemma parse_bars_ok:
  assumes "parse_bars ctx unit bs v = Inr w" "voice_ok v 0" "frac_ok unit" "0 < val unit"
  shows "voice_ok w 0 \<and> (\<exists>new. vt_bars (v_track w) = vt_bars (v_track v) @ new \<and> length new = length bs)"
  using assms
proof (induction ctx unit bs v rule: parse_bars.induct)
  case (2 ctx unit b i bs v)
  let ?ctx = "ctx @ '', bar '' @ show_nat (length (vt_bars (v_track v)) + 1)"
  obtain u where u: "parse_bar b v unit ?ctx = Inr u" and rest: "parse_bars ctx unit bs u = Inr w"
    using 2(2) by (auto split: sum.splits)
  note u_ok = parse_bar_ok [OF u 2(3-5)]
  show ?case using 2(1) [OF u rest _ 2(4,5)] u_ok by auto
qed simp

lemma voice_ok_meter: "voice_ok v off \<Longrightarrow> meter_ok m \<Longrightarrow> voice_ok (v\<lparr> v_meter := m \<rparr>) off"
  by (simp add: voice_ok_def)

lemma voice_ok_key:
  assumes "voice_ok v 0" "key_ok key"
  shows "voice_ok (v\<lparr> v_key := key, v_track := (v_track v)\<lparr> vt_keys := vt_keys (v_track v) @ [\<lparr> k_onset = v_time v, k_key = key \<rparr>] \<rparr> \<rparr>) 0"
  using assms by (auto simp: voice_ok_def keys_ok_def sorted_append)

lemma parse_fields_ok:
  assumes "parse_fields ctx lines cursor fs v = Inr (rest, c, gs, w)" "voice_ok v 0"
  shows "voice_ok w 0 \<and> v_time w = v_time v \<and> vt_bars (v_track w) = vt_bars (v_track v) \<and> v_pending w = v_pending v"
  using assms
proof (induction ctx lines cursor fs v rule: parse_fields.induct)
  case (2 ctx line lines cursor fs v)
  consider (music) "\<not> (starts_with_text ''M:'' line \<or> starts_with_text ''K:'' line)"
    | (meter) m where "meter_value (drop 2 line) = Inr m"
        "parse_fields ctx lines (cursor + 1) (fs @ [(hd line, drop 2 line)]) (v\<lparr> v_meter := m \<rparr>) = Inr (rest, c, gs, w)"
        "starts_with_text ''M:'' line \<or> starts_with_text ''K:'' line" "\<not> list_ex (\<lambda>(f, _). f = hd line) fs" "hd line = CHR ''M''"
    | (key) r where "key_accidentals (drop 2 line) = Inr r"
        "parse_fields ctx lines (cursor + 1) (fs @ [(hd line, drop 2 line)])
           (v\<lparr> v_key := drop 2 line, v_track := (v_track v)\<lparr> vt_keys := vt_keys (v_track v) @
                [\<lparr> k_onset = v_time v, k_key = drop 2 line \<rparr>] \<rparr> \<rparr>) = Inr (rest, c, gs, w)"
        "starts_with_text ''M:'' line \<or> starts_with_text ''K:'' line" "\<not> list_ex (\<lambda>(f, _). f = hd line) fs" "hd line \<noteq> CHR ''M''"
    using 2(3) by (auto simp: Let_def split: if_splits sum.splits)
  then show ?case
  proof cases
    case music
    with 2(3,4) show ?thesis by simp
  next
    case meter
    from 2(1) [OF meter(3) refl refl meter(4,5,1,2) voice_ok_meter [OF 2(4) meter_value_ok [OF meter(1)]]] show ?thesis by simp
  next
    case key
    have "key_ok (drop 2 line)" using key(1) by (simp add: key_ok_def)
    from 2(2) [OF key(3) refl refl key(4,5,1,2) voice_ok_key [OF 2(4) this]] show ?thesis by simp
  qed
qed simp

lemma parse_block_ok:
  assumes "parse_block unit ctx name lines cursor v = Inr (rest, c, b, n, w)" "voice_ok v 0" "frac_ok unit" "0 < val unit"
  shows "voice_ok w 0 \<and> 1 \<le> n \<and> n \<le> 4 \<and> (\<exists>new. vt_bars (v_track w) = vt_bars (v_track v) @ new \<and> length new = n)"
proof -
  obtain line rest' c' gs u bs where "parse_fields ctx (tl lines) (cursor + 1) [] v = Inr (line # rest', c', gs, u)"
    and "1 \<le> length bs" "length bs \<le> 4" "n = length bs" "parse_bars ctx unit bs u = Inr w"
    using assms(1) by (auto simp: parse_block_def split: list.splits sum.splits if_splits)
  then show ?thesis using parse_fields_ok [of ctx "tl lines"] parse_bars_ok [of ctx unit bs u w] assms(2-) by fastforce
qed

section \<open>Sections tile the score\<close>

text \<open>
  Sections one after the other, from a group, a measure and a time to another: every section has at
  least one group and one measure.
\<close>

fun tiled :: "nat \<Rightarrow> nat \<Rightarrow> rat \<Rightarrow> sect list \<Rightarrow> nat \<Rightarrow> nat \<Rightarrow> rat \<Rightarrow> bool" where
  "tiled g b x [] g' b' x' \<longleftrightarrow> g = g' \<and> b = b' \<and> x = x'"
| "tiled g b x (s # ss) g' b' x' \<longleftrightarrow>
     fst (sec_groups s) = g \<and> g < snd (sec_groups s) \<and> sec_first_bar s = b \<and> 0 < sec_bar_count s \<and>
     frac_ok (sec_start s) \<and> val (sec_start s) = x \<and> frac_ok (sec_length s) \<and> 0 < val (sec_length s) \<and>
     tiled (snd (sec_groups s)) (b + sec_bar_count s) (x + val (sec_length s)) ss g' b' x'"

fun groups_run :: "nat \<Rightarrow> group list \<Rightarrow> nat \<Rightarrow> bool" where
  "groups_run b [] b' \<longleftrightarrow> b = b'"
| "groups_run b (g # gs) b' \<longleftrightarrow>
     g_first_bar g = b \<and> 1 \<le> g_bar_count g \<and> g_bar_count g \<le> 4 \<and> length (g_blocks g) = 2 \<and> groups_run (b + g_bar_count g) gs b'"

lemma tiled_append:
  "tiled g b x (ss @ ts) g'' b'' x'' \<longleftrightarrow> (\<exists>g' b' x'. tiled g b x ss g' b' x' \<and> tiled g' b' x' ts g'' b'' x'')"
  by (induction ss arbitrary: g b x) auto

lemma groups_run_append: "groups_run b (gs @ hs) b'' \<longleftrightarrow> (\<exists>b'. groups_run b gs b' \<and> groups_run b' hs b'')"
  by (induction gs arbitrary: b) auto

lemma grid_increases: "grid a xs b \<Longrightarrow> a \<le> b \<and> (xs \<noteq> [] \<longrightarrow> a < b)"
proof (induction xs arbitrary: a)
  case (Cons x xs)
  then have "0 < val (b_length x)" "a + val (b_length x) \<le> b" using meter_length_ok by auto
  then show ?case by simp
qed simp

lemma grid_unique: "grid a xs b \<Longrightarrow> grid a xs c \<Longrightarrow> b = c"
  by (induction xs arbitrary: a) auto

lemma more_bars_later:
  assumes "voice_ok v 0" "voice_ok w 0" "vt_bars (v_track w) = vt_bars (v_track v) @ new" "new \<noteq> []"
  shows "val (v_time v) < val (v_time w)"
proof -
  obtain b where "grid 0 (vt_bars (v_track v)) b" "grid b new (val (v_time w))"
    using assms(2,3) by (auto simp: voice_ok_def grid_append)
  moreover have "grid 0 (vt_bars (v_track v)) (val (v_time v))" using assms(1) by (simp add: voice_ok_def)
  ultimately show ?thesis using grid_unique grid_increases assms(4) by metis
qed

definition state_ok :: "parse_state \<Rightarrow> bool" where
  "state_ok st \<longleftrightarrow> voice_ok (p_vocal st) 0 \<and> voice_ok (p_ins st) 0 \<and>
     tiled 0 0 0 (p_sections st) (length (p_groups st)) (length (vt_bars (v_track (p_vocal st)))) (val (v_time (p_vocal st))) \<and>
     groups_run 0 (p_groups st) (length (vt_bars (v_track (p_vocal st))))"

lemma add_group_ok:
  assumes "state_ok st" "voice_ok vocal 0" "voice_ok ins 0" "1 \<le> n" "n \<le> 4" "length blocks = 2"
    "vt_bars (v_track vocal) = vt_bars (v_track (p_vocal st)) @ new" "length new = n"
  shows "state_ok (add_group comments blocks n st vocal ins)"
proof -
  have later: "val (v_time (p_vocal st)) < val (v_time vocal)"
    using assms by (intro more_bars_later [of _ _ new]) (auto simp: state_ok_def)
  have ok: "frac_ok (v_time (p_vocal st))" "frac_ok (v_time vocal)"
    using assms(1,2) by (simp_all add: state_ok_def voice_ok_def)
  let ?st = "add_group comments blocks n st vocal ins"
  have tiles: "tiled 0 0 0 (p_sections ?st) (length (p_groups ?st)) (length (vt_bars (v_track vocal))) (val (v_time vocal))"
  proof (cases "comments \<noteq> [] \<or> p_sections st = []")
    case True
    with assms later ok show ?thesis
      by (auto simp: add_group_def Let_def tiled_append state_ok_def)
  next
    case False
    then obtain ss s where ss: "p_sections st = ss @ [s]" by (metis append_butlast_last_id)
    have "tiled 0 0 0 (ss @ [s]) (length (p_groups st)) (length (vt_bars (v_track (p_vocal st)))) (val (v_time (p_vocal st)))"
      using assms(1) ss by (simp add: state_ok_def)
    then have "tiled 0 0 0 ss (fst (sec_groups s)) (sec_first_bar s) (val (sec_start s))"
      and s: "fst (sec_groups s) < snd (sec_groups s)" "0 < sec_bar_count s" "frac_ok (sec_start s)" "0 < val (sec_length s)"
        "snd (sec_groups s) = length (p_groups st)"
        "sec_first_bar s + sec_bar_count s = length (vt_bars (v_track (p_vocal st)))"
        "val (sec_start s) + val (sec_length s) = val (v_time (p_vocal st))"
      by (auto simp: tiled_append)
    moreover have "val (sec_start s) < val (v_time vocal)" using s(4,7) later by linarith
    ultimately show ?thesis
      using False ss assms(7,8) ok by (auto simp: add_group_def Let_def tiled_append)
  qed
  have "groups_run 0 (p_groups ?st) (length (vt_bars (v_track vocal)))"
    using assms by (auto simp: add_group_def Let_def groups_run_append state_ok_def)
  with tiles assms(2,3) show ?thesis by (simp add: state_ok_def add_group_def Let_def)
qed

lemma parse_group_ok:
  assumes "parse_group unit lines cursor st = Inr (rest, c, st')" "state_ok st" "frac_ok unit" "0 < val unit"
  shows "state_ok st'"
proof -
  obtain comments rest1 cur1 vb n vocal rest2 cur2 ib ins ctx ctx' where
    blocks: "parse_block unit ctx ''Vocal'' rest1 cur1 (p_vocal st) = Inr (rest2, cur2, vb, n, vocal)"
      "parse_block unit ctx' ''Ins'' rest2 cur2 (p_ins st) = Inr (rest, c, ib, n, ins)"
    and st': "st' = add_group comments [vb, ib] n st vocal ins"
    using assms(1) by (fastforce simp: parse_group_def Let_def split: if_splits sum.splits)
  have "voice_ok (p_vocal st) 0" "voice_ok (p_ins st) 0" using assms(2) by (simp_all add: state_ok_def)
  then show ?thesis
    using parse_block_ok [OF blocks(1) _ assms(3,4)] parse_block_ok [OF blocks(2) _ assms(3,4)] assms(2)
    unfolding st' by (auto intro: add_group_ok)
qed

lemma parse_groups_ok:
  assumes "parse_groups unit lines cursor st = Inr st'" "state_ok st" "frac_ok unit" "0 < val unit"
  shows "state_ok st'"
  using assms
proof (induction unit lines cursor st rule: parse_groups.induct)
  case (1 unit lines cursor st)
  show ?case
  proof (cases "lines = []")
    case True
    with 1 show ?thesis by (simp add: parse_groups.simps [of unit "[]"])
  next
    case False
    obtain rest c st1 where g: "parse_group unit lines cursor st = Inr (rest, c, st1)"
      and rest: "parse_groups unit rest c st1 = Inr st'"
      using 1(2) False by (auto simp: parse_groups.simps [of unit lines] split: sum.splits)
    show ?thesis using 1(1) [OF False g refl refl rest] parse_group_ok [OF g 1(3-5)] 1(4,5) by simp
  qed
qed

section \<open>Properties\<close>

lemma grid_duration:
  assumes "grid 0 (vt_bars t) b"
  shows "val (track_duration t) = b"
proof (cases "vt_bars t = []")
  case False
  then obtain xs x where "vt_bars t = xs @ [x]" by (metis append_butlast_last_id)
  with assms meter_length_ok [of "b_meter x"] show ?thesis by (auto simp: track_duration_def grid_append)
qed (use assms in \<open>simp add: track_duration_def\<close>)

lemma header_ok:
  assumes "parse_header lines = Inr (m, unit, bpm, key)"
  shows "meter_ok m \<and> frac_ok unit \<and> 0 < val unit \<and> 0 < bpm \<and> key_ok key"
proof -
  obtain d q k mt denominator where parts: "positive_decimal d = Some denominator" "positive_decimal q = Some bpm"
      "meter_value mt = Inr m" "key_accidentals key = Inr k" and unit: "unit = frac_new 1 (int denominator)"
    using assms by (auto simp: parse_header_def bind_eq_Some_conv split: if_splits option.splits sum.splits)
  then show ?thesis
    using positive_decimal_pos [OF parts(1)] positive_decimal_pos [OF parts(2)] meter_value_ok [OF parts(3)]
      frac_new_ok [of "int denominator" 1] by (simp add: key_ok_def)
qed

text \<open>What the parser returns is the invariant state of its loop.\<close>

lemma parse_score_state:
  assumes "parse_score txt = Inr s"
  shows "\<exists>st. state_ok st \<and> sc_text s = txt \<and> sc_voices s = (v_track (p_vocal st), v_track (p_ins st)) \<and>
    sc_groups s = p_groups st \<and> sc_sections s = p_sections st \<and> vt_chords (v_track (p_ins st)) = [] \<and>
    vt_bars (v_track (p_vocal st)) = vt_bars (v_track (p_ins st)) \<and> vt_keys (v_track (p_vocal st)) = vt_keys (v_track (p_ins st))"
proof -
  obtain m unit bpm key st where header: "parse_header (text_lines txt) = Inr (m, unit, bpm, key)"
    and groups: "parse_groups unit (drop 8 (text_lines txt)) 8
        \<lparr> p_vocal = new_voice m key, p_ins = new_voice m key, p_groups = [], p_sections = [], p_group_number = 0 \<rparr> = Inr st"
    and s: "sc_text s = txt" "sc_voices s = (v_track (p_vocal st), v_track (p_ins st))" "sc_groups s = p_groups st"
      "sc_sections s = p_sections st"
    and checks: "vt_chords (v_track (p_ins st)) = []" "vt_bars (v_track (p_vocal st)) = vt_bars (v_track (p_ins st))"
      "vt_keys (v_track (p_vocal st)) = vt_keys (v_track (p_ins st))"
    using assms by (auto simp: parse_score_def Let_def split: sum.splits if_splits)
  note h = header_ok [OF header]
  have "voice_ok (new_voice m key) 0"
    using h by (simp add: voice_ok_def new_voice_def notes_ok_def chords_ok_def keys_ok_def pending_ok_def)
  then have "state_ok st" using parse_groups_ok [OF groups] h by (simp add: state_ok_def new_voice_def)
  with s checks show ?thesis by blast
qed

text \<open>
  Reading one measure either fails or adds exactly one measure, as long as the meter in force, and
  moves the time of the voice by that length; the notes of the voice stay in time order without
  overlap, within the MIDI range and within the time read so far, and an open tie always continues
  the last note.
\<close>

theorem parse_bar_fills_measure:
  assumes "parse_bar body v unit ctx = Inr w" "voice_ok v 0" "frac_ok unit" "0 < val unit"
  shows "voice_ok w 0 \<and> val (v_time w) = val (v_time v) + val (meter_length (v_meter v)) \<and> v_meter w = v_meter v \<and>
    vt_bars (v_track w) = vt_bars (v_track v) @ [\<lparr> b_start = v_time v, b_length = meter_length (v_meter v), b_meter = v_meter v \<rparr>]"
proof -
  have "frac_ok (v_time v)" "frac_ok (meter_length (v_meter v))"
    using assms(2) meter_length_ok by (auto simp: voice_ok_def)
  then show ?thesis using parse_bar_ok [OF assms] by simp
qed

text \<open>
  C13. A score that is accepted is sound: both voices have the same measures, which follow one another
  without gap from zero to the duration of the score, each as long as its meter; in each voice the
  notes are in time order, do not overlap, have positive length and a MIDI pitch and end within the
  score; keys and chords are in order and of the dialect, and only the vocal voice has chords; the
  groups are runs of one to four measures with a block per voice; and the sections tile the groups,
  the measures and the duration.
\<close>

theorem parse_score_sound:
  assumes "parse_score txt = Inr s"
  defines "vocal \<equiv> fst (sc_voices s)" and "ins \<equiv> snd (sc_voices s)" and "d \<equiv> val (score_duration s)"
  shows "vt_bars ins = vt_bars vocal \<and> grid 0 (vt_bars vocal) d \<and> notes_ok (vt_notes vocal) d \<and> notes_ok (vt_notes ins) d \<and>
    vt_keys ins = vt_keys vocal \<and> keys_ok (vt_keys vocal) d \<and> chords_ok (vt_chords vocal) d \<and> vt_chords ins = [] \<and>
    groups_run 0 (sc_groups s) (score_bar_count s) \<and>
    tiled 0 0 0 (sc_sections s) (length (sc_groups s)) (score_bar_count s) d"
proof -
  obtain st where "state_ok st"
    and s: "sc_voices s = (v_track (p_vocal st), v_track (p_ins st))" "sc_groups s = p_groups st" "sc_sections s = p_sections st"
    and checks: "vt_chords (v_track (p_ins st)) = []" "vt_bars (v_track (p_vocal st)) = vt_bars (v_track (p_ins st))"
      "vt_keys (v_track (p_vocal st)) = vt_keys (v_track (p_ins st))"
    using parse_score_state [OF assms(1)] by blast
  then have ok: "voice_ok (p_vocal st) 0" "voice_ok (p_ins st) 0"
    and rest: "tiled 0 0 0 (p_sections st) (length (p_groups st)) (length (vt_bars (v_track (p_vocal st)))) (val (v_time (p_vocal st)))"
      "groups_run 0 (p_groups st) (length (vt_bars (v_track (p_vocal st))))"
    by (simp_all add: state_ok_def)
  have d: "d = val (v_time (p_vocal st))"
    using ok(1) grid_duration by (simp add: d_def score_duration_def s voice_ok_def)
  have same: "val (v_time (p_ins st)) = val (v_time (p_vocal st))"
    using ok checks(2) grid_unique by (metis voice_ok_def)
  show ?thesis
    using ok rest checks same by (simp add: vocal_def ins_def s d voice_ok_def score_bar_count_def)
qed

section \<open>Witnesses\<close>

definition demo_voice :: voice_state where
  "demo_voice = new_voice \<lparr> m_numerator = 4, m_denominator = 4 \<rparr> ''G''"

lemma demo_key: "key_accidentals ''G'' = Inr [0, 0, 0, 1, 0, 0, 0]"
  by (simp add: key_accidentals_def MAJOR_KEYS_def letter_index_def numeral_eq_Suc)

lemma demo_voice_ok: "voice_ok demo_voice 0"
  by (simp add: voice_ok_def demo_voice_def new_voice_def meter_ok_def notes_ok_def chords_ok_def keys_ok_def pending_ok_def
      key_ok_def demo_key)

lemma demo_unit: "frac_ok (frac_new 1 8)" "0 < val (frac_new 1 8)"
  using frac_new_ok [of 8 1] by simp_all

lemma demo_tokens:
  "lex_token ''F4z4'' = Some (TNote \<lparr> t_accidental = None, t_note = CHR ''F'', t_octave = [], t_duration = ''4'', t_tie = False \<rparr>, ''z4'')"
  "lex_token ''z4'' = Some (TNote \<lparr> t_accidental = None, t_note = CHR ''z'', t_octave = [], t_duration = ''4'', t_tie = False \<rparr>, [])"
  by (simp_all add: lex_token_def lex_note_def lex_accidental_def strip_prefix_def starts_with_text_def is_note_char_def
      is_note_letter_def is_octave_mark_def is_ascii_digit_def char_code_def Let_def)

lemma demo_units: "token_units ''4'' = Some 4"
  by (simp add: token_units_def parse_u32_def digits_value_def digit_value_def char_code_def DURATIONS_def)

lemmas frac_eval = frac_new_def frac_gcd_gcd frac_add_def frac_mul_def frac_int_def frac_zero_def frac_less_def frac_le_def

lemma demo_letters:
  "to_ascii_uppercase (CHR ''F'') = CHR ''F''" "letter_index (CHR ''F'') = 3" "written_pitch (CHR ''F'') [] = 65"
  "\<not> is_whitespace (CHR ''F'')" "\<not> is_whitespace (CHR ''z'')"
  by (simp_all add: to_ascii_uppercase_def is_ascii_lower_def letter_index_def written_pitch_def natural_semitone_def
      count_char_def is_whitespace_def char_code_def)

lemma demo_meter: "meter_length \<lparr> m_numerator = 4, m_denominator = 4 \<rparr> = frac_int 4"
  by (simp add: meter_length_def frac_eval)

definition demo_note_state :: bar_state where
  "demo_note_state = \<lparr> s_offset = frac_int 2, s_local = replicate 7 None, s_voice = demo_voice\<lparr> v_track := (v_track demo_voice)\<lparr>
       vt_notes := [\<lparr> n_onset = frac_zero, n_pitch = 66, n_duration = frac_int 2 \<rparr>] \<rparr> \<rparr> \<rparr>"

lemma demo_first_token:
  "bar_token ctx (frac_new 1 8) (frac_int 4) frac_zero
     (TNote \<lparr> t_accidental = None, t_note = CHR ''F'', t_octave = [], t_duration = ''4'', t_tie = False \<rparr>)
     \<lparr> s_offset = frac_zero, s_local = replicate 7 None, s_voice = demo_voice \<rparr> = Inr demo_note_state"
  by (simp add: bar_token_def bar_note_def demo_units sound_note_def demo_letters inherited_alteration_def demo_voice_def new_voice_def demo_key
      demo_note_state_def Let_def) (simp add: frac_eval)

lemma demo_second_token:
  "bar_token ctx (frac_new 1 8) (frac_int 4) frac_zero
     (TNote \<lparr> t_accidental = None, t_note = CHR ''z'', t_octave = [], t_duration = ''4'', t_tie = False \<rparr>) demo_note_state =
   Inr (demo_note_state\<lparr> s_offset := frac_int 4 \<rparr>)"
  by (simp add: bar_token_def bar_note_def demo_units demo_note_state_def demo_voice_def new_voice_def Let_def)
     (simp add: frac_eval)

lemma demo_before_end: "\<not> frac_le (frac_int 4) frac_zero" "\<not> frac_le (frac_int 4) (frac_int 2)"
  by (simp_all add: frac_eval)

definition demo_after_bar :: voice_state where
  "demo_after_bar = demo_voice\<lparr> v_time := frac_int 4, v_track := (v_track demo_voice)\<lparr>
       vt_notes := [\<lparr> n_onset = frac_zero, n_pitch = 66, n_duration = frac_int 2 \<rparr>],
       vt_bars := [\<lparr> b_start = frac_zero, b_length = frac_int 4, b_meter = \<lparr> m_numerator = 4, m_denominator = 4 \<rparr> \<rparr>] \<rparr> \<rparr>"

lemma demo_loop:
  "bar_loop ctx (frac_new 1 8) (frac_int 4) frac_zero ''F4z4''
     \<lparr> s_offset = frac_zero, s_local = replicate 7 None, s_voice = demo_voice \<rparr> = Inr (demo_note_state\<lparr> s_offset := frac_int 4 \<rparr>)"
  by (simp add: demo_letters demo_tokens demo_first_token demo_before_end)
     (simp add: demo_note_state_def demo_before_end demo_second_token [unfolded demo_note_state_def])

lemma demo_bar: "parse_bar ''F4z4'' demo_voice (frac_new 1 8) ctx = Inr demo_after_bar"
  using demo_loop [of ctx]
  by (simp add: parse_bar_def demo_voice_def new_voice_def demo_meter demo_note_state_def demo_after_bar_def Let_def)
     (simp add: frac_eval)

theorem parse_bar_fills_measure_witness:
  "voice_ok demo_after_bar 0 \<and> val (v_time demo_after_bar) = val (v_time demo_voice) + val (meter_length (v_meter demo_voice))"
  using parse_bar_fills_measure [OF demo_bar [of "''bar''"] demo_voice_ok demo_unit] by simp

lemma split_on_lines:
  "\<forall>l\<in>set ls. CHR 0x0A \<notin> set l \<Longrightarrow> split_on (CHR 0x0A) (concat (map (\<lambda>l. l @ [CHR 0x0A]) ls)) = ls @ [[]]"
  by (induction ls) (auto simp: split_on_append)

lemma text_lines_concat:
  assumes "\<forall>l\<in>set ls. CHR 0x0A \<notin> set l \<and> (l = [] \<or> last l \<noteq> CHR 0x0D)"
  shows "text_lines (concat (map (\<lambda>l. l @ [CHR 0x0A]) ls)) = ls"
proof -
  have "map (\<lambda>l. if l \<noteq> [] \<and> last l = CHR 0x0D then butlast l else l) ls = ls"
    using assms by (intro map_idI) auto
  then show ?thesis using split_on_lines [of ls] assms by (simp add: text_lines_def Let_def)
qed

definition demo_lines :: "string list" where
  "demo_lines = [''X:1'', ''T:'', ''M:4/4'', ''L:1/8'', ''Q:1/4=90'', VOICE_DEFINITIONS ! 0, VOICE_DEFINITIONS ! 1, ''K:G'',
     ''V: Vocal'', ''F4z4|'', ''V: Ins'', ''Z|'']"

definition demo_score_text :: string where
  "demo_score_text = concat (map (\<lambda>l. l @ [CHR 0x0A]) demo_lines)"

lemma demo_text_lines: "text_lines demo_score_text = demo_lines"
  unfolding demo_score_text_def
  by (rule text_lines_concat) (simp add: demo_lines_def VOICE_DEFINITIONS_def)

lemma demo_decimals: "positive_decimal ''4'' = Some 4" "positive_decimal ''8'' = Some 8" "positive_decimal ''90'' = Some 90"
  by (simp_all add: positive_decimal_def parse_u32_def digits_value_def digit_value_def is_ascii_digit_def char_code_def)

lemma demo_powers: "is_power_of_two_upto_1024 4" "is_power_of_two_upto_1024 8"
  by (simp_all add: is_power_of_two_upto_1024_def upt_rec numeral_eq_Suc)

lemma demo_header: "parse_header demo_lines = Inr (\<lparr> m_numerator = 4, m_denominator = 4 \<rparr>, frac_new 1 8, 90, ''G'')"
  by (simp add: parse_header_def demo_lines_def strip_prefix_def meter_value_def split_once_def demo_decimals demo_powers
      MAX_METER_NUMERATOR_def VOICE_DEFINITIONS_def demo_key)

lemma demo_music: "split_music_line ''F4z4|'' ctx = Inr [(''F4z4'', 0)]" "split_music_line ''Z|'' ctx = Inr [(''Z'', 0)]"
  by (simp_all add: split_music_line_def trim_def is_whitespace_def char_code_def expand_bar_def strip_prefix_def)

definition demo_ins_after :: voice_state where
  "demo_ins_after = demo_voice\<lparr> v_time := frac_int 4, v_track := (v_track demo_voice)\<lparr>
       vt_bars := [\<lparr> b_start = frac_zero, b_length = frac_int 4, b_meter = \<lparr> m_numerator = 4, m_denominator = 4 \<rparr> \<rparr>] \<rparr> \<rparr>"

lemma demo_rest_bar: "parse_bar ''Z'' demo_voice (frac_new 1 8) ctx = Inr demo_ins_after"
  by (simp add: parse_bar_def demo_voice_def new_voice_def demo_meter demo_ins_after_def Let_def) (simp add: frac_eval)

lemma demo_blocks:
  "parse_block (frac_new 1 8) ctx ''Vocal'' [''V: Vocal'', ''F4z4|'', ''V: Ins'', ''Z|''] 8 demo_voice =
     Inr ([''V: Ins'', ''Z|''], 10, \<lparr> gb_fields = [], gb_line_index = 9, gb_line = ''F4z4|'' \<rparr>, 1, demo_after_bar)"
  "parse_block (frac_new 1 8) ctx ''Ins'' [''V: Ins'', ''Z|''] 10 demo_voice =
     Inr ([], 12, \<lparr> gb_fields = [], gb_line_index = 11, gb_line = ''Z|'' \<rparr>, 1, demo_ins_after)"
  by (simp_all add: parse_block_def starts_with_text_def strip_prefix_def demo_music demo_bar demo_rest_bar)

definition demo_state :: parse_state where
  "demo_state = add_group [] [\<lparr> gb_fields = [], gb_line_index = 9, gb_line = ''F4z4|'' \<rparr>,
       \<lparr> gb_fields = [], gb_line_index = 11, gb_line = ''Z|'' \<rparr>] 1
     \<lparr> p_vocal = demo_voice, p_ins = demo_voice, p_groups = [], p_sections = [], p_group_number = 0 \<rparr>
     demo_after_bar demo_ins_after"

definition demo_score :: score where
  "demo_score = \<lparr> sc_text = demo_score_text, sc_unit = frac_new 1 8, sc_bpm = 90,
     sc_header_meter = \<lparr> m_numerator = 4, m_denominator = 4 \<rparr>, sc_header_key = ''G'',
     sc_voices = (v_track demo_after_bar, v_track demo_ins_after), sc_groups = p_groups demo_state,
     sc_sections = p_sections demo_state \<rparr>"

lemma demo_groups:
  "parse_groups (frac_new 1 8) [''V: Vocal'', ''F4z4|'', ''V: Ins'', ''Z|''] 8
     \<lparr> p_vocal = demo_voice, p_ins = demo_voice, p_groups = [], p_sections = [], p_group_number = 0 \<rparr> = Inr demo_state"
  by (simp add: parse_groups.simps [of _ "_ # _"] parse_groups.simps [of _ "[]"] parse_group_def starts_with_text_def
      strip_prefix_def demo_blocks demo_state_def)

lemma demo_score: "parse_score demo_score_text = Inr demo_score" "score_bar_count demo_score = 1"
proof -
  have state: "p_vocal demo_state = demo_after_bar" "p_ins demo_state = demo_ins_after"
    by (simp_all add: demo_state_def add_group_def Let_def)
  have "drop 8 demo_lines = [''V: Vocal'', ''F4z4|'', ''V: Ins'', ''Z|'']" by (simp add: demo_lines_def)
  then show "parse_score demo_score_text = Inr demo_score"
    using demo_groups
    by (simp add: parse_score_def demo_text_lines demo_header state demo_score_def demo_voice_def [symmetric] Let_def)
       (simp add: demo_after_bar_def demo_ins_after_def demo_voice_def new_voice_def)
  show "score_bar_count demo_score = 1" by (simp add: score_bar_count_def demo_score_def demo_after_bar_def)
qed

theorem parse_score_sound_witness:
  "score_bar_count demo_score = 1 \<and> grid 0 (vt_bars (fst (sc_voices demo_score))) (val (score_duration demo_score)) \<and>
    tiled 0 0 0 (sc_sections demo_score) (length (sc_groups demo_score)) 1 (val (score_duration demo_score))"
  using parse_score_sound [OF demo_score(1)] demo_score(2) by simp

end
