(* ===== verification/ScoreOps.thy ===== *)
theory ScoreOps
  imports AbcLaws
begin

text \<open>
  Edit operations on a parsed score (\<open>yue2_score/ops.rs\<close>): the text surgery on lines, splitting a
  note into tied pieces, placing and removing chord symbols, stripping chords and silencing a voice,
  and rearranging sections. A token list stands for the body of a measure.
\<close>

section \<open>Model\<close>

datatype edit_error =
    ChangeCountOutOfRange
  | BarOutOfRange string nat
  | OnsetNotFraction string
  | OnsetAfterMeasure string frac
  | OnsetOffGrid string frac
  | ChordNotNative string string
  | DuplicateOnset string
  | OnsetOutside string
  | NoChordHere string
  | RestNotWholeUnits nat
  | RestTooLong nat int
  | SectionEndsInTie nat
  | Notation abc_error

definition MAX_CHORD_CHANGES :: nat where "MAX_CHORD_CHANGES = 1024"
definition MAX_REST_EXPANSION_UNITS :: int where "MAX_REST_EXPANSION_UNITS = 4096"

record chord_change =
  cc_bar :: nat
  cc_onset :: string
  cc_chord :: "string option"

datatype keep_voice = KeepBoth | KeepVocal | KeepIns

subsection \<open>Lines\<close>

fun has_crlf :: "string \<Rightarrow> bool" where
  "has_crlf (a # b # s) = ((a = CHR 0x0D \<and> b = CHR 0x0A) \<or> has_crlf (b # s))"
| "has_crlf _ = False"

definition line_ending :: "string \<Rightarrow> string" where
  "line_ending txt = (if has_crlf txt then [CHR 0x0D, CHR 0x0A] else [CHR 0x0A])"

definition rebuild_lines :: "string \<Rightarrow> (nat \<times> string) list \<Rightarrow> string" where
  "rebuild_lines txt replacements =
     (let ls = foldl (\<lambda>ls (i, line). ls[i := line]) (text_lines txt) replacements in
      join_with (line_ending txt) ls @ (if txt \<noteq> [] \<and> last txt = CHR 0x0A then line_ending txt else []))"

definition replace_line :: "string \<Rightarrow> nat \<Rightarrow> string \<Rightarrow> string" where
  "replace_line txt i line = rebuild_lines txt [(i, line)]"

subsection \<open>Durations\<close>

lemma find_piece:
  assumes "find (\<lambda>v. v \<le> units) (rev DURATIONS) = Some p"
  shows "0 < p" "p \<le> units" "p \<in> set DURATIONS"
proof -
  obtain i where i: "i < length DURATIONS" "p = rev DURATIONS ! i" "p \<le> units"
    using assms by (auto simp: find_Some_iff)
  then show mem: "p \<in> set DURATIONS" by (metis length_rev nth_mem set_rev)
  show "p \<le> units" using i by simp
  show "0 < p" using mem by (auto simp: DURATIONS_def)
qed

function duration_pieces :: "nat \<Rightarrow> nat list" where
  "duration_pieces units =
     (if units > 0 then
        (case find (\<lambda>v. v \<le> units) (rev DURATIONS) of
           Some piece \<Rightarrow> piece # duration_pieces (units - piece)
         | None \<Rightarrow> [])
      else [])"
  by pat_completeness auto
termination
  by (relation "measure (\<lambda>u. u)") (auto dest: find_piece)

declare duration_pieces.simps [simp del]

definition duration_text :: "nat \<Rightarrow> string" where
  "duration_text units = (if units = 1 then [] else show_nat units)"

text \<open>A parsed measure has supported durations only, so the lookup does not fail there.\<close>

definition token_unit_count :: "token \<Rightarrow> nat" where
  "token_unit_count t = (case t of TNote n \<Rightarrow> (case token_units (t_duration n) of Some u \<Rightarrow> u | None \<Rightarrow> 0) | _ \<Rightarrow> 0)"

definition piece_token :: "note_token \<Rightarrow> nat \<Rightarrow> bool \<Rightarrow> token" where
  "piece_token n piece last_piece =
     TNote (n\<lparr> t_duration := duration_text piece,
               t_tie := (if t_note n = CHR ''z'' then False else if last_piece then t_tie n else True) \<rparr>)"

definition split_token :: "note_token \<Rightarrow> nat list \<Rightarrow> token list" where
  "split_token n parts =
     concat (map (\<lambda>(part_index, part).
       let part_pieces = duration_pieces part in
       map (\<lambda>(piece_index, piece).
         piece_token n piece (part_index + 1 = length parts \<and> piece_index + 1 = length part_pieces))
         (enumerate 0 part_pieces)) (enumerate 0 parts))"

text \<open>The body of a parsed measure always lexes; nothing stands for the panic of the code elsewhere.\<close>

function lex_body :: "string \<Rightarrow> token list option" where
  "lex_body [] = Some []"
| "lex_body (c # cs) =
     (if is_whitespace c then lex_body cs
      else case lex_token (c # cs) of
        None \<Rightarrow> None
      | Some (t, rest) \<Rightarrow> map_option ((#) t) (lex_body rest))"
  by pat_completeness auto
termination
  by (relation "measure length") (auto dest: lex_token_shorter)

subsection \<open>Chords\<close>

definition is_chord :: "token \<Rightarrow> bool" where
  "is_chord t = (case t of TChord _ \<Rightarrow> True | _ \<Rightarrow> False)"

text \<open>The duration token at an onset, with its index, its offset and its units.\<close>

fun find_onset :: "nat \<Rightarrow> nat \<Rightarrow> nat \<Rightarrow> token list \<Rightarrow> (nat \<times> nat \<times> nat) option" where
  "find_onset onset index offset [] = None"
| "find_onset onset index offset (t # ts) =
     (let units = token_unit_count t in
      if units = 0 then find_onset onset (index + 1) offset ts
      else if offset = onset \<or> (offset < onset \<and> onset < offset + units) then Some (index, offset, units)
      else find_onset onset (index + 1) (offset + units) ts)"

fun chords_start :: "token list \<Rightarrow> nat \<Rightarrow> nat" where
  "chords_start ts 0 = 0"
| "chords_start ts (Suc p) = (if token_unit_count (ts ! p) = 0 then chords_start ts p else Suc p)"

function remove_chords :: "token list \<Rightarrow> nat \<Rightarrow> nat \<Rightarrow> bool \<Rightarrow> token list \<times> nat \<times> bool" where
  "remove_chords ts index pos removed =
     (if index < pos then
        if is_chord (ts ! index) then remove_chords (take index ts @ drop (Suc index) ts) index (pos - 1) True
        else remove_chords ts (index + 1) pos removed
      else (ts, pos, removed))"
  by pat_completeness auto
termination
  by (relation "measure (\<lambda>(_, index, pos, _). pos - index)") auto

declare remove_chords.simps [simp del]

definition set_chord_in_bar :: "token list \<Rightarrow> nat \<Rightarrow> string option \<Rightarrow> string \<Rightarrow> edit_error + token list" where
  "set_chord_in_bar tokens onset_units chord label =
     (case find_onset onset_units 0 0 tokens of
        None \<Rightarrow> Inl (OnsetOutside label)
      | Some (index, offset, units) \<Rightarrow>
          if offset \<noteq> onset_units \<and> chord = None then Inl (NoChordHere label)
          else
            let (tokens, pos) =
                  (if offset = onset_units then (tokens, index)
                   else
                     let pieces = (case tokens ! index of
                                     TNote n \<Rightarrow> split_token n [onset_units - offset, offset + units - onset_units]
                                   | _ \<Rightarrow> []) in
                     (take index tokens @ pieces @ drop (Suc index) tokens,
                      index + length (duration_pieces (onset_units - offset))));
                (tokens, pos, removed) = remove_chords tokens (chords_start tokens pos) pos False in
            (case chord of
               Some symbol \<Rightarrow> Inr (take pos tokens @ [TChord symbol] @ drop pos tokens)
             | None \<Rightarrow> if \<not> removed then Inl (NoChordHere label) else Inr tokens))"

subsection \<open>Reharmonizing\<close>

text \<open>A change resolved against the score: its measure, its onset in units, the chord and its label.\<close>

type_synonym resolved_change = "nat \<times> nat \<times> string option \<times> string"

definition units_of :: "score \<Rightarrow> frac \<Rightarrow> frac" where
  "units_of sc f =
     (let unit_quarters = frac_mul (sc_unit sc) (frac_int 4) in
      frac_new (numer f * denom unit_quarters) (denom f * numer unit_quarters))"

definition resolve_change ::
  "score \<Rightarrow> resolved_change list \<Rightarrow> chord_change \<Rightarrow> edit_error + resolved_change" where
  "resolve_change sc entries change =
     (let bs = vt_bars (fst (sc_voices sc));
          label = ''bar '' @ show_nat (cc_bar change) @ '' onset '' @ cc_onset change in
      if cc_bar change < 1 \<or> cc_bar change > length bs then Inl (BarOutOfRange label (length bs))
      else case frac_parse (cc_onset change) of
        None \<Rightarrow> Inl (OnsetNotFraction label)
      | Some onset \<Rightarrow>
          let b = bs ! (cc_bar change - 1) in
          if frac_le (b_length b) onset then Inl (OnsetAfterMeasure label (b_length b))
          else
            let units = units_of sc onset in
            if \<not> is_integer units then Inl (OnsetOffGrid label (sc_unit sc))
            else if (case cc_chord change of Some symbol \<Rightarrow> \<not> is_native_chord symbol | None \<Rightarrow> False)
            then Inl (ChordNotNative label (the (cc_chord change)))
            else if list_ex (\<lambda>(i, u, _). i = cc_bar change - 1 \<and> u = nat (numer units)) entries
            then Inl (DuplicateOnset label)
            else Inr (cc_bar change - 1, nat (numer units), cc_chord change, label))"

fun resolve_changes ::
  "score \<Rightarrow> resolved_change list \<Rightarrow> chord_change list \<Rightarrow> edit_error + resolved_change list" where
  "resolve_changes sc entries [] = Inr entries"
| "resolve_changes sc entries (c # cs) =
     (case resolve_change sc entries c of
        Inl e \<Rightarrow> Inl e
      | Inr entry \<Rightarrow> resolve_changes sc (entries @ [entry]) cs)"

fun set_chords :: "token list \<Rightarrow> resolved_change list \<Rightarrow> edit_error + token list" where
  "set_chords tokens [] = Inr tokens"
| "set_chords tokens ((_, onset, chord, label) # entries) =
     (case set_chord_in_bar tokens onset chord label of
        Inl e \<Rightarrow> Inl e
      | Inr tokens \<Rightarrow> set_chords tokens entries)"

text \<open>The new text of a measure, or nothing where no change falls in it.\<close>

definition rewrite_bar ::
  "score \<Rightarrow> resolved_change list \<Rightarrow> nat \<Rightarrow> string \<Rightarrow> edit_error + string option" where
  "rewrite_bar sc entries global body =
     (let mine = filter (\<lambda>(i, _). i = global) entries in
      if mine = [] then Inr None
      else
        let bar_units = units_of sc (b_length (vt_bars (fst (sc_voices sc)) ! global)) in
        (case (if body = ''Z'' then
                 if \<not> is_integer bar_units then Inl (RestNotWholeUnits (global + 1))
                 else if numer bar_units > MAX_REST_EXPANSION_UNITS then Inl (RestTooLong (global + 1) (numer bar_units))
                 else Inr (split_token
                        \<lparr> t_accidental = None, t_note = CHR ''z'', t_octave = [], t_duration = [], t_tie = False \<rparr>
                        [nat (numer bar_units)])
               else Inr (case lex_body body of Some ts \<Rightarrow> ts | None \<Rightarrow> [])) of
           Inl e \<Rightarrow> Inl e
         | Inr tokens \<Rightarrow>
             (case set_chords tokens mine of
                Inl e \<Rightarrow> Inl e
              | Inr tokens \<Rightarrow> Inr (Some (concat (map render tokens))))))"

fun rewrite_bars ::
  "score \<Rightarrow> resolved_change list \<Rightarrow> nat \<Rightarrow> (string \<times> nat) list \<Rightarrow> edit_error + string option list" where
  "rewrite_bars sc entries global [] = Inr []"
| "rewrite_bars sc entries global ((body, _) # bs) =
     (case rewrite_bar sc entries global body of
        Inl e \<Rightarrow> Inl e
      | Inr r \<Rightarrow> (case rewrite_bars sc entries (global + 1) bs of Inl e \<Rightarrow> Inl e | Inr rs \<Rightarrow> Inr (r # rs)))"

definition out_segments :: "(string \<times> nat) list \<Rightarrow> string option list \<Rightarrow> string list \<Rightarrow> string list" where
  "out_segments bodies rewritten segments =
     concat (map (\<lambda>(segment_index, segment).
       let members = filter (\<lambda>l. snd (bodies ! l) = segment_index) [0..<length bodies] in
       if list_all (\<lambda>l. rewritten ! l = None) members then [segment]
       else map (\<lambda>l. case rewritten ! l of Some s \<Rightarrow> s | None \<Rightarrow> fst (bodies ! l)) members) (enumerate 0 segments))"

fun rewrite_groups :: "score \<Rightarrow> resolved_change list \<Rightarrow> nat \<Rightarrow> group list \<Rightarrow> edit_error + (nat \<times> string) list" where
  "rewrite_groups sc entries group_index [] = Inr []"
| "rewrite_groups sc entries group_index (g # gs) =
     (if \<not> list_ex (\<lambda>(i, _). g_first_bar g \<le> i \<and> i < g_first_bar g + g_bar_count g) entries
      then rewrite_groups sc entries (group_index + 1) gs
      else
        let block = g_blocks g ! 0; context = ''group '' @ show_nat (group_index + 1) @ '', Vocal'' in
        (case split_music_line (gb_line block) context of
           Inl e \<Rightarrow> Inl (Notation e)
         | Inr bodies \<Rightarrow>
             (case rewrite_bars sc entries (g_first_bar g) bodies of
                Inl e \<Rightarrow> Inl e
              | Inr rewritten \<Rightarrow>
                  let segments = split_on (CHR ''|'') (butlast (gb_line block)) in
                  (case rewrite_groups sc entries (group_index + 1) gs of
                     Inl e \<Rightarrow> Inl e
                   | Inr rest \<Rightarrow>
                       Inr ((gb_line_index block, join_with ''|'' (out_segments bodies rewritten segments) @ ''|'') # rest)))))"

definition reharmonize :: "score \<Rightarrow> chord_change list \<Rightarrow> edit_error + string" where
  "reharmonize sc changes =
     (if changes = [] \<or> length changes > MAX_CHORD_CHANGES then Inl ChangeCountOutOfRange
      else case resolve_changes sc [] changes of
        Inl e \<Rightarrow> Inl e
      | Inr entries \<Rightarrow>
          (case rewrite_groups sc entries 0 (sc_groups sc) of
             Inl e \<Rightarrow> Inl e
           | Inr replacements \<Rightarrow> Inr (rebuild_lines (sc_text sc) replacements)))"

subsection \<open>Stripping chords\<close>

text \<open>Dropping the chords of a music line, and with them the notes of a silenced voice.\<close>

function strip_line :: "bool \<Rightarrow> string \<Rightarrow> string" where
  "strip_line silence [] = []"
| "strip_line silence (c # cs) =
     (case lex_token (c # cs) of
        Some (TChord _, rest) \<Rightarrow> strip_line silence rest
      | Some (TNote n, rest) \<Rightarrow>
          if silence \<and> t_note n \<noteq> CHR ''z'' then [CHR ''z''] @ t_duration n @ strip_line silence rest
          else take (length (c # cs) - length rest) (c # cs) @ strip_line silence rest
      | Some (TKey _, rest) \<Rightarrow> take (length (c # cs) - length rest) (c # cs) @ strip_line silence rest
      | None \<Rightarrow> c # strip_line silence cs)"
  by pat_completeness auto
termination
  by (relation "measure (\<lambda>(_, s). length s)") (auto dest: lex_token_shorter)

definition strip_chords :: "score \<Rightarrow> keep_voice \<Rightarrow> string" where
  "strip_chords sc keep =
     rebuild_lines (sc_text sc)
       (concat (map (\<lambda>g. map (\<lambda>(voice_index, block).
          let silence = (case keep of KeepBoth \<Rightarrow> False | KeepVocal \<Rightarrow> voice_index = 1 | KeepIns \<Rightarrow> voice_index = 0) in
          (gb_line_index block, strip_line silence (gb_line block))) (enumerate 0 (g_blocks g))) (sc_groups sc)))"

subsection \<open>Sections\<close>

definition section_end_state :: "score \<Rightarrow> nat \<Rightarrow> meter \<times> string" where
  "section_end_state sc section_index =
     (let sec = sc_sections sc ! section_index; end = frac_add (sec_start sec) (sec_length sec);
          vocal = fst (sc_voices sc);
          last_bar = vt_bars vocal ! (sec_first_bar sec + sec_bar_count sec - 1);
          key = (case find (\<lambda>event. frac_less (k_onset event) end) (rev (vt_keys vocal)) of
                   Some event \<Rightarrow> k_key event | None \<Rightarrow> sc_header_key sc) in
      (b_meter last_bar, key))"

definition meter_show :: "meter \<Rightarrow> string" where
  "meter_show m = show_nat (m_numerator m) @ ''/'' @ show_nat (m_denominator m)"

definition arrange_block :: "sect \<Rightarrow> bool \<Rightarrow> meter \<Rightarrow> string \<Rightarrow> nat \<times> group_voice_block \<Rightarrow> string list" where
  "arrange_block sec first running_meter running_key vb =
     (case vb of (voice_index, block) \<Rightarrow>
        let has = (\<lambda>field. list_ex (\<lambda>(name, _). name = field) (gb_fields block)) in
        [''V: '' @ VOICE_NAMES ! voice_index]
        @ (if first then
             (if sec_inherited_meter sec \<noteq> running_meter \<and> \<not> has (CHR ''M'') then [''M:'' @ meter_show (sec_inherited_meter sec)] else [])
             @ (if sec_inherited_key sec \<noteq> running_key \<and> \<not> has (CHR ''K'') then [''K:'' @ sec_inherited_key sec] else [])
           else [])
        @ map (\<lambda>(name, value). [name] @ '':'' @ value) (gb_fields block)
        @ [gb_line block])"

definition arrange_section :: "score \<Rightarrow> meter \<Rightarrow> string \<Rightarrow> nat \<Rightarrow> string list" where
  "arrange_section sc running_meter running_key section_index =
     (let sec = sc_sections sc ! section_index in
      concat (map (\<lambda>(offset, group_index).
        let g = sc_groups sc ! group_index in
        g_comments g @ concat (map (arrange_block sec (offset = 0) running_meter running_key) (enumerate 0 (g_blocks g))))
        (enumerate 0 [fst (sec_groups sec)..<snd (sec_groups sec)])))"

fun arrange_loop :: "score \<Rightarrow> meter \<Rightarrow> string \<Rightarrow> nat list \<Rightarrow> string list" where
  "arrange_loop sc m k [] = []"
| "arrange_loop sc m k (i # order) =
     arrange_section sc m k i @ (case section_end_state sc i of (m, k) \<Rightarrow> arrange_loop sc m k order)"

definition arrange_sections :: "score \<Rightarrow> nat list \<Rightarrow> edit_error + string" where
  "arrange_sections sc order =
     (case find (\<lambda>i. sec_open_tie (sc_sections sc ! i)) order of
        Some i \<Rightarrow> Inl (SectionEndsInTie i)
      | None \<Rightarrow>
          let first = sc_sections sc ! hd order;
              header = (take 8 (text_lines (sc_text sc)))[2 := ''M:'' @ meter_show (sec_inherited_meter first),
                                                          7 := ''K:'' @ sec_inherited_key first] in
          Inr (join_with (line_ending (sc_text sc))
                 (header @ arrange_loop sc (sec_inherited_meter first) (sec_inherited_key first) order)
               @ (if sc_text sc \<noteq> [] \<and> last (sc_text sc) = CHR 0x0A then line_ending (sc_text sc) else [])))"

section \<open>Durations add up\<close>

lemma piece_exists: "0 < units \<Longrightarrow> \<exists>p. find (\<lambda>v. v \<le> units) (rev DURATIONS) = Some p"
proof (rule ccontr)
  assume "0 < units" "\<nexists>p. find (\<lambda>v. v \<le> units) (rev DURATIONS) = Some p"
  then have "\<not> (\<exists>v\<in>set DURATIONS. v \<le> units)" by (auto simp: find_None_iff)
  then show False using \<open>0 < units\<close> by (simp add: DURATIONS_def)
qed

lemma duration_pieces_step:
  assumes "0 < units"
  obtains p where "duration_pieces units = p # duration_pieces (units - p)" "0 < p" "p \<le> units" "p \<in> set DURATIONS"
  using piece_exists [OF assms] find_piece assms that by (metis duration_pieces.simps option.case(2))

lemma duration_pieces_sum: "sum_list (duration_pieces units) = units"
proof (induction units rule: less_induct)
  case (less units)
  show ?case
  proof (cases "units = 0")
    case False
    then obtain p where "duration_pieces units = p # duration_pieces (units - p)" "0 < p" "p \<le> units"
      using duration_pieces_step [of units] by auto
    with less [of "units - p"] show ?thesis by simp
  qed (simp add: duration_pieces.simps)
qed

lemma duration_pieces_supported: "p \<in> set (duration_pieces units) \<Longrightarrow> p \<in> set DURATIONS"
proof (induction units rule: less_induct)
  case (less units)
  show ?case
  proof (cases "units = 0")
    case False
    then obtain q where q: "duration_pieces units = q # duration_pieces (units - q)" "0 < q" "q \<le> units" "q \<in> set DURATIONS"
      using duration_pieces_step [of units] by auto
    with less.IH [of "units - q"] less.prems show ?thesis by (cases "p = q") auto
  qed (use less.prems in \<open>simp add: duration_pieces.simps\<close>)
qed

lemma token_units_text:
  assumes "p \<in> set DURATIONS"
  shows "token_units (duration_text p) = Some p"
proof -
  have "length (show_nat p) \<le> 9 \<and> show_nat p \<noteq> []"
    using assms by (auto simp: DURATIONS_def show_nat_small show_nat_snoc)
  then show ?thesis
    using assms by (auto simp: token_units_def duration_text_def parse_u32_def digits_value_show_nat DURATIONS_def)
qed

text \<open>
  Every number of units is decomposed: the pieces are supported token lengths that add up to it,
  each is written as text that is read back as the same length, and the decomposition ends.
\<close>

theorem duration_pieces_exact:
  "sum_list (duration_pieces units) = units \<and>
   (\<forall>p\<in>set (duration_pieces units). p \<in> set DURATIONS \<and> token_units (duration_text p) = Some p)"
  using duration_pieces_sum duration_pieces_supported token_units_text by blast

theorem duration_pieces_exact_witness:
  "sum_list (duration_pieces 61) = 61 \<and> (\<forall>p\<in>set (duration_pieces 61). token_units (duration_text p) = Some p)"
  using duration_pieces_exact [of 61] by blast

section \<open>Splitting a note keeps what sounds\<close>

text \<open>The loop of a measure over tokens, as \<open>bar_loop\<close> runs it over their text.\<close>

fun bar_tokens :: "string \<Rightarrow> frac \<Rightarrow> frac \<Rightarrow> frac \<Rightarrow> token list \<Rightarrow> bar_state \<Rightarrow> abc_error + bar_state" where
  "bar_tokens ctx unit len start [] s = Inr s"
| "bar_tokens ctx unit len start (t # ts) s =
     (if frac_le len (s_offset s) then Inl (EventAfterMeasure ctx)
      else case bar_token ctx unit len start t s of
        Inl e \<Rightarrow> Inl e
      | Inr s \<Rightarrow> bar_tokens ctx unit len start ts s)"

lemma bar_loop_tokens:
  "lex_body body = Some ts \<Longrightarrow> bar_loop ctx unit len start body s = bar_tokens ctx unit len start ts s"
proof (induction body arbitrary: ts s rule: lex_body.induct)
  case (2 c cs)
  show ?case
  proof (cases "is_whitespace c")
    case True
    with 2 show ?thesis by simp
  next
    case False
    then obtain t rest us where "lex_token (c # cs) = Some (t, rest)" "lex_body rest = Some us" "ts = t # us"
      using 2(3) by (auto split: option.splits)
    with False 2(2) show ?thesis by (auto split: sum.splits)
  qed
qed simp

lemma bar_tokens_append:
  "bar_tokens ctx unit len start (ts @ us) s =
    (case bar_tokens ctx unit len start ts s of Inl e \<Rightarrow> Inl e | Inr s \<Rightarrow> bar_tokens ctx unit len start us s)"
  by (induction ts arbitrary: s) (auto split: sum.split)

text \<open>A note of a number of units, supported as one token or not.\<close>

definition unit_duration :: "frac \<Rightarrow> nat \<Rightarrow> frac" where
  "unit_duration unit units = frac_mul (frac_mul (frac_int (int units)) unit) (frac_int 4)"

definition note_units ::
  "string \<Rightarrow> frac \<Rightarrow> frac \<Rightarrow> frac \<Rightarrow> note_token \<Rightarrow> nat \<Rightarrow> bar_state \<Rightarrow> abc_error + bar_state" where
  "note_units ctx unit len start n units s =
     (let length_of = unit_duration unit units in
      if frac_less len (frac_add (s_offset s) length_of) then Inl (ExceedsMeter ctx)
      else if CHR '','' \<in> set (t_octave n) \<and> CHR 0x27 \<in> set (t_octave n) then Inl (MixedOctaves ctx)
      else
        (case (if t_note n = CHR ''z'' then
                 if t_accidental n \<noteq> None \<or> t_octave n \<noteq> [] \<or> t_tie n then Inl (MarkedRest ctx)
                 else if v_pending (s_voice s) \<noteq> None then Inl (TieEntersRest ctx)
                 else Inr s
               else sound_note ctx (frac_add start (s_offset s)) n length_of s) of
           Inl e \<Rightarrow> Inl e
         | Inr s \<Rightarrow> Inr (s\<lparr> s_offset := frac_add (s_offset s) length_of \<rparr>)))"

lemma bar_note_units:
  "token_units (t_duration n) = Some units \<Longrightarrow> bar_note ctx unit len start n s = note_units ctx unit len start n units s"
  by (simp add: bar_note_def note_units_def unit_duration_def)

lemma sound_note_duration: "sound_note ctx onset (n\<lparr> t_duration := d \<rparr>) = sound_note ctx onset n"
  by (intro ext) (simp add: sound_note_def Let_def cong: option.case_cong sum.case_cong if_cong)

lemma note_units_duration:
  "note_units ctx unit len start (n\<lparr> t_duration := d \<rparr>) = note_units ctx unit len start n"
  by (intro ext) (simp add: note_units_def sound_note_duration Let_def)

lemma unit_duration_add:
  assumes "frac_ok unit"
  shows "frac_ok (unit_duration unit k)" "unit_duration unit (a + b) = frac_add (unit_duration unit a) (unit_duration unit b)"
proof -
  show ok: "frac_ok (unit_duration unit k)" for k using assms by (simp add: unit_duration_def)
  have "val (unit_duration unit (a + b)) = val (frac_add (unit_duration unit a) (unit_duration unit b))"
    using assms ok by (simp add: unit_duration_def algebra_simps)
  then show "unit_duration unit (a + b) = frac_add (unit_duration unit a) (unit_duration unit b)"
    using ok by (simp add: frac_eq_val)
qed

lemma frac_add_assoc:
  "frac_ok a \<Longrightarrow> frac_ok b \<Longrightarrow> frac_ok c \<Longrightarrow> frac_add (frac_add a b) c = frac_add a (frac_add b c)"
  by (simp add: frac_eq_val)

text \<open>A sounding note is its first part, tied, followed by the rest.\<close>

lemma sound_note_split:
  assumes "sound_note ctx onset n (frac_add a b) s = Inr t" "frac_ok a" "frac_ok b"
    "v_pending (s_voice s) \<noteq> None \<longrightarrow> frac_ok (n_duration (last (vt_notes (v_track (s_voice s)))))"
  shows "\<exists>u. sound_note ctx onset (n\<lparr> t_tie := True \<rparr>) a s = Inr u \<and> s_offset u = s_offset s \<and>
    (\<forall>onset' off. sound_note ctx onset' n b (u\<lparr> s_offset := off \<rparr>) = Inr (t\<lparr> s_offset := off \<rparr>))"
proof -
  let ?i = "letter_index (to_ascii_uppercase (t_note n))" and ?w = "written_pitch (t_note n) (t_octave n)"
  obtain inh where inh: "inherited_alteration s ?i = Inr inh"
    using assms(1) by (auto simp: sound_note_def Let_def split: sum.splits)
  define loc where "loc = (case t_accidental n of Some mark \<Rightarrow> (s_local s)[?i := Some (alteration mark)] | None \<Rightarrow> s_local s)"
  have again: "\<exists>inh'. inherited_alteration (s\<lparr> s_local := loc, s_voice := v, s_offset := off \<rparr>) ?i = Inr inh'"
    if "v_key v = v_key (s_voice s)" for v off
    using inh that
    by (cases "?i < length (s_local s)")
       (auto simp: inherited_alteration_def loc_def list_update_beyond split: option.splits sum.splits)
  define alter where "alter = (case t_accidental n of Some mark \<Rightarrow> alteration mark | None \<Rightarrow> inh)"
  have local_again: "(case t_accidental n of Some mark \<Rightarrow> loc[?i := Some (alteration mark)] | None \<Rightarrow> loc) = loc"
    by (simp add: loc_def split: option.split)
  show ?thesis
  proof (cases "v_pending (s_voice s)")
    case None
    let ?v = "\<lambda>d p. (s_voice s)\<lparr> v_track := (v_track (s_voice s))\<lparr> vt_notes := vt_notes (v_track (s_voice s)) @
        [\<lparr> n_onset = onset, n_pitch = ?w + alter, n_duration = d \<rparr>] \<rparr>, v_pending := p \<rparr>"
    let ?u = "s\<lparr> s_local := loc, s_voice := ?v a (Some (?w + alter, ?w)) \<rparr>"
    have range: "0 \<le> ?w + alter" "?w + alter \<le> 127"
      and t: "t = s\<lparr> s_local := loc, s_voice := ?v (frac_add a b) (if t_tie n then Some (?w + alter, ?w) else None) \<rparr>"
      using assms(1) None inh by (auto simp: sound_note_def Let_def loc_def alter_def split: if_splits)
    have first: "sound_note ctx onset (n\<lparr> t_tie := True \<rparr>) a s = Inr ?u"
      using None inh range by (simp add: sound_note_def Let_def loc_def alter_def)
    have "sound_note ctx onset' n b (?u\<lparr> s_offset := off \<rparr>) = Inr (t\<lparr> s_offset := off \<rparr>)" for onset' off
    proof -
      obtain inh' where "inherited_alteration (?u\<lparr> s_offset := off \<rparr>) ?i = Inr inh'"
        using again [of "?v a (Some (?w + alter, ?w))" off] by auto
      then show ?thesis
        using local_again
        by (cases "t_accidental n") (simp_all add: sound_note_def Let_def t alter_def)
    qed
    with first show ?thesis by (intro exI [of _ ?u]) simp
  next
    case (Some p)
    obtain old_pitch old_written where p: "p = (old_pitch, old_written)" by fastforce
    let ?ns = "vt_notes (v_track (s_voice s))"
    let ?v = "\<lambda>d q. (s_voice s)\<lparr> v_track := (v_track (s_voice s))\<lparr> vt_notes := butlast ?ns @
        [(last ?ns)\<lparr> n_duration := frac_add (n_duration (last ?ns)) d \<rparr>] \<rparr>, v_pending := q \<rparr>"
    let ?u = "s\<lparr> s_local := loc, s_voice := ?v a (Some (old_pitch, ?w)) \<rparr>"
    have same: "(if t_accidental n = None \<and> ?w = old_written then old_pitch else ?w + alter) = old_pitch"
      and t: "t = s\<lparr> s_local := loc, s_voice := ?v (frac_add a b) (if t_tie n then Some (old_pitch, ?w) else None) \<rparr>"
      using assms(1) Some p inh by (auto simp: sound_note_def Let_def loc_def alter_def split: if_splits)
    have first: "sound_note ctx onset (n\<lparr> t_tie := True \<rparr>) a s = Inr ?u"
      using Some p inh same by (auto simp: sound_note_def Let_def loc_def alter_def split: if_splits)
    have "sound_note ctx onset' n b (?u\<lparr> s_offset := off \<rparr>) = Inr (t\<lparr> s_offset := off \<rparr>)" for onset' off
    proof -
      obtain inh' where "inherited_alteration (?u\<lparr> s_offset := off \<rparr>) ?i = Inr inh'"
        using again [of "?v a (Some (old_pitch, ?w))" off] by auto
      moreover have "frac_add (frac_add (n_duration (last ?ns)) a) b = frac_add (n_duration (last ?ns)) (frac_add a b)"
        using assms(2-4) Some by (simp add: frac_add_assoc)
      ultimately show ?thesis
        using local_again same
        by (cases "t_accidental n") (auto simp: sound_note_def Let_def t alter_def split: if_splits)
    qed
    with first show ?thesis by (intro exI [of _ ?u]) simp
  qed
qed

text \<open>The conditions a measure is read under.\<close>

definition reading :: "frac \<Rightarrow> frac \<Rightarrow> frac \<Rightarrow> bar_state \<Rightarrow> bool" where
  "reading unit len start s \<longleftrightarrow>
     frac_ok unit \<and> 0 < val unit \<and> frac_ok len \<and> start = v_time (s_voice s) \<and> bar_ok len s"

lemma reading_token:
  assumes "reading unit len start s" "bar_token ctx unit len start t s = Inr u"
  shows "reading unit len start u"
  using bar_token_ok [OF assms(2)] assms(1) by (auto simp: reading_def same_frame_def)

lemma note_units_split:
  assumes "note_units ctx unit len start n (a + b) s = Inr t" "0 < b" "reading unit len start s"
  shows "\<exists>u. note_units ctx unit len start (n\<lparr> t_tie := (t_note n \<noteq> CHR ''z'') \<rparr>) a s = Inr u \<and>
    \<not> frac_le len (s_offset u) \<and> note_units ctx unit len start n b u = Inr t"
proof -
  let ?a = "unit_duration unit a" and ?b = "unit_duration unit b"
  have ok: "frac_ok ?a" "frac_ok ?b" "frac_ok (s_offset s)" "frac_ok len" "0 < val ?b" "0 \<le> val ?a"
    using assms(2,3) unit_duration_add(1) by (auto simp: reading_def bar_ok_def unit_duration_def)
  have ab: "unit_duration unit (a + b) = frac_add ?a ?b" using assms(3) by (simp add: reading_def unit_duration_add(2))
  note add = frac_add_assoc [OF ok(3,1,2)]
  have fits: "val (s_offset s) + val ?a + val ?b \<le> val len"
    using assms(1) ok by (auto simp: note_units_def Let_def ab frac_less_val split: if_splits)
  have guards: "\<not> frac_less len (frac_add (s_offset s) ?a)" "\<not> frac_less len (frac_add (frac_add (s_offset s) ?a) ?b)"
      "\<not> frac_le len (frac_add (s_offset s) ?a)"
    using fits ok by (simp_all add: frac_less_val frac_le_val)
  have octaves: "\<not> (CHR '','' \<in> set (t_octave n) \<and> CHR 0x27 \<in> set (t_octave n))"
    using assms(1) by (auto simp: note_units_def Let_def split: if_splits)
  show ?thesis
  proof (cases "t_note n = CHR ''z''")
    case True
    then have rest: "t_accidental n = None" "t_octave n = []" "\<not> t_tie n" "v_pending (s_voice s) = None"
      and t: "t = s\<lparr> s_offset := frac_add (s_offset s) (frac_add ?a ?b) \<rparr>"
      using assms(1) by (auto simp: note_units_def Let_def ab split: if_splits simp del: not_None_eq split_paired_Ex)
    then show ?thesis
      using True guards add by (intro exI [of _ "s\<lparr> s_offset := frac_add (s_offset s) ?a \<rparr>"]) (simp add: note_units_def Let_def)
  next
    case False
    then obtain t0 where t0: "sound_note ctx (frac_add start (s_offset s)) n (frac_add ?a ?b) s = Inr t0"
      and t: "t = t0\<lparr> s_offset := frac_add (s_offset t0) (frac_add ?a ?b) \<rparr>"
      using assms(1) by (auto simp: note_units_def Let_def ab split: if_splits sum.splits)
    have dur: "v_pending (s_voice s) \<noteq> None \<longrightarrow> frac_ok (n_duration (last (vt_notes (v_track (s_voice s)))))"
      using assms(3) by (auto simp: reading_def bar_ok_def voice_ok_def pending_ok_def notes_ok_def note_ok_def
          split: option.splits)
    obtain u where u: "sound_note ctx (frac_add start (s_offset s)) (n\<lparr> t_tie := True \<rparr>) ?a s = Inr u" "s_offset u = s_offset s"
      and again: "\<And>onset' off. sound_note ctx onset' n ?b (u\<lparr> s_offset := off \<rparr>) = Inr (t0\<lparr> s_offset := off \<rparr>)"
      using sound_note_split [OF t0 ok(1,2) dur] by blast
    have "s_offset t0 = s_offset s" using t0
      by (auto simp: sound_note_def Let_def split: sum.splits option.splits if_splits)
    then show ?thesis
      using False guards octaves u again add
      by (intro exI [of _ "u\<lparr> s_offset := frac_add (s_offset s) ?a \<rparr>"]) (simp add: note_units_def Let_def t)
  qed
qed

text \<open>The tokens of a list of pieces: all tied but the last.\<close>

definition piece_tokens :: "note_token \<Rightarrow> nat list \<Rightarrow> token list" where
  "piece_tokens n ps = map (\<lambda>p. piece_token n p False) (butlast ps) @ [piece_token n (last ps) True]"

lemma piece_note_units:
  assumes "p \<in> set DURATIONS"
  shows "bar_token ctx unit len start (piece_token n p last_piece) s =
    note_units ctx unit len start (n\<lparr> t_tie := (if t_note n = CHR ''z'' then False else if last_piece then t_tie n else True) \<rparr>) p s"
proof -
  let ?n = "n\<lparr> t_tie := (if t_note n = CHR ''z'' then False else if last_piece then t_tie n else True) \<rparr>"
  have "piece_token n p last_piece = TNote (?n\<lparr> t_duration := duration_text p \<rparr>)" by (simp add: piece_token_def)
  then show ?thesis
    using token_units_text [OF assms] bar_note_units [of "?n\<lparr> t_duration := duration_text p \<rparr>" p]
    by (simp add: bar_token_def note_units_duration)
qed

lemma bar_tokens_pieces:
  assumes "ps \<noteq> []" "set ps \<subseteq> set DURATIONS" "note_units ctx unit len start n (sum_list ps) s = Inr t"
    "reading unit len start s" "\<not> frac_le len (s_offset s)"
  shows "bar_tokens ctx unit len start (piece_tokens n ps) s = Inr t"
  using assms
proof (induction ps arbitrary: s)
  case (Cons p ps)
  show ?case
  proof (cases "ps = []")
    case True
    have "t_note n = CHR ''z'' \<Longrightarrow> n\<lparr> t_tie := False \<rparr> = n"
      using Cons.prems(3) by (cases n) (auto simp: note_units_def Let_def split: if_splits)
    then show ?thesis
      using True Cons.prems
      by (cases "t_note n = CHR ''z''") (auto simp: piece_tokens_def piece_note_units)
  next
    case False
    then have "0 < sum_list ps" using Cons.prems(2) by (cases ps) (auto simp: DURATIONS_def)
    then obtain u where u: "note_units ctx unit len start (n\<lparr> t_tie := (t_note n \<noteq> CHR ''z'') \<rparr>) p s = Inr u"
      "\<not> frac_le len (s_offset u)" "note_units ctx unit len start n (sum_list ps) u = Inr t"
      using note_units_split [of ctx unit len start n p "sum_list ps" s t] Cons.prems by auto
    have token: "bar_token ctx unit len start (piece_token n p False) s = Inr u"
      using u(1) Cons.prems(2) by (cases "t_note n = CHR ''z''") (simp_all add: piece_note_units)
    have "bar_tokens ctx unit len start (piece_tokens n ps) u = Inr t"
      using Cons.IH [OF False _ u(3) reading_token [OF Cons.prems(4) token] u(2)] Cons.prems(2) by simp
    then show ?thesis using False token Cons.prems(5) by (simp add: piece_tokens_def)
  qed
qed simp

lemma map_enumerate_False:
  "(\<And>j. j < length ys \<Longrightarrow> \<not> Q (k + j)) \<Longrightarrow> map (\<lambda>(j, p). f p (Q j)) (enumerate k ys) = map (\<lambda>p. f p False) ys"
proof (induction ys arbitrary: k)
  case (Cons y ys)
  then show ?case using Cons.prems [of 0] Cons.prems [of "Suc _"] by simp
qed simp

lemma enumerate_last:
  assumes "ps \<noteq> []"
  shows "map (\<lambda>(j, p). f p (j + 1 = length ps)) (enumerate 0 ps) = map (\<lambda>p. f p False) (butlast ps) @ [f (last ps) True]"
proof -
  obtain ys y where ps: "ps = ys @ [y]" using assms by (metis append_butlast_last_id)
  have "map (\<lambda>(j, p). f p (j + 1 = length ps)) (enumerate 0 ys) = map (\<lambda>p. f p False) ys"
    by (rule map_enumerate_False) (simp add: ps)
  then show ?thesis by (simp add: ps enumerate_append_eq)
qed

lemma duration_pieces_Nil [simp]: "duration_pieces u = [] \<longleftrightarrow> u = 0"
  using duration_pieces_sum [of u] by (auto simp: duration_pieces.simps [of 0])

lemma split_token_pieces:
  assumes "parts \<noteq> []" "0 < last parts"
  shows "split_token n parts = piece_tokens n (concat (map duration_pieces parts))"
proof -
  obtain xs x where parts: "parts = xs @ [x]" using assms(1) by (metis append_butlast_last_id)
  let ?f = "\<lambda>part is_last. let part_pieces = duration_pieces part in
      map (\<lambda>(j, p). piece_token n p (is_last \<and> j + 1 = length part_pieces)) (enumerate 0 part_pieces)"
  have plain: "?f part False = map (\<lambda>p. piece_token n p False) (duration_pieces part)" for part
    using map_enumerate_False [of "duration_pieces part" "\<lambda>_. False" 0 "piece_token n"] by (simp add: Let_def)
  have final: "?f x True = piece_tokens n (duration_pieces x)"
    using enumerate_last [of "duration_pieces x" "piece_token n"] assms(2) parts by (simp add: Let_def piece_tokens_def)
  have "split_token n parts = concat (map (\<lambda>(i, part). ?f part (i + 1 = length parts)) (enumerate 0 parts))"
    by (simp add: split_token_def Let_def)
  also have "\<dots> = concat (map (\<lambda>part. ?f part False) xs @ [?f x True])"
    using enumerate_last [of parts ?f] by (simp only: parts butlast_snoc last_snoc) simp
  finally have split: "split_token n parts = concat (map (\<lambda>part. map (\<lambda>p. piece_token n p False) (duration_pieces part)) xs)
      @ piece_tokens n (duration_pieces x)"
    by (simp only: plain final) simp
  have "duration_pieces x \<noteq> []" using assms(2) parts by simp
  then show ?thesis by (simp add: split [unfolded parts] parts piece_tokens_def butlast_append map_concat comp_def)
qed

lemma split_pieces_heard:
  assumes "bar_token ctx unit len start (TNote n) s = Inr t" "reading unit len start s" "\<not> frac_le len (s_offset s)"
    "token_units (t_duration n) = Some (sum_list parts)" "parts \<noteq> []" "0 < last parts"
  shows "bar_tokens ctx unit len start (split_token n parts) s = Inr t"
proof -
  let ?ps = "concat (map duration_pieces parts)"
  have "sum_list ?ps = sum_list parts" by (induction parts) (auto simp: duration_pieces_sum)
  moreover have "?ps \<noteq> []" using assms(5,6) by (metis concat_eq_Nil_conv duration_pieces_Nil last_in_set last_map less_irrefl list.map_disc_iff)
  moreover have "set ?ps \<subseteq> set DURATIONS" using duration_pieces_supported by auto
  ultimately show ?thesis
    using assms bar_note_units [OF assms(4)] by (simp add: split_token_pieces bar_tokens_pieces bar_token_def)
qed

text \<open>
  Splitting a note does not change the music: where a measure reads a note or a rest, reading the
  tied pieces it is split into, in any parts that add up to its length, ends in the same state: the
  same sounding notes, accidentals, open tie and position.
\<close>

theorem split_token_same_sound:
  assumes "bar_token ctx unit len start (TNote n) s = Inr t" "reading unit len start s" "\<not> frac_le len (s_offset s)"
    "token_units (t_duration n) = Some (sum_list parts)" "parts \<noteq> []" "0 < last parts"
  shows "bar_tokens ctx unit len start (split_token n parts) s = Inr t"
  using assms by (rule split_pieces_heard)

section \<open>Chords do not change what sounds\<close>

definition hush :: "bar_state \<Rightarrow> bar_state" where
  "hush s = s\<lparr> s_voice := (s_voice s)\<lparr> v_track := (v_track (s_voice s))\<lparr> vt_chords := [] \<rparr> \<rparr> \<rparr>"

lemma hush_hush [simp]: "hush (hush s) = hush s" and hush_offset [simp]: "s_offset (hush s) = s_offset s"
  by (simp_all add: hush_def)

lemma bar_state_explicit:
  obtains off loc m k tm p ns bs cs ks where
    "s = \<lparr> s_offset = off, s_local = loc, s_voice = \<lparr> v_meter = m, v_key = k, v_time = tm, v_pending = p,
       v_track = \<lparr> vt_notes = ns, vt_bars = bs, vt_chords = cs, vt_keys = ks \<rparr> \<rparr> \<rparr>"
  by (metis bar_state.cases voice_state.cases voice_track.cases)

lemma hush_inherited: "inherited_alteration (hush s) i = inherited_alteration s i"
  by (simp add: inherited_alteration_def hush_def split: option.split)

lemma hush_sound_note: "map_sum id hush (sound_note ctx onset n d s) = sound_note ctx onset n d (hush s)"
proof (cases "inherited_alteration s (letter_index (to_ascii_uppercase (t_note n)))")
  case (Inl e)
  then show ?thesis by (simp add: sound_note_def hush_inherited)
next
  case (Inr inh)
  then show ?thesis
    using hush_inherited [of s "letter_index (to_ascii_uppercase (t_note n))"]
    by (cases rule: bar_state_explicit [of s])
       (auto simp: sound_note_def hush_def Let_def split: option.split)
qed

lemma hush_bar_note: "map_sum id hush (bar_note ctx unit len start n s) = bar_note ctx unit len start n (hush s)"
proof (cases "token_units (t_duration n)")
  case (Some k)
  let ?on = "frac_add start (s_offset s)" and ?d = "unit_duration unit k"
  have pending: "v_pending (s_voice (hush s)) = v_pending (s_voice s)" by (simp add: hush_def)
  have "sound_note ctx ?on n ?d (hush s) = map_sum id hush (sound_note ctx ?on n ?d s)" by (simp add: hush_sound_note)
  with Some pending show ?thesis
    by (cases "sound_note ctx ?on n ?d s") (simp_all add: bar_note_units note_units_def Let_def, simp_all add: hush_def)
qed (simp add: bar_note_def)

lemma hush_token:
  "map_sum id hush (bar_token ctx unit len start t (hush s)) = map_sum id hush (bar_token ctx unit len start t s)"
proof (cases t)
  case (TNote n)
  then show ?thesis by (simp add: bar_token_def hush_bar_note [symmetric] sum.map_comp comp_def id_def)
qed (rule bar_state_explicit [of s], auto simp: bar_token_def Let_def hush_def split: sum.split)+

text \<open>What a list of tokens leaves, chords aside.\<close>

definition heard ::
  "string \<Rightarrow> frac \<Rightarrow> frac \<Rightarrow> frac \<Rightarrow> token list \<Rightarrow> bar_state \<Rightarrow> abc_error + bar_state" where
  "heard ctx unit len start ts s = map_sum id hush (bar_tokens ctx unit len start ts s)"

lemma heard_hush: "hush s = hush s' \<Longrightarrow> heard ctx unit len start ts s = heard ctx unit len start ts s'"
proof (induction ts arbitrary: s s')
  case (Cons t ts)
  have off: "s_offset s = s_offset s'" using Cons.prems by (metis hush_offset)
  have same: "map_sum id hush (bar_token ctx unit len start t s) = map_sum id hush (bar_token ctx unit len start t s')"
    using hush_token [of ctx unit len start t s] hush_token [of ctx unit len start t s'] Cons.prems by simp
  show ?case
  proof (cases "bar_token ctx unit len start t s")
    case (Inl e)
    with same off show ?thesis by (cases "bar_token ctx unit len start t s'") (simp_all add: heard_def)
  next
    case (Inr u)
    with same obtain u' where u': "bar_token ctx unit len start t s' = Inr u'" "hush u = hush u'"
      by (cases "bar_token ctx unit len start t s'") auto
    with Inr off Cons.IH [OF u'(2)] show ?thesis by (simp add: heard_def)
  qed
qed (simp add: heard_def)

lemma heard_append:
  assumes "bar_tokens ctx unit len start ts s = Inr u"
  shows "heard ctx unit len start (ts @ us) s = heard ctx unit len start us u"
  using assms by (simp add: heard_def bar_tokens_append)

lemma chord_hushed:
  "bar_token ctx unit len start (TChord c) s = Inr u \<Longrightarrow> hush u = hush s"
  by (auto simp: bar_token_def Let_def hush_def split: if_splits)

text \<open>Chords that are read can be left out.\<close>

lemma drop_chords_heard:
  assumes "bar_tokens ctx unit len start (ts @ us) s = Inr t"
  shows "heard ctx unit len start (filter (\<lambda>t. \<not> is_chord t) ts @ us) s = Inr (hush t)"
  using assms
proof (induction ts arbitrary: s)
  case Nil
  then show ?case by (simp add: heard_def)
next
  case (Cons x ts)
  then obtain u where x: "\<not> frac_le len (s_offset s)" "bar_token ctx unit len start x s = Inr u"
    and rest: "bar_tokens ctx unit len start (ts @ us) u = Inr t"
    by (auto split: if_splits sum.splits)
  show ?case
  proof (cases "is_chord x")
    case True
    then obtain c where "x = TChord c" by (cases x) (auto simp: is_chord_def)
    then have "hush u = hush s" using x(2) chord_hushed by simp
    with heard_hush [OF this] Cons.IH [OF rest] True show ?thesis by simp
  next
    case False
    with x Cons.IH [OF rest] show ?thesis by (simp add: heard_def)
  qed
qed

text \<open>A native chord can be put in front of anything that is read.\<close>

lemma add_chord_heard:
  assumes "heard ctx unit len start (us @ q # qs) s = Inr t" "is_native_chord c"
  shows "heard ctx unit len start (us @ TChord c # q # qs) s = Inr t"
proof -
  obtain u where u: "bar_tokens ctx unit len start us s = Inr u"
    using assms(1) by (cases "bar_tokens ctx unit len start us s") (auto simp: heard_def bar_tokens_append)
  have rest: "heard ctx unit len start (q # qs) u = Inr t" using assms(1) heard_append [OF u] by metis
  then have "\<not> frac_le len (s_offset u)" by (auto simp: heard_def split: if_splits)
  moreover obtain w where w: "bar_token ctx unit len start (TChord c) u = Inr w"
    using assms(2) by (simp add: bar_token_def Let_def)
  ultimately have "heard ctx unit len start (TChord c # q # qs) u = heard ctx unit len start (q # qs) w"
    by (simp add: heard_def)
  also have "\<dots> = Inr t" using rest heard_hush [OF chord_hushed [OF w]] by simp
  finally show ?thesis using heard_append [OF u] by simp
qed

section \<open>Placing a chord\<close>

lemma remove_chords_filter:
  "remove_chords (A @ M @ Q) (length A) (length A + length M) r =
    (A @ filter (\<lambda>t. \<not> is_chord t) M @ Q, length A + length (filter (\<lambda>t. \<not> is_chord t) M), r \<or> list_ex is_chord M)"
proof (induction M arbitrary: A r)
  case Nil
  then show ?case by (simp add: remove_chords.simps [of "A @ Q"])
next
  case (Cons x M)
  show ?case
  proof (cases "is_chord x")
    case True
    with Cons [of A True] show ?thesis by (simp add: remove_chords.simps [of "A @ x # M @ Q"])
  next
    case False
    with Cons [of "A @ [x]" r] show ?thesis by (simp add: remove_chords.simps [of "A @ x # M @ Q"])
  qed
qed

lemma chords_start_le: "chords_start ts p \<le> p"
  by (induction p) (auto intro: le_SucI)

lemma find_onset_Some:
  "find_onset onset i off ts = Some (j, o', k) \<Longrightarrow>
    \<exists>pre t post. ts = pre @ t # post \<and> j = i + length pre \<and> token_unit_count t = k \<and> 0 < k \<and>
      (o' = onset \<or> (o' < onset \<and> onset < o' + k))"
proof (induction onset i off ts rule: find_onset.induct)
  case (2 onset i off t ts)
  consider "token_unit_count t = 0" "find_onset onset (i + 1) off ts = Some (j, o', k)"
    | "token_unit_count t \<noteq> 0" "j = i" "o' = off" "k = token_unit_count t" "off = onset \<or> (off < onset \<and> onset < off + k)"
    | "token_unit_count t \<noteq> 0" "\<not> (off = onset \<or> (off < onset \<and> onset < off + token_unit_count t))"
      "find_onset onset (i + 1) (off + token_unit_count t) ts = Some (j, o', k)"
    using 2(3) by (auto simp: Let_def split: if_splits)
  then show ?case
  proof cases
    case 1
    with 2(1) [OF refl] obtain pre u post where "ts = pre @ u # post" "j = i + 1 + length pre" "token_unit_count u = k"
      "0 < k" "o' = onset \<or> (o' < onset \<and> onset < o' + k)" by blast
    then show ?thesis by (intro exI [of _ "t # pre"] exI [of _ u] exI [of _ post]) simp
  next
    case 2
    then show ?thesis by (intro exI [of _ "[]"] exI [of _ t] exI [of _ ts]) auto
  next
    case 3
    with 2(2) [OF refl] obtain pre u post where "ts = pre @ u # post" "j = i + 1 + length pre" "token_unit_count u = k"
      "0 < k" "o' = onset \<or> (o' < onset \<and> onset < o' + k)" by blast
    then show ?thesis by (intro exI [of _ "t # pre"] exI [of _ u] exI [of _ post]) simp
  qed
qed simp

text \<open>Where the tokens are cut for a chord: after a split where the onset is inside a note.\<close>

lemma set_chord_shape:
  assumes "set_chord_in_bar tokens onset chord label = Inr tokens'"
  obtains pre t post mid cut where "tokens = pre @ t # post" "tokens' = mid @ (case chord of Some c \<Rightarrow> [TChord c] | None \<Rightarrow> []) @ cut"
    "\<exists>A M q qs. cut = q # qs \<and> mid = A @ filter (\<lambda>t. \<not> is_chord t) M \<and>
      (A @ M @ cut = tokens \<or>
       (\<exists>n a b. t = TNote n \<and> token_units (t_duration n) = Some (a + b) \<and> 0 < b \<and> A @ M @ cut = pre @ split_token n [a, b] @ post))"
proof -
  obtain index off units where found: "find_onset onset 0 0 tokens = Some (index, off, units)"
    using assms by (auto simp: set_chord_in_bar_def split: option.splits)
  obtain pre t post where ts: "tokens = pre @ t # post" "index = length pre" "token_unit_count t = units" "0 < units"
    and onset: "off = onset \<or> (off < onset \<and> onset < off + units)"
    using find_onset_Some [OF found] by auto
  define ts2 pos where "ts2 = (if off = onset then tokens
      else take index tokens @ (case tokens ! index of TNote n \<Rightarrow> split_token n [onset - off, off + units - onset] | _ \<Rightarrow> []) @ drop (Suc index) tokens)"
    and "pos = (if off = onset then index else index + length (duration_pieces (onset - off)))"
  obtain n where n: "t = TNote n" "token_units (t_duration n) = Some units"
    using ts(3,4) by (cases t) (auto simp: token_unit_count_def split: option.splits)
  have shape: "pos < length ts2 \<and> (ts2 = tokens \<or> (\<exists>a b. units = a + b \<and> 0 < b \<and> ts2 = pre @ split_token n [a, b] @ post))"
  proof (cases "off = onset")
    case True
    then show ?thesis by (simp add: ts2_def pos_def ts)
  next
    case False
    let ?a = "onset - off" and ?b = "off + units - onset"
    have ab: "units = ?a + ?b" "0 < ?b" using onset False by auto
    have ts2: "ts2 = pre @ split_token n [?a, ?b] @ post" using False by (simp add: ts2_def ts n)
    have "length (duration_pieces ?a) < length (split_token n [?a, ?b])"
      using ab(2) by (simp add: split_token_pieces piece_tokens_def)
    then have "pos < length ts2" using False by (simp add: pos_def ts ts2)
    then show ?thesis using ab ts2 by blast
  qed
  let ?start = "chords_start ts2 pos"
  define A M cut where "A = take ?start ts2" and "M = take (pos - ?start) (drop ?start ts2)" and "cut = drop pos ts2"
  have le: "?start \<le> pos" "pos < length ts2" using chords_start_le shape by simp_all
  have "cut = drop (pos - ?start) (drop ?start ts2)" using le by (simp add: cut_def)
  then have "A @ M @ cut = ts2" unfolding A_def M_def by (simp only: append_take_drop_id)
  moreover have "length A = ?start" "length A + length M = pos" using le by (simp_all add: A_def M_def)
  ultimately have parts: "A @ M @ cut = ts2" "length A = ?start" "length A + length M = pos" .
  have removed: "remove_chords ts2 ?start pos False =
      (A @ filter (\<lambda>t. \<not> is_chord t) M @ cut, length A + length (filter (\<lambda>t. \<not> is_chord t) M), list_ex is_chord M)"
    using remove_chords_filter [of A M cut False] parts by simp
  have "tokens' = (A @ filter (\<lambda>t. \<not> is_chord t) M) @ (case chord of Some c \<Rightarrow> [TChord c] | None \<Rightarrow> []) @ cut"
    using assms found removed
    by (auto simp: set_chord_in_bar_def ts2_def pos_def Let_def split: if_splits option.splits)
  moreover obtain q qs where "cut = q # qs" using shape by (metis cut_def drop_eq_Nil2 leD list.exhaust)
  ultimately show thesis
    using that [of pre t post "A @ filter (\<lambda>t. \<not> is_chord t) M" cut] ts(1) shape parts(1) n by blast
qed

lemma reading_tokens:
  "bar_tokens ctx unit len start ts s = Inr u \<Longrightarrow> reading unit len start s \<Longrightarrow> reading unit len start u"
  by (induction ts arbitrary: s) (auto split: if_splits sum.splits dest: reading_token)

lemma split_in_place:
  assumes "bar_tokens ctx unit len start (pre @ TNote n # post) s = Inr t" "reading unit len start s"
    "token_units (t_duration n) = Some (a + b)" "0 < b"
  shows "bar_tokens ctx unit len start (pre @ split_token n [a, b] @ post) s = Inr t"
proof -
  obtain u w where u: "bar_tokens ctx unit len start pre s = Inr u" and w: "\<not> frac_le len (s_offset u)"
      "bar_token ctx unit len start (TNote n) u = Inr w" and post: "bar_tokens ctx unit len start post w = Inr t"
    using assms(1) by (auto simp: bar_tokens_append split: sum.splits if_splits)
  have "bar_tokens ctx unit len start (split_token n [a, b]) u = Inr w"
    using split_pieces_heard [OF w(2) reading_tokens [OF u assms(2)] w(1), of "[a, b]"] assms(3,4) by simp
  then show ?thesis by (simp add: bar_tokens_append u post)
qed

text \<open>
  C17. Setting or removing a chord in a measure changes only chords: if the measure could be read, the
  edited measure can be read from the same state, also where the chord falls inside a held note, and
  ends in the same state but for the chord list: the same sounding notes, keys, open tie and position.
\<close>

theorem set_chord_keeps_sound:
  assumes "set_chord_in_bar tokens onset chord label = Inr tokens'" "bar_tokens ctx unit len start tokens s = Inr t"
    "reading unit len start s" "\<forall>c. chord = Some c \<longrightarrow> is_native_chord c"
  shows "\<exists>t'. bar_tokens ctx unit len start tokens' s = Inr t' \<and> hush t' = hush t"
proof -
  obtain pre x post mid cut A M q qs where ts: "tokens = pre @ x # post"
    and ts': "tokens' = mid @ (case chord of Some c \<Rightarrow> [TChord c] | None \<Rightarrow> []) @ cut"
    and cut: "cut = q # qs" "mid = A @ filter (\<lambda>t. \<not> is_chord t) M"
    and cases: "A @ M @ cut = tokens \<or>
       (\<exists>n a b. x = TNote n \<and> token_units (t_duration n) = Some (a + b) \<and> 0 < b \<and> A @ M @ cut = pre @ split_token n [a, b] @ post)"
    by (rule set_chord_shape [OF assms(1)]) blast
  have read: "bar_tokens ctx unit len start (A @ M @ cut) s = Inr t"
    using cases assms(2,3) split_in_place [of ctx unit len start pre _ post s t] by (auto simp: ts)
  then obtain u where u: "bar_tokens ctx unit len start A s = Inr u" "bar_tokens ctx unit len start (M @ cut) u = Inr t"
    by (auto simp: bar_tokens_append [of _ _ _ _ A] split: sum.splits)
  have "heard ctx unit len start (mid @ cut) s = Inr (hush t)"
    using heard_append [OF u(1)] drop_chords_heard [OF u(2)] by (simp add: cut(2))
  then have "heard ctx unit len start tokens' s = Inr (hush t)"
    using add_chord_heard [of ctx unit len start mid q qs s "hush t"] assms(4)
    by (cases chord) (simp_all add: ts' cut(1))
  then show ?thesis by (cases "bar_tokens ctx unit len start tokens' s") (auto simp: heard_def)
qed

section \<open>Witnesses\<close>

definition demo_note :: note_token where
  "demo_note = \<lparr> t_accidental = None, t_note = CHR ''F'', t_octave = [], t_duration = ''4'', t_tie = False \<rparr>"

definition demo_rest :: note_token where
  "demo_rest = \<lparr> t_accidental = None, t_note = CHR ''z'', t_octave = [], t_duration = ''4'', t_tie = False \<rparr>"

definition demo_start :: bar_state where
  "demo_start = \<lparr> s_offset = frac_zero, s_local = replicate 7 None, s_voice = demo_voice \<rparr>"

lemma demo_reading: "reading (frac_new 1 8) (frac_int 4) frac_zero demo_start"
  using demo_unit demo_voice_ok
  by (simp add: reading_def demo_start_def bar_ok_def) (simp add: demo_voice_def new_voice_def)

lemma demo_note_read: "bar_token ctx (frac_new 1 8) (frac_int 4) frac_zero (TNote demo_note) demo_start = Inr demo_note_state"
  using demo_first_token [of ctx] by (simp add: demo_note_def demo_start_def)

lemma demo_measure:
  "bar_tokens ctx (frac_new 1 8) (frac_int 4) frac_zero [TNote demo_note, TNote demo_rest] demo_start =
    Inr (demo_note_state\<lparr> s_offset := frac_int 4 \<rparr>)"
  using demo_note_read [of ctx] demo_second_token [of ctx] demo_before_end
  by (simp add: demo_start_def demo_rest_def) (simp add: demo_note_state_def)

theorem split_token_same_sound_witness:
  "bar_tokens ''bar 1'' (frac_new 1 8) (frac_int 4) frac_zero (split_token demo_note [1, 3]) demo_start = Inr demo_note_state"
  by (rule split_token_same_sound [OF demo_note_read demo_reading])
     (simp_all add: demo_start_def demo_before_end demo_note_def demo_units)

lemma demo_pieces: "duration_pieces 0 = []" "duration_pieces 2 = [2]"
  by (simp_all add: duration_pieces.simps [of 0] duration_pieces.simps [of 2] DURATIONS_def)

lemma demo_set_chord:
  "set_chord_in_bar [TNote demo_note, TNote demo_rest] 2 (Some ''C'') ''bar 1'' =
    Inr [piece_token demo_note 2 False, TChord ''C'', piece_token demo_note 2 True, TNote demo_rest]"
proof -
  let ?ts = "[piece_token demo_note 2 False, piece_token demo_note 2 True, TNote demo_rest]"
  have found: "find_onset 2 0 0 [TNote demo_note, TNote demo_rest] = Some (0, 0, 4)"
    by (simp add: token_unit_count_def demo_note_def demo_units Let_def)
  have split: "split_token demo_note [2, 2] = [piece_token demo_note 2 False, piece_token demo_note 2 True]"
    by (simp add: split_token_pieces piece_tokens_def demo_pieces)
  have units: "token_unit_count (piece_token demo_note 2 False) = 2"
    using token_units_text [of 2] by (simp add: token_unit_count_def piece_token_def DURATIONS_def)
  have "remove_chords ?ts 1 1 False = (?ts, 1, False)" by (simp add: remove_chords.simps [of ?ts])
  then show ?thesis by (simp add: set_chord_in_bar_def found split demo_pieces units Let_def del: find_onset.simps)
qed

theorem set_chord_keeps_sound_witness:
  "\<exists>t'. bar_tokens ''bar 1'' (frac_new 1 8) (frac_int 4) frac_zero
      [piece_token demo_note 2 False, TChord ''C'', piece_token demo_note 2 True, TNote demo_rest] demo_start = Inr t' \<and>
    hush t' = hush (demo_note_state\<lparr> s_offset := frac_int 4 \<rparr>)"
  by (rule set_chord_keeps_sound [OF demo_set_chord demo_measure demo_reading])
     (simp add: is_native_chord_def pitch_name_len_def is_note_letter_def char_code_def starts_with_text_def strip_prefix_def
        split_once_def CHORD_QUALITIES_def)

end
