(* ===== verification/Json.thy ===== *)
theory Json
  imports Prelude "HOL-Library.Finite_Map" Complex_Main
begin

text \<open>
  JSON values as \<open>serde_json::Value\<close> has them, and the accessors the sources use
  (\<open>get\<close>, \<open>as_str\<close>, \<open>as_bool\<close>, \<open>as_array\<close>, \<open>as_object\<close>). An object is a finite map:
  \<open>serde_json::Map\<close> is an ordered map whose equality is that of its entries. The columns
  \<open>payload_json\<close> and \<open>result_json\<close> hold the canonical rendering of such a map, which the
  rows model by the map itself, so two stored texts differ exactly where the maps do.
  Numbers are the integers and the finite \<open>f64\<close> values serde distinguishes. Floating-point
  readings that are only compared, clamped or maximised are rationals; \<open>f64\<close> adds the
  non-finite values a report may carry.
\<close>

datatype json =
    JNull
  | JBool bool
  | JInt int
  | JFloat rat
  | JStr string
  | JArr "json list"
  | JObj "(string, json) fmap"

type_synonym json_object = "(string, json) fmap"

fun as_str :: "json \<Rightarrow> string option" where
  "as_str (JStr s) = Some s"
| "as_str _ = None"

fun as_bool :: "json \<Rightarrow> bool option" where
  "as_bool (JBool b) = Some b"
| "as_bool _ = None"

fun as_array :: "json \<Rightarrow> json list option" where
  "as_array (JArr vs) = Some vs"
| "as_array _ = None"

fun as_object :: "json \<Rightarrow> json_object option" where
  "as_object (JObj m) = Some m"
| "as_object _ = None"

text \<open>\<open>Value::get(key)\<close>: nothing unless the value is an object with the key.\<close>

definition json_get :: "string \<Rightarrow> json \<Rightarrow> json option" where
  "json_get key v = Option.bind (as_object v) (\<lambda>m. fmlookup m key)"

definition get_str :: "json_object \<Rightarrow> string \<Rightarrow> string option" where
  "get_str m key = Option.bind (fmlookup m key) as_str"

definition get_bool :: "json_object \<Rightarrow> string \<Rightarrow> bool option" where
  "get_bool m key = Option.bind (fmlookup m key) as_bool"

definition get_array :: "json_object \<Rightarrow> string \<Rightarrow> json list option" where
  "get_array m key = Option.bind (fmlookup m key) as_array"

definition get_object :: "json_object \<Rightarrow> string \<Rightarrow> json_object option" where
  "get_object m key = Option.bind (fmlookup m key) as_object"

definition contains_key :: "json_object \<Rightarrow> string \<Rightarrow> bool" where
  "contains_key m key \<longleftrightarrow> fmlookup m key \<noteq> None"

lemmas json_access = get_str_def get_bool_def get_array_def get_object_def contains_key_def json_get_def

text \<open>\<open>Map::extend\<close>: later entries win.\<close>

abbreviation extend_map :: "json_object \<Rightarrow> json_object \<Rightarrow> json_object" where
  "extend_map m changes \<equiv> m ++\<^sub>f changes"

subsection \<open>Floating-point reports\<close>

datatype f64 = Fin rat | PosInf | NegInf | NaN

fun is_finite :: "f64 \<Rightarrow> bool" where
  "is_finite (Fin _) = True"
| "is_finite _ = False"

fun fin_value :: "f64 \<Rightarrow> rat" where
  "fin_value (Fin x) = x"
| "fin_value _ = 0"

end
