(* ===== verification/ScoreCompare.thy ===== *)
theory ScoreCompare
  imports AbcLaws Json
begin

text \<open>
  Change contracts and the invariant check between a score and its edit (\<open>yue2_score/compare.rs\<close>),
  with the song request and its validation (\<open>yue2_score/mod.rs\<close>). Messages are values that carry
  what the message prints; the digest of a text is an argument.
\<close>

section \<open>Model\<close>

subsection \<open>Requests\<close>

definition MAX_ABC_BYTES :: nat where "MAX_ABC_BYTES = 256 * 1024"
definition MAX_STYLE_CHARS :: nat where "MAX_STYLE_CHARS = 4000"
definition MAX_LYRICS_CHARS :: nat where "MAX_LYRICS_CHARS = 16000"

datatype cot = Full | Melody

record song_request =
  r_style :: string
  r_lyrics :: string
  r_cot :: cot
  r_seed :: nat
  r_cfg_scale :: "f64 option"

datatype request_error =
    AbcTooLarge nat
  | TextTooLong string nat nat
  | SeedOutOfRange
  | CfgScaleOutOfRange
  | ChordsUnderMelody

definition check_abc_size :: "string \<Rightarrow> request_error + unit" where
  "check_abc_size abc = (if length abc > MAX_ABC_BYTES then Inl (AbcTooLarge (length abc)) else Inr ())"

text \<open>\<open>str::chars().count()\<close>: the bytes that do not continue a character.\<close>

definition chars_count :: "string \<Rightarrow> nat" where
  "chars_count s = length (filter (\<lambda>c. char_code c < 128 \<or> 192 \<le> char_code c) s)"

definition check_text :: "string \<Rightarrow> string \<Rightarrow> nat \<Rightarrow> request_error + unit" where
  "check_text field txt limit =
     (let n = chars_count txt in if n > limit then Inl (TextTooLong field n limit) else Inr ())"

definition cfg_scale_ok :: "f64 \<Rightarrow> bool" where
  "cfg_scale_ok cfg \<longleftrightarrow> is_finite cfg \<and> 0 \<le> fin_value cfg \<and> fin_value cfg \<le> 20"

definition has_chords :: "score \<Rightarrow> bool" where
  "has_chords s \<longleftrightarrow> vt_chords (fst (sc_voices s)) \<noteq> [] \<or> vt_chords (snd (sc_voices s)) \<noteq> []"

definition validate_request :: "song_request \<Rightarrow> score \<Rightarrow> request_error + unit" where
  "validate_request r s =
     (case check_text ''style'' (r_style r) MAX_STYLE_CHARS of
        Inl e \<Rightarrow> Inl e
      | Inr _ \<Rightarrow>
          (case check_text ''lyrics'' (r_lyrics r) MAX_LYRICS_CHARS of
             Inl e \<Rightarrow> Inl e
           | Inr _ \<Rightarrow>
               if r_seed r \<ge> 2 ^ 63 then Inl SeedOutOfRange
               else if (case r_cfg_scale r of None \<Rightarrow> False | Some cfg \<Rightarrow> \<not> cfg_scale_ok cfg) then Inl CfgScaleOutOfRange
               else if r_cot r = Melody \<and> has_chords s then Inl ChordsUnderMelody
               else Inr ()))"

subsection \<open>Contracts\<close>

datatype voice_name = Vocal | Ins

fun voice_index :: "voice_name \<Rightarrow> nat" where
  "voice_index Vocal = 0"
| "voice_index Ins = 1"

record melody_scope =
  ms_voices :: "voice_name list"
  ms_from_bar :: nat
  ms_to_bar :: nat

record form_change =
  section_order :: "nat list"

record change_contract =
  cc_harmony :: bool
  cc_tempo :: bool
  cc_melody :: "melody_scope option"
  cc_form :: "form_change option"
  cc_lyrics :: bool
  cc_style :: bool

definition default_contract :: change_contract where
  "default_contract = \<lparr> cc_harmony = False, cc_tempo = False, cc_melody = None, cc_form = None, cc_lyrics = False, cc_style = False \<rparr>"

datatype contract_error =
    NoVoiceNamed
  | ScopeBarsOutside nat nat nat
  | FormCombined
  | NoSectionListed
  | SectionOutOfRange nat nat

definition validate_melody :: "melody_scope option \<Rightarrow> score \<Rightarrow> contract_error + unit" where
  "validate_melody melody source =
     (case melody of
        None \<Rightarrow> Inr ()
      | Some scope \<Rightarrow>
          if ms_voices scope = [] then Inl NoVoiceNamed
          else let bars = score_bar_count source in
            if ms_from_bar scope < 1 \<or> ms_from_bar scope > ms_to_bar scope \<or> ms_to_bar scope > bars
            then Inl (ScopeBarsOutside (ms_from_bar scope) (ms_to_bar scope) bars) else Inr ())"

definition validate_form :: "change_contract \<Rightarrow> score \<Rightarrow> contract_error + unit" where
  "validate_form c source =
     (case cc_form c of
        None \<Rightarrow> Inr ()
      | Some form \<Rightarrow>
          if cc_harmony c \<or> cc_tempo c \<or> cc_melody c \<noteq> None then Inl FormCombined
          else if section_order form = [] then Inl NoSectionListed
          else (case find (\<lambda>i. i \<ge> length (sc_sections source)) (section_order form) of
                  Some bad \<Rightarrow> Inl (SectionOutOfRange bad (length (sc_sections source)))
                | None \<Rightarrow> Inr ()))"

definition validate_contract :: "change_contract \<Rightarrow> score \<Rightarrow> contract_error + unit" where
  "validate_contract c source =
     (case validate_melody (cc_melody c) source of Inl e \<Rightarrow> Inl e | Inr _ \<Rightarrow> validate_form c source)"

subsection \<open>Checks\<close>

datatype check_status = Unchanged | ChangedAsDeclared | DeclaredUnchanged | Violated

text \<open>What \<open>note_detail\<close> prints: the number of the note, its measure and the two notes.\<close>

record note_difference =
  nd_number :: nat
  nd_bar :: "nat option"
  nd_before :: "sounding_note option"
  nd_after :: "sounding_note option"

datatype form_problem =
    LabelDiffers "string option" "string option"
  | LengthDiffers nat frac nat frac
  | BarMetersDiffer string
  | SectionNotesDiffer string nat "sounding_note option" "sounding_note option"
  | SectionChordsDiffer
  | SectionKeysDiffer

datatype check_detail =
    LyricsDiffer
  | StyleDiffers
  | CotChange cot cot
  | SeedChange nat nat
  | CfgScaleChange "f64 option" "f64 option"
  | TempoChange nat nat
  | SectionsDiffer nat nat
  | GridDiffers string nat nat
  | OutsideWindow string note_difference
  | InsideWindow string nat nat
  | NotesDiffer string note_difference
  | KeysDiffer
  | ChordsDiffer
  | FormCount nat nat
  | FormProblems "form_problem list"
  | FormOrder "nat list"

record invariant_check =
  ic_name :: string
  ic_status :: check_status
  ic_detail :: "check_detail option"

definition aspect :: "string \<Rightarrow> bool \<Rightarrow> bool \<Rightarrow> check_detail option \<Rightarrow> invariant_check" where
  "aspect nm declared changed detail =
     \<lparr> ic_name = nm,
       ic_status = (if \<not> changed then (if declared then DeclaredUnchanged else Unchanged)
                    else if declared then ChangedAsDeclared else Violated),
       ic_detail = (if changed then detail else None) \<rparr>"

text \<open>Indexing with \<open>get\<close>.\<close>

definition get_at :: "'a list \<Rightarrow> nat \<Rightarrow> 'a option" where
  "get_at xs i = (if i < length xs then Some (xs ! i) else None)"

definition first_note_difference :: "sounding_note list \<Rightarrow> sounding_note list \<Rightarrow> nat option" where
  "first_note_difference a b =
     (if a = b then None
      else let common = min (length a) (length b) in
        Some (case find (\<lambda>i. a ! i \<noteq> b ! i) [0..<common] of Some i \<Rightarrow> i | None \<Rightarrow> common))"

definition note_detail :: "score \<Rightarrow> sounding_note list \<Rightarrow> sounding_note list \<Rightarrow> nat \<Rightarrow> note_difference" where
  "note_detail s a b i =
     (let at_note = (case get_at a i of Some n \<Rightarrow> Some n | None \<Rightarrow> get_at b i) in
      \<lparr> nd_number = i + 1, nd_bar = Option.bind at_note (\<lambda>n. bar_number_at s (n_onset n)),
        nd_before = get_at a i, nd_after = get_at b i \<rparr>)"

record harmony_change =
  hc_onset :: frac
  hc_bar :: "nat option"
  hc_before :: "string option"
  hc_after :: "string option"

definition symbols_at :: "voice_track \<Rightarrow> frac \<Rightarrow> string option" where
  "symbols_at t onset =
     (let symbols = map c_chord (filter (\<lambda>c. c_onset c = onset) (vt_chords t)) in
      if symbols = [] then None else Some (join_with '' '' symbols))"

definition chord_onsets :: "voice_track \<Rightarrow> voice_track \<Rightarrow> frac list" where
  "chord_onsets a b = remdups_adj (order_by frac_less (map c_onset (vt_chords a @ vt_chords b)))"

definition harmony_changes :: "score \<Rightarrow> voice_track \<Rightarrow> voice_track \<Rightarrow> harmony_change list" where
  "harmony_changes source a b =
     map (\<lambda>onset. \<lparr> hc_onset = onset, hc_bar = bar_number_at source onset,
                    hc_before = symbols_at a onset, hc_after = symbols_at b onset \<rparr>)
       (filter (\<lambda>onset. symbols_at a onset \<noteq> symbols_at b onset) (chord_onsets a b))"

definition in_window :: "frac \<Rightarrow> frac \<times> frac \<Rightarrow> bool" where
  "in_window onset w \<longleftrightarrow> frac_le (fst w) onset \<and> frac_less onset (snd w)"

definition lies_within :: "sounding_note \<Rightarrow> frac \<times> frac \<Rightarrow> bool" where
  "lies_within n w \<longleftrightarrow> frac_le (fst w) (n_onset n) \<and> frac_le (frac_add (n_onset n) (n_duration n)) (snd w)"

definition relative_keys :: "voice_track \<Rightarrow> frac \<Rightarrow> frac \<Rightarrow> (frac \<times> string) list" where
  "relative_keys t start len =
     (case find (\<lambda>e. frac_le (k_onset e) start) (rev (vt_keys t)) of
        None \<Rightarrow> [] | Some e \<Rightarrow> [(frac_zero, k_key e)])
     @ map (\<lambda>e. (frac_sub (k_onset e) start, k_key e))
         (filter (\<lambda>e. frac_less start (k_onset e) \<and> frac_less (k_onset e) (frac_add start len)) (vt_keys t))"

definition relative_notes :: "voice_track \<Rightarrow> frac \<Rightarrow> frac \<Rightarrow> sounding_note list" where
  "relative_notes t start len =
     map (\<lambda>n. n\<lparr> n_onset := frac_sub (n_onset n) start \<rparr>)
       (filter (\<lambda>n. in_window (n_onset n) (start, frac_add start len)) (vt_notes t))"

definition relative_bars :: "voice_track \<Rightarrow> nat \<Rightarrow> nat \<Rightarrow> (frac \<times> meter) list" where
  "relative_bars t first n = map (\<lambda>b. (b_length b, b_meter b)) (take n (drop first (vt_bars t)))"

definition relative_chords :: "voice_track \<Rightarrow> frac \<Rightarrow> frac \<Rightarrow> (frac \<times> string) list" where
  "relative_chords t start len =
     map (\<lambda>c. (frac_sub (c_onset c) start, c_chord c))
       (filter (\<lambda>c. in_window (c_onset c) (start, frac_add start len)) (vt_chords t))"

text \<open>\<open>PartialEq\<close> of \<open>Option<f64>\<close>: a value that is not a number differs from itself.\<close>

fun cfg_eq :: "f64 option \<Rightarrow> f64 option \<Rightarrow> bool" where
  "cfg_eq None None = True"
| "cfg_eq (Some a) (Some b) = (a = b \<and> a \<noteq> NaN)"
| "cfg_eq _ _ = False"

definition check_requests :: "change_contract \<Rightarrow> song_request \<Rightarrow> song_request \<Rightarrow> invariant_check list" where
  "check_requests c a b =
     [aspect ''lyrics'' (cc_lyrics c) (r_lyrics a \<noteq> r_lyrics b) (Some LyricsDiffer),
      aspect ''style'' (cc_style c) (r_style a \<noteq> r_style b) (Some StyleDiffers),
      aspect ''cot'' (cc_harmony c) (r_cot a \<noteq> r_cot b) (Some (CotChange (r_cot a) (r_cot b))),
      aspect ''seed'' False (r_seed a \<noteq> r_seed b) (Some (SeedChange (r_seed a) (r_seed b))),
      aspect ''cfgScale'' False (\<not> cfg_eq (r_cfg_scale a) (r_cfg_scale b)) (Some (CfgScaleChange (r_cfg_scale a) (r_cfg_scale b)))]"

definition voice_at :: "score \<Rightarrow> nat \<Rightarrow> voice_track" where
  "voice_at s i = (if i = 0 then fst (sc_voices s) else snd (sc_voices s))"

definition section_map :: "score \<Rightarrow> (string option \<times> nat \<times> nat) list" where
  "section_map s = map (\<lambda>x. (sec_label x, sec_first_bar x, sec_bar_count x)) (sc_sections s)"

definition melody_window :: "melody_scope \<Rightarrow> score \<Rightarrow> frac \<times> frac" where
  "melody_window scope source =
     (let bars = vt_bars (fst (sc_voices source)); final = bars ! (ms_to_bar scope - 1) in
      (b_start (bars ! (ms_from_bar scope - 1)), frac_add (b_start final) (b_length final)))"

definition scoped :: "melody_scope option \<Rightarrow> nat \<Rightarrow> bool" where
  "scoped melody i \<longleftrightarrow> (case melody of None \<Rightarrow> False | Some scope \<Rightarrow> list_ex (\<lambda>v. voice_index v = i) (ms_voices scope))"

definition fixed_notes :: "voice_track \<Rightarrow> frac \<times> frac \<Rightarrow> sounding_note list" where
  "fixed_notes t w = filter (\<lambda>n. \<not> lies_within n w) (vt_notes t)"

definition check_notes :: "change_contract \<Rightarrow> score \<Rightarrow> score \<Rightarrow> nat \<Rightarrow> invariant_check" where
  "check_notes c s t i =
     (let a = voice_at s i; b = voice_at t i; nm = ''notes:'' @ VOICE_NAMES ! i in
      case cc_melody c of
        Some scope \<Rightarrow>
          if scoped (Some scope) i then
            (let w = melody_window scope s; fa = fixed_notes a w; fb = fixed_notes b w in
             case first_note_difference fa fb of
               Some first \<Rightarrow> \<lparr> ic_name = nm, ic_status = Violated,
                               ic_detail = Some (OutsideWindow (VOICE_NAMES ! i) (note_detail s fa fb first)) \<rparr>
             | None \<Rightarrow> aspect nm True (vt_notes a \<noteq> vt_notes b)
                         (Some (InsideWindow (VOICE_NAMES ! i) (ms_from_bar scope) (ms_to_bar scope))))
          else (let first = first_note_difference (vt_notes a) (vt_notes b) in
                aspect nm False (first \<noteq> None)
                  (map_option (\<lambda>f. NotesDiffer (VOICE_NAMES ! i) (note_detail s (vt_notes a) (vt_notes b) f)) first))
      | None \<Rightarrow>
          (let first = first_note_difference (vt_notes a) (vt_notes b) in
           aspect nm False (first \<noteq> None)
             (map_option (\<lambda>f. NotesDiffer (VOICE_NAMES ! i) (note_detail s (vt_notes a) (vt_notes b) f)) first)))"

definition check_voice :: "change_contract \<Rightarrow> score \<Rightarrow> score \<Rightarrow> nat \<Rightarrow> invariant_check list" where
  "check_voice c s t i =
     (let a = vt_bars (voice_at s i); b = vt_bars (voice_at t i) in
      [aspect (''barGrid:'' @ VOICE_NAMES ! i) False (a \<noteq> b) (Some (GridDiffers (VOICE_NAMES ! i) (length a) (length b))),
       check_notes c s t i])"

definition check_score_in_place :: "change_contract \<Rightarrow> score \<Rightarrow> score \<Rightarrow> invariant_check list" where
  "check_score_in_place c s t =
     [aspect ''tempo'' (cc_tempo c) (sc_bpm s \<noteq> sc_bpm t) (Some (TempoChange (sc_bpm s) (sc_bpm t))),
      aspect ''sections'' False (section_map s \<noteq> section_map t)
        (Some (SectionsDiffer (length (section_map s)) (length (section_map t))))]
     @ concat (map (check_voice c s t) [0..<length VOICE_NAMES])
     @ [aspect ''keySignatures'' (cc_harmony c \<or> cc_melody c \<noteq> None)
          (vt_keys (voice_at s 0) \<noteq> vt_keys (voice_at t 0)) (Some KeysDiffer),
        aspect ''harmony'' (cc_harmony c) (vt_chords (voice_at s 0) \<noteq> vt_chords (voice_at t 0)) (Some ChordsDiffer)]"

subsection \<open>Form changes\<close>

definition voice_problems :: "score \<Rightarrow> score \<Rightarrow> sect \<Rightarrow> sect \<Rightarrow> nat \<Rightarrow> form_problem list" where
  "voice_problems s t source edited i =
     (let a = voice_at s i; b = voice_at t i;
          na = relative_notes a (sec_start source) (sec_length source);
          nb = relative_notes b (sec_start edited) (sec_length edited) in
      (if relative_bars a (sec_first_bar source) (sec_bar_count source)
            \<noteq> relative_bars b (sec_first_bar edited) (sec_bar_count edited)
       then [BarMetersDiffer (VOICE_NAMES ! i)] else [])
      @ (case first_note_difference na nb of
           None \<Rightarrow> []
         | Some first \<Rightarrow> [SectionNotesDiffer (VOICE_NAMES ! i) (first + 1) (get_at na first) (get_at nb first)]))"

definition section_problems :: "score \<Rightarrow> score \<Rightarrow> sect \<Rightarrow> sect \<Rightarrow> form_problem list" where
  "section_problems s t source edited =
     (if sec_label source \<noteq> sec_label edited then [LabelDiffers (sec_label source) (sec_label edited)] else [])
     @ (if sec_bar_count source \<noteq> sec_bar_count edited \<or> sec_length source \<noteq> sec_length edited
        then [LengthDiffers (sec_bar_count source) (sec_length source) (sec_bar_count edited) (sec_length edited)]
        else concat (map (voice_problems s t source edited) [0..<length VOICE_NAMES])
          @ (if relative_chords (voice_at s 0) (sec_start source) (sec_length source)
                  \<noteq> relative_chords (voice_at t 0) (sec_start edited) (sec_length edited)
             then [SectionChordsDiffer] else [])
          @ (if relative_keys (voice_at s 0) (sec_start source) (sec_length source)
                  \<noteq> relative_keys (voice_at t 0) (sec_start edited) (sec_length edited)
             then [SectionKeysDiffer] else []))"

definition check_section :: "score \<Rightarrow> score \<Rightarrow> nat \<times> nat \<times> sect \<Rightarrow> invariant_check" where
  "check_section s t = (\<lambda>(pos, i, edited).
     let nm = ''form:section '' @ show_nat (pos + 1) @ '' <- source section '' @ show_nat i;
         problems = section_problems s t (sc_sections s ! i) edited in
     if problems = [] then \<lparr> ic_name = nm, ic_status = Unchanged, ic_detail = None \<rparr>
     else \<lparr> ic_name = nm, ic_status = Violated, ic_detail = Some (FormProblems problems) \<rparr>)"

definition check_form :: "form_change \<Rightarrow> score \<Rightarrow> score \<Rightarrow> invariant_check list" where
  "check_form form s t =
     aspect ''tempo'' False (sc_bpm s \<noteq> sc_bpm t) (Some (TempoChange (sc_bpm s) (sc_bpm t))) #
     (if length (sc_sections t) \<noteq> length (section_order form)
      then [\<lparr> ic_name = ''form'', ic_status = Violated,
              ic_detail = Some (FormCount (length (section_order form)) (length (sc_sections t))) \<rparr>]
      else map (check_section s t) (zip [0..<length (sc_sections t)] (zip (section_order form) (sc_sections t)))
        @ [aspect ''form'' True (section_order form \<noteq> [0..<length (sc_sections s)]) (Some (FormOrder (section_order form)))])"

subsection \<open>The report\<close>

record invariant_report =
  ir_matches :: bool
  ir_contract :: change_contract
  ir_checks :: "invariant_check list"
  ir_violations :: "(string \<times> check_detail option) list"
  ir_harmony_changes :: "harmony_change list"
  ir_source_sha256 :: string
  ir_edited_sha256 :: string

definition check_edit ::
  "(string \<Rightarrow> string) \<Rightarrow> change_contract \<Rightarrow> score \<Rightarrow> song_request \<Rightarrow> score \<Rightarrow> song_request \<Rightarrow> invariant_report" where
  "check_edit sha256 c s a t b =
     (let checks = (case cc_form c of Some form \<Rightarrow> check_form form s t | None \<Rightarrow> check_score_in_place c s t)
                     @ check_requests c a b;
          violations = map (\<lambda>k. (ic_name k, ic_detail k)) (filter (\<lambda>k. ic_status k = Violated) checks) in
      \<lparr> ir_matches = (violations = []), ir_contract = c, ir_checks = checks, ir_violations = violations,
        ir_harmony_changes = (if cc_form c \<noteq> None then [] else harmony_changes s (voice_at s 0) (voice_at t 0)),
        ir_source_sha256 = sha256 (sc_text s), ir_edited_sha256 = sha256 (sc_text t) \<rparr>)"

definition describe_differences ::
  "(string \<Rightarrow> string) \<Rightarrow> score \<Rightarrow> song_request \<Rightarrow> score \<Rightarrow> song_request \<Rightarrow> invariant_report" where
  "describe_differences sha256 s a t b = check_edit sha256 default_contract s a t b"

section \<open>What a matching report means\<close>

lemma aspect_violated [simp]: "ic_status (aspect nm declared changed detail) = Violated \<longleftrightarrow> changed \<and> \<not> declared"
  by (simp add: aspect_def)

lemma first_note_difference_None [simp]: "first_note_difference a b = None \<longleftrightarrow> a = b"
  by (simp add: first_note_difference_def Let_def)

lemma first_note_difference_same [simp]: "first_note_difference a a = None"
  by simp

lemma first_note_difference_ex [simp]: "(\<exists>i. first_note_difference a b = Some i) \<longleftrightarrow> a \<noteq> b"
  by (simp flip: not_None_eq)

lemma first_note_difference_Some:
  assumes "first_note_difference a b = Some i"
  shows "take i a = take i b \<and> get_at a i \<noteq> get_at b i"
proof -
  let ?n = "min (length a) (length b)"
  have i: "i = (case find (\<lambda>i. a ! i \<noteq> b ! i) [0..<?n] of Some i \<Rightarrow> i | None \<Rightarrow> ?n)" and ab: "a \<noteq> b"
    using assms by (auto simp: first_note_difference_def Let_def split: if_splits)
  show ?thesis
  proof (cases "find (\<lambda>i. a ! i \<noteq> b ! i) [0..<?n]")
    case None
    then have "\<forall>j<?n. a ! j = b ! j" by (auto simp: find_None_iff)
    then have same: "take ?n a = take ?n b" by (auto intro!: nth_equalityI)
    with ab have "length a \<noteq> length b" by (metis min.idem order_refl take_all)
    with None i same show ?thesis by (auto simp: get_at_def min_def split: if_splits)
  next
    case (Some j)
    then have "j < ?n" "a ! j \<noteq> b ! j" "\<forall>k<j. a ! k = b ! k" by (auto simp: find_Some_iff)
    with Some i show ?thesis by (auto simp: get_at_def intro!: nth_equalityI)
  qed
qed

text \<open>The aspects a contract keeps, without the list of checks.\<close>

definition notes_kept :: "change_contract \<Rightarrow> score \<Rightarrow> score \<Rightarrow> nat \<Rightarrow> bool" where
  "notes_kept c s t i \<longleftrightarrow>
     (case cc_melody c of
        Some scope \<Rightarrow>
          if \<exists>v\<in>set (ms_voices scope). voice_index v = i
          then fixed_notes (voice_at s i) (melody_window scope s) = fixed_notes (voice_at t i) (melody_window scope s)
          else vt_notes (voice_at s i) = vt_notes (voice_at t i)
      | None \<Rightarrow> vt_notes (voice_at s i) = vt_notes (voice_at t i))"

definition in_place_kept :: "change_contract \<Rightarrow> score \<Rightarrow> score \<Rightarrow> bool" where
  "in_place_kept c s t \<longleftrightarrow>
     (cc_tempo c \<or> sc_bpm s = sc_bpm t) \<and> section_map s = section_map t \<and>
     (\<forall>i<2. vt_bars (voice_at s i) = vt_bars (voice_at t i) \<and> notes_kept c s t i) \<and>
     (cc_harmony c \<or> cc_melody c \<noteq> None \<or> vt_keys (voice_at s 0) = vt_keys (voice_at t 0)) \<and>
     (cc_harmony c \<or> vt_chords (voice_at s 0) = vt_chords (voice_at t 0))"

definition section_kept :: "score \<Rightarrow> score \<Rightarrow> sect \<Rightarrow> sect \<Rightarrow> bool" where
  "section_kept s t x y \<longleftrightarrow>
     sec_label x = sec_label y \<and> sec_bar_count x = sec_bar_count y \<and> sec_length x = sec_length y \<and>
     (\<forall>i<2. relative_bars (voice_at s i) (sec_first_bar x) (sec_bar_count x) = relative_bars (voice_at t i) (sec_first_bar y) (sec_bar_count y) \<and>
            relative_notes (voice_at s i) (sec_start x) (sec_length x) = relative_notes (voice_at t i) (sec_start y) (sec_length y)) \<and>
     relative_chords (voice_at s 0) (sec_start x) (sec_length x) = relative_chords (voice_at t 0) (sec_start y) (sec_length y) \<and>
     relative_keys (voice_at s 0) (sec_start x) (sec_length x) = relative_keys (voice_at t 0) (sec_start y) (sec_length y)"

definition form_kept :: "form_change \<Rightarrow> score \<Rightarrow> score \<Rightarrow> bool" where
  "form_kept form s t \<longleftrightarrow> sc_bpm s = sc_bpm t \<and>
     list_all2 (\<lambda>i y. section_kept s t (sc_sections s ! i) y) (section_order form) (sc_sections t)"

definition request_kept :: "change_contract \<Rightarrow> song_request \<Rightarrow> song_request \<Rightarrow> bool" where
  "request_kept c a b \<longleftrightarrow>
     (cc_lyrics c \<or> r_lyrics a = r_lyrics b) \<and> (cc_style c \<or> r_style a = r_style b) \<and> (cc_harmony c \<or> r_cot a = r_cot b) \<and>
     r_seed a = r_seed b \<and> cfg_eq (r_cfg_scale a) (r_cfg_scale b)"

lemma less_2: "(\<forall>i<2. P i) \<longleftrightarrow> P 0 \<and> P (1 :: nat)"
  by (auto simp: numeral_2_eq_2 less_Suc_eq)

lemma check_notes_violated: "ic_status (check_notes c s t i) = Violated \<longleftrightarrow> \<not> notes_kept c s t i"
  by (auto simp: check_notes_def notes_kept_def Let_def scoped_def list_ex_iff split: option.splits)

lemma in_place_upheld:
  "(\<forall>k\<in>set (check_score_in_place c s t). ic_status k \<noteq> Violated) \<longleftrightarrow> in_place_kept c s t"
  by (auto simp: check_score_in_place_def in_place_kept_def VOICE_NAMES_def check_voice_def Let_def check_notes_violated less_2)

lemma requests_upheld: "(\<forall>k\<in>set (check_requests c a b). ic_status k \<noteq> Violated) \<longleftrightarrow> request_kept c a b"
  by (auto simp: check_requests_def request_kept_def)

lemma section_problems_Nil: "section_problems s t x y = [] \<longleftrightarrow> section_kept s t x y"
  by (auto simp: section_problems_def section_kept_def voice_problems_def VOICE_NAMES_def Let_def less_2 split: option.splits)

lemma check_section_violated:
  "ic_status (check_section s t (pos, i, y)) = Violated \<longleftrightarrow> \<not> section_kept s t (sc_sections s ! i) y"
  by (simp add: check_section_def Let_def section_problems_Nil)

lemma form_upheld: "(\<forall>k\<in>set (check_form form s t). ic_status k \<noteq> Violated) \<longleftrightarrow> form_kept form s t"
proof (cases "length (sc_sections t) = length (section_order form)")
  case True
  then have "(\<forall>k\<in>set (map (check_section s t) (zip [0..<length (sc_sections t)] (zip (section_order form) (sc_sections t)))).
      ic_status k \<noteq> Violated) \<longleftrightarrow> list_all2 (\<lambda>i y. section_kept s t (sc_sections s ! i) y) (section_order form) (sc_sections t)"
    by (simp only: all_set_conv_all_nth) (auto simp: check_section_violated list_all2_conv_all_nth)
  with True show ?thesis by (auto simp: check_form_def form_kept_def)
next
  case False
  then show ?thesis by (auto simp: check_form_def form_kept_def dest: list_all2_lengthD)
qed

lemma report_upheld:
  "ir_matches (check_edit sha256 c s a t b) \<longleftrightarrow>
     (\<forall>k\<in>set (case cc_form c of Some form \<Rightarrow> check_form form s t | None \<Rightarrow> check_score_in_place c s t). ic_status k \<noteq> Violated) \<and>
     (\<forall>k\<in>set (check_requests c a b). ic_status k \<noteq> Violated)"
  by (simp add: check_edit_def Let_def filter_empty_conv ball_Un)

text \<open>
  A report matches exactly when every aspect the contract does not name is unchanged: of the
  request the lyrics, the style, the mode, the seed and the scale; for an edit in place the tempo, the
  sections, the measures of both voices, the notes of each voice outside the declared window, the keys
  and the chords; for a change of form the tempo and, section by section, the label, the measures, the
  notes, the chords and the keys of the source section named.
\<close>

theorem check_edit_exact:
  "ir_matches (check_edit sha256 c s a t b) \<longleftrightarrow>
     request_kept c a b \<and> (case cc_form c of None \<Rightarrow> in_place_kept c s t | Some form \<Rightarrow> form_kept form s t)"
  by (auto simp: report_upheld in_place_upheld requests_upheld form_upheld split: option.splits)

section \<open>The list of harmony changes\<close>

lemma insert_row_cong:
  "\<forall>y\<in>set ys. (f y x \<longleftrightarrow> g y x) \<Longrightarrow> insert_row f x ys = insert_row g x ys"
  by (induction ys) auto

lemma order_by_cong:
  "\<forall>x\<in>set xs. \<forall>y\<in>set xs. (f x y \<longleftrightarrow> g x y) \<Longrightarrow> order_by f xs = order_by g xs"
proof (induction xs)
  case (Cons x xs)
  then have "order_by f xs = order_by g xs" by simp
  moreover have "insert_row f x (order_by g xs) = insert_row g x (order_by g xs)"
    using Cons.prems by (intro insert_row_cong) simp
  ultimately show ?case by (simp add: order_by_Cons)
qed simp

lemma sorted_fracs:
  assumes "\<forall>x\<in>set xs. frac_ok x"
  shows "sorted (map val (order_by frac_less xs))"
proof -
  have "order_by frac_less xs = order_by (\<lambda>a b. val a < val b) xs"
    using assms by (intro order_by_cong) (simp add: frac_less_val)
  then show ?thesis
    using row_order.sorted_order_by [OF row_order_linorder, of val xs] by (simp add: sorted_map not_less)
qed

lemma sorted_remdups_adj_strict:
  "sorted (map f xs) \<Longrightarrow> inj_on f (set xs) \<Longrightarrow> sorted_wrt (<) (map f (remdups_adj xs))" for f :: "'a \<Rightarrow> 'b::linorder"
proof (induction xs rule: remdups_adj.induct)
  case (3 x y xs)
  show ?case
  proof (cases "x = y")
    case False
    then have "f x < f y" using 3(3,4) by (auto simp: inj_on_def order_less_le)
    moreover have "\<forall>z\<in>set xs. f y \<le> f z" using 3(3) by auto
    ultimately show ?thesis using False 3 by (auto simp: order_less_le_trans inj_on_def)
  qed (use 3 in auto)
qed auto

text \<open>
  The list of harmony changes is exact: its onsets rise strictly, and an onset is in it exactly
  when the symbols that start there differ, with the symbols before and after.
\<close>

theorem harmony_changes_exact:
  assumes "\<forall>c\<in>set (vt_chords a @ vt_chords b). frac_ok (c_onset c)"
  shows "sorted_wrt (<) (map (val \<circ> hc_onset) (harmony_changes s a b)) \<and>
    (\<forall>onset. symbols_at a onset \<noteq> symbols_at b onset \<longleftrightarrow>
      \<lparr> hc_onset = onset, hc_bar = bar_number_at s onset, hc_before = symbols_at a onset, hc_after = symbols_at b onset \<rparr>
        \<in> set (harmony_changes s a b))"
proof -
  let ?os = "map c_onset (vt_chords a @ vt_chords b)"
  have ok: "\<forall>x\<in>set ?os. frac_ok x" using assms by auto
  then have "inj_on val (set (order_by frac_less ?os))"
    unfolding inj_on_def set_order_by by (metis frac_eq_val)
  then have "sorted_wrt (<) (map val (chord_onsets a b))"
    unfolding chord_onsets_def by (intro sorted_remdups_adj_strict sorted_fracs [OF ok])
  then have "sorted_wrt (<) (map (val \<circ> hc_onset) (harmony_changes s a b))"
    unfolding harmony_changes_def by (simp add: comp_def sorted_wrt_map sorted_wrt_filter)
  moreover have "onset \<in> set (chord_onsets a b)" if "symbols_at a onset \<noteq> symbols_at b onset" for onset
  proof (rule ccontr)
    assume "onset \<notin> set (chord_onsets a b)"
    then have "\<forall>c\<in>set (vt_chords a). c_onset c \<noteq> onset" "\<forall>c\<in>set (vt_chords b). c_onset c \<noteq> onset"
      by (auto simp: chord_onsets_def)
    then have "symbols_at a onset = None" "symbols_at b onset = None" by (simp_all add: symbols_at_def)
    with that show False by simp
  qed
  ultimately show ?thesis by (auto simp: harmony_changes_def)
qed

section \<open>Changes of form\<close>

text \<open>The notes of a list of sections, one section after the other from a point in time.\<close>

fun laid_out :: "voice_track \<Rightarrow> frac \<Rightarrow> sect list \<Rightarrow> sounding_note list" where
  "laid_out t start [] = []"
| "laid_out t start (x # xs) =
     map (\<lambda>n. n\<lparr> n_onset := frac_add (n_onset n) start \<rparr>) (relative_notes t (sec_start x) (sec_length x))
       @ laid_out t (frac_add start (sec_length x)) xs"

lemma sorted_filter_split:
  "sorted (map f xs) \<Longrightarrow> x \<le> y \<Longrightarrow>
     filter (\<lambda>n. x \<le> f n) xs = filter (\<lambda>n. x \<le> f n \<and> f n < y) xs @ filter (\<lambda>n. y \<le> f n) xs"
  for f :: "'a \<Rightarrow> 'b::linorder"
proof (induction xs)
  case (Cons n ns)
  show ?case
  proof (cases "y \<le> f n")
    case True
    then have "\<forall>m\<in>set ns. y \<le> f m" using Cons.prems by auto
    then have none: "filter (\<lambda>n. x \<le> f n \<and> f n < y) (n # ns) = []" using True by (auto simp: filter_empty_conv)
    have "filter (\<lambda>n. x \<le> f n) (n # ns) = n # ns" "filter (\<lambda>n. y \<le> f n) (n # ns) = n # ns"
      using True Cons.prems \<open>\<forall>m\<in>set ns. y \<le> f m\<close> by (auto intro!: filter_True)
    with none show ?thesis by simp
  qed (use Cons in auto)
qed simp

lemma notes_ok_sorted: "notes_ok ns d \<Longrightarrow> sorted (map (\<lambda>n. val (n_onset n)) ns)"
  unfolding notes_ok_def sorted_map
  by (elim conjE, erule sorted_wrt_mono_rel [rotated]) (force simp: note_end_def note_ok_def)

lemma notes_before_end: "notes_ok ns d \<Longrightarrow> n \<in> set ns \<Longrightarrow> frac_ok (n_onset n) \<and> 0 \<le> val (n_onset n) \<and> val (n_onset n) < d"
  by (force simp: notes_ok_def note_ok_def note_end_def)

lemma laid_out_tiled:
  assumes "list_all2 (\<lambda>x y. sec_length x = sec_length y \<and>
      relative_notes v (sec_start x) (sec_length x) = relative_notes w (sec_start y) (sec_length y)) xs ys"
    and "tiled g b (val start) ys g' b' d" "frac_ok start" "notes_ok (vt_notes w) d"
  shows "laid_out v start xs = filter (\<lambda>n. val start \<le> val (n_onset n)) (vt_notes w)"
  using assms
proof (induction arbitrary: start g b rule: list_all2_induct)
  case Nil
  then have "val start = d" by simp
  then have "\<not> val start \<le> val (n_onset n)" if "n \<in> set (vt_notes w)" for n
    using notes_before_end [OF Nil.prems(3) that] by simp
  then show ?case by (simp add: filter_empty_conv)
next
  case (Cons x xs y ys)
  let ?next = "frac_add start (sec_length x)"
  have y: "sec_start y = start" "frac_ok (sec_length y)" "0 < val (sec_length y)"
    using Cons.prems frac_eq_val by auto
  have next_ok: "frac_ok ?next" "val ?next = val start + val (sec_length y)" using Cons y by auto
  have "laid_out v ?next xs = filter (\<lambda>n. val ?next \<le> val (n_onset n)) (vt_notes w)"
    using Cons next_ok by (intro Cons.IH) (auto simp: next_ok)
  moreover have "map (\<lambda>n. n\<lparr> n_onset := frac_add (n_onset n) start \<rparr>) (relative_notes w start (sec_length y)) =
      filter (\<lambda>n. val start \<le> val (n_onset n) \<and> val (n_onset n) < val ?next) (vt_notes w)"
  proof -
    have "filter (\<lambda>n. in_window (n_onset n) (start, frac_add start (sec_length y))) (vt_notes w) =
        filter (\<lambda>n. val start \<le> val (n_onset n) \<and> val (n_onset n) < val ?next) (vt_notes w)"
      using Cons.prems notes_before_end next_ok Cons.hyps
      by (intro filter_cong) (auto simp: in_window_def frac_le_val frac_less_val)
    moreover have "n\<lparr> n_onset := frac_add (frac_sub (n_onset n) start) start \<rparr> = n" if "n \<in> set (vt_notes w)" for n
      using notes_before_end [OF Cons.prems(3) that] Cons.prems(2) by (simp add: frac_eq_val)
    ultimately show ?thesis by (auto simp: relative_notes_def comp_def intro!: map_idI)
  qed
  moreover have "sec_length x = sec_length y"
    "relative_notes v (sec_start x) (sec_length y) = relative_notes w start (sec_length y)"
    using Cons.hyps(1) y(1) by auto
  ultimately show ?case
    using y sorted_filter_split [OF notes_ok_sorted [OF Cons.prems(3)], of "val start" "val ?next"] next_ok by simp
qed

text \<open>
  C16. An accepted change of form is a rearrangement: the notes of each voice of the edited score are
  the notes of the source sections in the order declared, each moved to the time at which the sections
  before it end, and no other note.
\<close>

theorem form_edit_is_rearrangement:
  assumes "ir_matches (check_edit sha256 c s a t b)" "cc_form c = Some form" "parse_score txt = Inr t" "i < 2"
  shows "vt_notes (voice_at t i) = laid_out (voice_at s i) frac_zero (map (nth (sc_sections s)) (section_order form))"
proof -
  obtain st where st: "state_ok st" "sc_voices t = (v_track (p_vocal st), v_track (p_ins st))" "sc_sections t = p_sections st"
    and bars: "vt_bars (v_track (p_vocal st)) = vt_bars (v_track (p_ins st))"
    using parse_score_state [OF assms(3)] by blast
  let ?d = "val (v_time (p_vocal st))"
  have ok: "voice_ok (p_vocal st) 0" "voice_ok (p_ins st) 0" and tiles: "\<exists>g b. tiled 0 0 0 (sc_sections t) g b ?d"
    using st by (auto simp: state_ok_def)
  have "val (v_time (p_ins st)) = ?d" using ok bars grid_unique by (metis voice_ok_def)
  then have played: "notes_ok (vt_notes (voice_at t i)) ?d"
    using ok st(2) by (simp add: voice_ok_def voice_at_def)
  have "form_kept form s t" using assms(1,2) by (simp add: report_upheld form_upheld)
  then have "list_all2 (\<lambda>x y. sec_length x = sec_length y \<and>
      relative_notes (voice_at s i) (sec_start x) (sec_length x) = relative_notes (voice_at t i) (sec_start y) (sec_length y))
      (map (nth (sc_sections s)) (section_order form)) (sc_sections t)"
    using assms(4) by (auto simp: form_kept_def section_kept_def list_all2_map1 elim!: list_all2_mono)
  then have "laid_out (voice_at s i) frac_zero (map (nth (sc_sections s)) (section_order form)) =
      filter (\<lambda>n. val frac_zero \<le> val (n_onset n)) (vt_notes (voice_at t i))"
    using tiles played laid_out_tiled by fastforce
  also have "\<dots> = vt_notes (voice_at t i)" using notes_before_end [OF played] by (intro filter_True) simp
  finally show ?thesis by simp
qed

section \<open>Witnesses\<close>

definition demo_chords :: voice_track where
  "demo_chords = \<lparr> vt_notes = [], vt_bars = [], vt_chords = [\<lparr> c_onset = frac_int 2, c_chord = ''C'' \<rparr>], vt_keys = [] \<rparr>"

theorem harmony_changes_exact_witness:
  "\<lparr> hc_onset = frac_int 2, hc_bar = bar_number_at demo_score (frac_int 2), hc_before = Some ''C'', hc_after = None \<rparr>
     \<in> set (harmony_changes demo_score demo_chords (demo_chords\<lparr> vt_chords := [] \<rparr>))"
proof -
  have "\<forall>c\<in>set (vt_chords demo_chords @ vt_chords (demo_chords\<lparr> vt_chords := [] \<rparr>)). frac_ok (c_onset c)"
    by (simp add: demo_chords_def)
  moreover have "symbols_at demo_chords (frac_int 2) = Some ''C''" "symbols_at (demo_chords\<lparr> vt_chords := [] \<rparr>) (frac_int 2) = None"
    by (simp_all add: symbols_at_def demo_chords_def)
  ultimately show ?thesis
    using harmony_changes_exact [of demo_chords "demo_chords\<lparr> vt_chords := [] \<rparr>" demo_score] by (metis option.distinct(1))
qed

definition demo_request :: song_request where
  "demo_request = \<lparr> r_style = ''folk'', r_lyrics = ''la'', r_cot = Full, r_seed = 831001, r_cfg_scale = None \<rparr>"

definition demo_form :: change_contract where
  "demo_form = default_contract\<lparr> cc_form := Some \<lparr> section_order = [0] \<rparr> \<rparr>"

lemma demo_sections: "length (sc_sections demo_score) = 1"
  by (simp add: demo_score_def demo_state_def add_group_def Let_def)

lemma demo_form_matches: "ir_matches (check_edit sha256 demo_form demo_score demo_request demo_score demo_request)"
proof -
  obtain x where "sc_sections demo_score = [x]" using demo_sections by (auto simp: length_Suc_conv)
  then have "form_kept \<lparr> section_order = [0] \<rparr> demo_score demo_score" by (simp add: form_kept_def section_kept_def)
  moreover have "request_kept demo_form demo_request demo_request" by (simp add: request_kept_def demo_request_def)
  ultimately show ?thesis by (simp add: report_upheld requests_upheld form_upheld demo_form_def)
qed

theorem form_edit_is_rearrangement_witness:
  "vt_notes (voice_at demo_score 0) = laid_out (voice_at demo_score 0) frac_zero [sc_sections demo_score ! 0]"
  using form_edit_is_rearrangement [OF demo_form_matches [of id] _ demo_score(1), of "\<lparr> section_order = [0] \<rparr>" 0]
  by (simp add: demo_form_def)

end
