(* ===== verification/ScoreEdit.thy ===== *)
theory ScoreEdit
  imports ScoreOps ScoreCompare
begin

text \<open>
  The edit operations of a score (\<open>apply_operation\<close> of \<open>yue2_score/ops.rs\<close>): each operation declares
  what it changes, produces a text, and is accepted only if the text parses within its size, the
  request is valid, the report against the declaration matches and something changed.
\<close>

section \<open>Model\<close>

definition MAX_SECTION_ORDER :: nat where "MAX_SECTION_ORDER = 128"

record replace_allowance =
  ra_harmony :: bool
  ra_tempo :: bool
  ra_melody :: "melody_scope option"

datatype score_edit_operation =
    Reharmonize "chord_change list"
  | StripChords keep_voice
  | SetTempo nat "string option"
  | ArrangeSections "nat list" string "string option"
  | SetLyrics string
  | SetStyle string
  | ReplaceScore string replace_allowance "string option" "string option" "cot option"

fun operation_name :: "score_edit_operation \<Rightarrow> string" where
  "operation_name (Reharmonize _) = ''reharmonize''"
| "operation_name (StripChords _) = ''strip_chords''"
| "operation_name (SetTempo _ _) = ''set_tempo''"
| "operation_name (ArrangeSections _ _ _) = ''arrange_sections''"
| "operation_name (SetLyrics _) = ''set_lyrics''"
| "operation_name (SetStyle _) = ''set_style''"
| "operation_name (ReplaceScore _ _ _ _ _) = ''replace_score''"

record edit_outcome =
  eo_score :: score
  eo_request :: song_request
  eo_contract :: change_contract
  eo_report :: invariant_report

text \<open>\<open>Yue2ScoreError\<close>, with the bad requests by their message.\<close>

datatype score_error =
    NotationError abc_error
  | InvariantError invariant_report
  | EditRefused edit_error
  | RequestRefused request_error
  | ContractRefused contract_error
  | BpmNotPositive
  | SectionOrderLength
  | ChordLeft
  | VoiceNotSilenced
  | NothingChanged

fun edit_refused :: "edit_error \<Rightarrow> score_error" where
  "edit_refused (Notation e) = NotationError e"
| "edit_refused e = EditRefused e"

text \<open>The voice an operation silences.\<close>

fun silenced_voice :: "keep_voice \<Rightarrow> voice_name option" where
  "silenced_voice KeepBoth = None"
| "silenced_voice KeepVocal = Some Ins"
| "silenced_voice KeepIns = Some Vocal"

definition with_style :: "string option \<Rightarrow> change_contract \<Rightarrow> song_request \<Rightarrow> change_contract \<times> song_request" where
  "with_style style c r =
     (case style of None \<Rightarrow> (c, r) | Some s \<Rightarrow> (c\<lparr> cc_style := True \<rparr>, r\<lparr> r_style := s \<rparr>))"

definition with_lyrics :: "string option \<Rightarrow> change_contract \<Rightarrow> song_request \<Rightarrow> change_contract \<times> song_request" where
  "with_lyrics lyrics c r =
     (case lyrics of None \<Rightarrow> (c, r) | Some s \<Rightarrow> (c\<lparr> cc_lyrics := True \<rparr>, r\<lparr> r_lyrics := s \<rparr>))"

text \<open>The declaration, the request and the text of an operation.\<close>

fun operation_text ::
  "score \<Rightarrow> song_request \<Rightarrow> score_edit_operation \<Rightarrow> score_error + (change_contract \<times> song_request \<times> string)" where
  "operation_text s r (Reharmonize changes) =
     (case reharmonize s changes of
        Inl e \<Rightarrow> Inl (edit_refused e)
      | Inr abc \<Rightarrow> Inr (default_contract\<lparr> cc_harmony := True \<rparr>, r, abc))"
| "operation_text s r (StripChords keep) =
     Inr (default_contract\<lparr> cc_harmony := True, cc_melody :=
            map_option (\<lambda>v. \<lparr> ms_voices = [v], ms_from_bar = 1, ms_to_bar = score_bar_count s \<rparr>) (silenced_voice keep) \<rparr>,
          r\<lparr> r_cot := Melody \<rparr>, strip_chords s keep)"
| "operation_text s r (SetTempo bpm style) =
     (if bpm = 0 then Inl BpmNotPositive
      else let (c, r') = with_style style (default_contract\<lparr> cc_tempo := True \<rparr>) r in
        Inr (c, r', replace_line (sc_text s) 4 (''Q:1/4='' @ show_nat bpm)))"
| "operation_text s r (ArrangeSections order lyrics style) =
     (if order = [] \<or> length order > MAX_SECTION_ORDER then Inl SectionOrderLength
      else let (c, r') = with_style style (default_contract\<lparr> cc_form := Some \<lparr> section_order = order \<rparr>, cc_lyrics := True \<rparr>)
                           (r\<lparr> r_lyrics := lyrics \<rparr>) in
        case validate_contract c s of
          Inl e \<Rightarrow> Inl (ContractRefused e)
        | Inr _ \<Rightarrow>
            (case arrange_sections s order of Inl e \<Rightarrow> Inl (edit_refused e) | Inr abc \<Rightarrow> Inr (c, r', abc)))"
| "operation_text s r (SetLyrics lyrics) =
     Inr (default_contract\<lparr> cc_lyrics := True \<rparr>, r\<lparr> r_lyrics := lyrics \<rparr>, sc_text s)"
| "operation_text s r (SetStyle style) =
     Inr (default_contract\<lparr> cc_style := True \<rparr>, r\<lparr> r_style := style \<rparr>, sc_text s)"
| "operation_text s r (ReplaceScore abc allow lyrics style mode) =
     (let c = default_contract\<lparr> cc_harmony := ra_harmony allow, cc_tempo := ra_tempo allow, cc_melody := ra_melody allow \<rparr>;
          (c, r') = with_lyrics lyrics c r; (c, r') = with_style style c r' in
      Inr (c, (case mode of None \<Rightarrow> r' | Some v \<Rightarrow> r'\<lparr> r_cot := v \<rparr>), abc))"

fun check_stripped :: "score_edit_operation \<Rightarrow> score \<Rightarrow> score_error + unit" where
  "check_stripped (StripChords keep) t =
     (if has_chords t then Inl ChordLeft
      else if (case silenced_voice keep of None \<Rightarrow> False | Some v \<Rightarrow> vt_notes (voice_at t (voice_index v)) \<noteq> [])
      then Inl VoiceNotSilenced else Inr ())"
| "check_stripped _ _ = Inr ()"

definition apply_operation ::
  "(string \<Rightarrow> string) \<Rightarrow> score \<Rightarrow> song_request \<Rightarrow> score_edit_operation \<Rightarrow> score_error + edit_outcome" where
  "apply_operation sha256 s r op =
     (case operation_text s r op of
        Inl e \<Rightarrow> Inl e
      | Inr (c, r', abc) \<Rightarrow>
     (case validate_contract c s of
        Inl e \<Rightarrow> Inl (ContractRefused e)
      | Inr _ \<Rightarrow>
     (case check_abc_size abc of
        Inl e \<Rightarrow> Inl (RequestRefused e)
      | Inr _ \<Rightarrow>
     (case parse_score abc of
        Inl e \<Rightarrow> Inl (NotationError e)
      | Inr t \<Rightarrow>
     (case validate_request r' t of
        Inl e \<Rightarrow> Inl (RequestRefused e)
      | Inr _ \<Rightarrow>
     (case check_stripped op t of
        Inl e \<Rightarrow> Inl e
      | Inr _ \<Rightarrow>
          let report = check_edit sha256 c s r t r' in
          if \<not> ir_matches report then Inl (InvariantError report)
          else if ir_matches (describe_differences sha256 s r t r') then Inl NothingChanged
          else Inr \<lparr> eo_score = t, eo_request = r', eo_contract = c, eo_report = report \<rparr>))))))"

section \<open>What an accepted edit may change\<close>

lemma apply_operation_accepted:
  assumes "apply_operation sha256 s r op = Inr out"
  obtains c r' abc t where "operation_text s r op = Inr (c, r', abc)" "validate_contract c s = Inr ()"
    "length abc \<le> MAX_ABC_BYTES" "parse_score abc = Inr t" "validate_request r' t = Inr ()" "check_stripped op t = Inr ()"
    "ir_matches (check_edit sha256 c s r t r')" "\<not> ir_matches (describe_differences sha256 s r t r')"
    "eo_score out = t" "eo_request out = r'" "eo_contract out = c"
  using assms
  by (auto simp: apply_operation_def check_abc_size_def Let_def split: sum.splits if_splits prod.splits)

lemma same_text: "parse_score txt = Inr t \<Longrightarrow> sc_text t = txt"
  using parse_score_state by blast

lemma matches_kept:
  "ir_matches (check_edit sha256 c s a t b) \<longleftrightarrow>
     request_kept c a b \<and> (case cc_form c of None \<Rightarrow> in_place_kept c s t | Some form \<Rightarrow> form_kept form s t)"
  by (auto simp: report_upheld in_place_upheld requests_upheld form_upheld split: option.splits)

text \<open>
  C14. An accepted edit keeps its declaration: the declaration is valid for the source, everything the
  declaration does not name is unchanged in the edited score and request, the edited score is what its
  text parses to and its text is within the size limit, the request is valid for it, and the edit
  changed something.
\<close>

theorem accepted_edit_keeps_contract:
  assumes "apply_operation sha256 s r op = Inr out"
  defines "c \<equiv> eo_contract out" and "t \<equiv> eo_score out" and "r' \<equiv> eo_request out"
  shows "validate_contract c s = Inr () \<and> request_kept c r r' \<and>
    (case cc_form c of None \<Rightarrow> in_place_kept c s t | Some form \<Rightarrow> form_kept form s t) \<and>
    parse_score (sc_text t) = Inr t \<and> length (sc_text t) \<le> MAX_ABC_BYTES \<and> validate_request r' t = Inr () \<and>
    \<not> (request_kept default_contract r r' \<and> in_place_kept default_contract s t)"
  using assms(1) unfolding c_def t_def r'_def
  by (rule apply_operation_accepted) (auto simp: matches_kept describe_differences_def default_contract_def dest: same_text)

text \<open>The music without chords, keys and tempo.\<close>

definition same_melody :: "score \<Rightarrow> score \<Rightarrow> bool" where
  "same_melody s t \<longleftrightarrow> section_map s = section_map t \<and>
     (\<forall>i<2. vt_bars (voice_at s i) = vt_bars (voice_at t i) \<and> vt_notes (voice_at s i) = vt_notes (voice_at t i))"


section \<open>Rebuilding a text from its lines\<close>

lemma pieces_concat: "concat (map (\<lambda>p. p @ [sep]) (butlast (split_on sep s))) @ last (split_on sep s) = s"
  by (induction s) (auto split: list.splits)

lemma has_crlf_within: "has_crlf (xs @ [CHR 0x0D, CHR 0x0A] @ ys)"
  by (induction xs rule: has_crlf.induct) (auto simp: neq_Nil_conv)

lemma split_terminated:
  "\<forall>l\<in>set ls. CHR 0x0A \<notin> set l \<Longrightarrow> CHR 0x0A \<notin> set final \<Longrightarrow>
     split_on (CHR 0x0A) (concat (map (\<lambda>l. l @ [CHR 0x0A]) ls) @ final) = ls @ [final]"
  by (induction ls) (auto simp: split_on_append split_on_part)

text \<open>The lines of a text that is written line by line with the ending \<open>cr @ [LF]\<close>.\<close>

lemma text_lines_terminated:
  assumes "\<forall>l\<in>set ls. CHR 0x0A \<notin> set l \<and> (cr = [] \<longrightarrow> l = [] \<or> last l \<noteq> CHR 0x0D)" "CHR 0x0A \<notin> set final"
    and "cr = [] \<or> cr = [CHR 0x0D]"
  shows "text_lines (concat (map (\<lambda>l. l @ cr @ [CHR 0x0A]) ls) @ final) = ls @ (if final = [] then [] else [final])"
proof -
  have "split_on (CHR 0x0A) (concat (map (\<lambda>l. l @ [CHR 0x0A]) (map (\<lambda>l. l @ cr) ls)) @ final) = map (\<lambda>l. l @ cr) ls @ [final]"
    using assms by (intro split_terminated) auto
  then have pieces: "split_on (CHR 0x0A) (concat (map (\<lambda>l. l @ cr @ [CHR 0x0A]) ls) @ final) = map (\<lambda>l. l @ cr) ls @ [final]"
    by (simp add: comp_def)
  have "map (\<lambda>l. if l @ cr \<noteq> [] \<and> last (l @ cr) = CHR 0x0D then butlast (l @ cr) else l @ cr) ls = ls"
    using assms by (intro map_idI) auto
  then show ?thesis by (simp add: text_lines_def pieces Let_def comp_def)
qed

lemma join_terminated: "ls \<noteq> [] \<Longrightarrow> join_with e ls = concat (map (\<lambda>l. l @ e) (butlast ls)) @ last ls"
  by (induction e ls rule: join_with.induct) auto

lemma join_ended: "ls \<noteq> [] \<Longrightarrow> join_with e ls @ e = concat (map (\<lambda>l. l @ e) ls)"
  by (induction e ls rule: join_with.induct) auto

text \<open>The lines of a text, and the ending they were written with.\<close>

lemma text_lines_parts:
  fixes body :: string
  defines "ls \<equiv> text_lines body" and "ended \<equiv> body \<noteq> [] \<and> last body = CHR 0x0A"
  assumes "ls \<noteq> []"
  shows "\<forall>l\<in>set ls. CHR 0x0A \<notin> set l" "\<not> ended \<Longrightarrow> last ls \<noteq> []"
    "\<not> has_crlf body \<Longrightarrow> l \<in> set (if ended then ls else butlast ls) \<Longrightarrow> l = [] \<or> last l \<noteq> CHR 0x0D"
proof -
  let ?ps = "split_on (CHR 0x0A) body" and ?strip = "\<lambda>l. if l \<noteq> [] \<and> last l = CHR 0x0D then butlast l else l"
  have ls: "ls = map ?strip (butlast ?ps) @ (if last ?ps = [] then [] else [last ?ps])"
    by (simp add: ls_def text_lines_def Let_def)
  have clean: "CHR 0x0A \<notin> set p" if "p \<in> set ?ps" for p using split_on_no_sep that by blast
  have body: "concat (map (\<lambda>p. p @ [CHR 0x0A]) (butlast ?ps)) @ last ?ps = body" by (rule pieces_concat)
  have ended: "ended \<longleftrightarrow> last ?ps = []"
  proof (cases "last ?ps = []")
    case True
    then have "butlast ?ps \<noteq> []" using assms(3) ls by auto
    then obtain qs q where "butlast ?ps = qs @ [q]" by (metis rev_exhaust)
    then have "body = (concat (map (\<lambda>p. p @ [CHR 0x0A]) qs) @ q) @ [CHR 0x0A]" using body True by simp
    then have "body \<noteq> [] \<and> last body = CHR 0x0A" by (metis last_snoc snoc_eq_iff_butlast)
    with True show ?thesis by (simp add: ended_def)
  next
    case False
    then have "last body = last (last ?ps)" using body by (metis last_appendR)
    moreover have "last (last ?ps) \<noteq> CHR 0x0A" using clean [of "last ?ps"] False by (metis last_in_set split_on_not_Nil)
    ultimately show ?thesis using False by (simp add: ended_def)
  qed
  show "\<forall>l\<in>set ls. CHR 0x0A \<notin> set l"
    using clean by (auto simp: ls dest!: in_set_butlastD split: if_splits)
  show "last ls \<noteq> []" if "\<not> ended" using that by (simp add: ls ended)
  show "l = [] \<or> last l \<noteq> CHR 0x0D" if no: "\<not> has_crlf body" and l: "l \<in> set (if ended then ls else butlast ls)"
  proof -
    obtain p where p: "p \<in> set (butlast ?ps)" "l = ?strip p" using l by (auto simp: ls ended split: if_splits)
    then obtain as bs where "butlast ?ps = as @ p # bs" by (meson split_list)
    then have "body = concat (map (\<lambda>p. p @ [CHR 0x0A]) as) @ p @ [CHR 0x0A] @ concat (map (\<lambda>p. p @ [CHR 0x0A]) bs) @ last ?ps"
      using body by simp
    then have "p = [] \<or> last p \<noteq> CHR 0x0D"
      using no has_crlf_within by (metis append.assoc append_Cons append_Nil append_butlast_last_id)
    with p show ?thesis by auto
  qed
qed

lemma text_lines_replace:
  assumes "i < length (text_lines txt)" "CHR 0x0A \<notin> set line" "line \<noteq> []" "last line \<noteq> CHR 0x0D"
  shows "text_lines (replace_line txt i line) = (text_lines txt)[i := line]"
proof -
  let ?ls = "text_lines txt" and ?ended = "txt \<noteq> [] \<and> last txt = CHR 0x0A"
  let ?new = "?ls[i := line]" and ?cr = "if has_crlf txt then [CHR 0x0D] else []"
  have ls: "?ls \<noteq> []" using assms(1) by auto
  note parts = text_lines_parts [OF ls]
  have e: "line_ending txt = ?cr @ [CHR 0x0A]" by (simp add: line_ending_def)
  have new: "?new \<noteq> []" "length ?new = length ?ls" using ls by auto
  have clean: "\<forall>l\<in>set ?new. CHR 0x0A \<notin> set l" using parts(1) assms(2) by (auto dest!: set_update_subset_insert [THEN subsetD])
  have bare: "?cr = [] \<longrightarrow> l = [] \<or> last l \<noteq> CHR 0x0D" if "l \<in> set (if ?ended then ?new else butlast ?new)" for l
    using that parts(3) [of l] assms(4)
    by (auto simp: butlast_list_update dest!: set_update_subset_insert [THEN subsetD] split: if_splits)
  show ?thesis
  proof (cases ?ended)
    case True
    then have "replace_line txt i line = concat (map (\<lambda>l. l @ ?cr @ [CHR 0x0A]) ?new) @ []"
      using new join_ended [of ?new "line_ending txt"] by (simp add: replace_line_def rebuild_lines_def e)
    then show ?thesis using text_lines_terminated [of ?new ?cr "[]"] clean bare True by auto
  next
    case False
    have final: "last ?new \<noteq> []" using parts(2) False assms(3) new by (simp add: last_list_update)
    have "replace_line txt i line = concat (map (\<lambda>l. l @ ?cr @ [CHR 0x0A]) (butlast ?new)) @ last ?new"
      using False new join_terminated [of ?new "line_ending txt"] by (auto simp: replace_line_def rebuild_lines_def e)
    moreover have "\<forall>l\<in>set (butlast ?new). CHR 0x0A \<notin> set l \<and> (?cr = [] \<longrightarrow> l = [] \<or> last l \<noteq> CHR 0x0D)"
      using clean bare False in_set_butlastD by fastforce
    then have "text_lines (concat (map (\<lambda>l. l @ ?cr @ [CHR 0x0A]) (butlast ?new)) @ last ?new) = butlast ?new @ [last ?new]"
      using text_lines_terminated [of "butlast ?new" ?cr "last ?new"] clean final new by simp
    ultimately show ?thesis using new by simp
  qed
qed

section \<open>Changing the tempo succeeds\<close>

lemma show_nat_head: "0 < n \<Longrightarrow> show_nat n \<noteq> [] \<and> hd (show_nat n) \<noteq> CHR ''0''"
proof (induction n rule: show_nat.induct)
  case (1 n)
  show ?case
  proof (cases "n < 10")
    case True
    then have "char_code (digit_char n) \<noteq> char_code (CHR ''0'')"
      using 1 char_code_digit_char [of n] by (simp add: char_code_def)
    then show ?thesis using True by (auto simp: show_nat_small)
  next
    case False
    then have "0 < n div 10" by simp
    then show ?thesis using 1 False by (simp add: show_nat_snoc [of n])
  qed
qed

lemma positive_decimal_show: "0 < n \<Longrightarrow> n < 2 ^ 32 \<Longrightarrow> positive_decimal (show_nat n) = Some n"
  using show_nat_head [of n] show_nat_digits [of n]
  by (simp add: positive_decimal_def parse_u32_def digits_value_show_nat list_all_iff)

definition tempo_line :: "nat \<Rightarrow> string" where
  "tempo_line bpm = ''Q:1/4='' @ show_nat bpm"

lemma tempo_line_clean:
  "CHR 0x0A \<notin> set (tempo_line bpm)" "tempo_line bpm \<noteq> []" "0 < bpm \<Longrightarrow> last (tempo_line bpm) \<noteq> CHR 0x0D"
proof -
  have no: "c \<notin> set (show_nat bpm)" if "\<not> is_ascii_digit c" for c
    using show_nat_digits [of bpm] that by (auto simp: list_all_iff)
  show "CHR 0x0A \<notin> set (tempo_line bpm)" using no by (simp add: tempo_line_def is_ascii_digit_def char_code_def)
  show "tempo_line bpm \<noteq> []" by (simp add: tempo_line_def)
  assume "0 < bpm"
  then have "last (tempo_line bpm) \<in> set (show_nat bpm)" using show_nat_head by (simp add: tempo_line_def)
  then show "last (tempo_line bpm) \<noteq> CHR 0x0D" using no [of "CHR 0x0D"] by (auto simp: is_ascii_digit_def char_code_def)
qed

lemma header_tempo:
  assumes "parse_header ls = Inr (m, unit, old, key)" "0 < bpm" "bpm < 2 ^ 32"
  shows "parse_header (ls[4 := tempo_line bpm]) = Inr (m, unit, bpm, key)"
proof -
  have "strip_prefix ''Q:1/4='' (tempo_line bpm) = Some (show_nat bpm)" by (simp add: tempo_line_def strip_prefix_def)
  then show ?thesis
    using assms positive_decimal_show [OF assms(2,3)]
    by (auto simp: parse_header_def bind_eq_Some_conv split: if_splits option.splits sum.splits)
qed

lemma parse_tempo:
  assumes "parse_score body = Inr s" "0 < bpm" "bpm < 2 ^ 32"
  shows "parse_score (replace_line body 4 (tempo_line bpm)) =
    Inr (s\<lparr> sc_text := replace_line body 4 (tempo_line bpm), sc_bpm := bpm \<rparr>)"
proof -
  obtain m unit old key where header: "parse_header (text_lines body) = Inr (m, unit, old, key)"
    using assms(1) by (auto simp: parse_score_def Let_def split: sum.splits)
  then have "12 \<le> length (text_lines body)" by (auto simp: parse_header_def split: if_splits)
  then have "text_lines (replace_line body 4 (tempo_line bpm)) = (text_lines body)[4 := tempo_line bpm]"
    using tempo_line_clean [of bpm] assms(2) by (intro text_lines_replace) auto
  then show ?thesis
    using assms(1) header header_tempo [OF header assms(2,3)]
    by (auto simp: parse_score_def Let_def split: sum.splits if_splits)
qed

lemma validate_request_ok:
  "validate_request r s = Inr () \<longleftrightarrow>
     chars_count (r_style r) \<le> MAX_STYLE_CHARS \<and> chars_count (r_lyrics r) \<le> MAX_LYRICS_CHARS \<and> r_seed r < 2 ^ 63 \<and>
     pred_option cfg_scale_ok (r_cfg_scale r) \<and> (r_cot r = Melody \<longrightarrow> \<not> has_chords s)"
  by (cases "r_cfg_scale r") (auto simp: validate_request_def check_text_def Let_def)

lemma validate_request_cfg: "validate_request r s = Inr () \<Longrightarrow> cfg_eq (r_cfg_scale r) (r_cfg_scale r)"
  by (cases "r_cfg_scale r") (auto simp: validate_request_ok cfg_scale_ok_def)

text \<open>
  C18. Changing the tempo of a stored score always succeeds: for a score that is what its text parses to,
  a valid request and a tempo that is positive, fits its width and differs from the old one, as long as
  the new text is within the size limit, the edit is accepted and the result is the same score at the
  new tempo with the tempo line of its text replaced, whatever line endings the text uses.
\<close>

theorem set_tempo_succeeds:
  assumes "parse_score (sc_text s) = Inr s" "validate_request r s = Inr ()" "0 < bpm" "bpm < 2 ^ 32" "bpm \<noteq> sc_bpm s"
    and "length (replace_line (sc_text s) 4 (tempo_line bpm)) \<le> MAX_ABC_BYTES"
  shows "\<exists>out. apply_operation sha256 s r (SetTempo bpm None) = Inr out \<and> eo_request out = r \<and>
    eo_score out = s\<lparr> sc_text := replace_line (sc_text s) 4 (tempo_line bpm), sc_bpm := bpm \<rparr>"
proof -
  let ?abc = "replace_line (sc_text s) 4 (tempo_line bpm)"
  let ?t = "s\<lparr> sc_text := ?abc, sc_bpm := bpm \<rparr>" and ?c = "default_contract\<lparr> cc_tempo := True \<rparr>"
  have same: "voice_at ?t i = voice_at s i" "section_map ?t = section_map s" for i
    by (simp_all add: voice_at_def section_map_def)
  have parsed: "parse_score ?abc = Inr ?t" using assms parse_tempo by simp
  have "in_place_kept ?c s ?t" by (simp add: in_place_kept_def notes_kept_def same default_contract_def)
  moreover have "request_kept c r r" for c using validate_request_cfg [OF assms(2)] by (simp add: request_kept_def)
  ultimately have ok: "ir_matches (check_edit sha256 ?c s r ?t r)" by (simp add: matches_kept default_contract_def)
  have "\<not> in_place_kept default_contract s ?t" using assms(5) by (simp add: in_place_kept_def default_contract_def)
  then have changed: "\<not> ir_matches (describe_differences sha256 s r ?t r)"
    by (simp add: describe_differences_def matches_kept default_contract_def)
  have "operation_text s r (SetTempo bpm None) = Inr (?c, r, ?abc)"
    using assms(3) by (simp add: with_style_def tempo_line_def)
  moreover have "validate_contract ?c s = Inr ()"
    by (simp add: validate_contract_def validate_melody_def validate_form_def default_contract_def)
  moreover have "validate_request r ?t = Inr ()" using assms(2) by (simp add: validate_request_ok has_chords_def)
  ultimately show ?thesis
    using assms(6) parsed ok changed by (simp add: apply_operation_def check_abc_size_def Let_def)
qed

section \<open>Witnesses\<close>

lemma set_lyrics_accepted:
  assumes "parse_score (sc_text s) = Inr s" "validate_request r s = Inr ()" "length (sc_text s) \<le> MAX_ABC_BYTES"
    and "l \<noteq> r_lyrics r" "chars_count l \<le> MAX_LYRICS_CHARS"
  shows "\<exists>out. apply_operation sha256 s r (SetLyrics l) = Inr out"
proof -
  let ?c = "default_contract\<lparr> cc_lyrics := True \<rparr>" and ?r = "r\<lparr> r_lyrics := l \<rparr>"
  have "in_place_kept c s s" for c by (simp add: in_place_kept_def notes_kept_def split: option.split)
  moreover have "request_kept ?c r ?r" using validate_request_cfg [OF assms(2)] by (simp add: request_kept_def)
  ultimately have ok: "ir_matches (check_edit sha256 ?c s r s ?r)" by (simp add: matches_kept default_contract_def)
  have changed: "\<not> ir_matches (describe_differences sha256 s r s ?r)"
    using assms(4) by (simp add: describe_differences_def matches_kept request_kept_def default_contract_def)
  have "validate_contract ?c s = Inr ()"
    by (simp add: validate_contract_def validate_melody_def validate_form_def default_contract_def)
  moreover have "validate_request ?r s = Inr ()" using assms(2,5) by (simp add: validate_request_ok)
  ultimately show ?thesis
    using assms(1,3) ok changed by (simp add: apply_operation_def check_abc_size_def Let_def)
qed

lemma demo_valid: "validate_request demo_request demo_score = Inr ()" "sc_text demo_score = demo_score_text" "sc_bpm demo_score = 90"
  by (simp_all add: validate_request_ok demo_request_def chars_count_def char_code_def MAX_STYLE_CHARS_def MAX_LYRICS_CHARS_def demo_score_def)

lemma demo_score_size: "length demo_score_text \<le> MAX_ABC_BYTES"
  by (simp add: demo_score_text_def demo_lines_def VOICE_DEFINITIONS_def MAX_ABC_BYTES_def)

lemma demo_edit: "\<exists>out. apply_operation id demo_score demo_request (SetLyrics ''oh'') = Inr out"
  by (rule set_lyrics_accepted) (simp_all add: demo_valid demo_score(1) demo_score_size, simp_all add: demo_request_def chars_count_def
      char_code_def MAX_LYRICS_CHARS_def)

theorem accepted_edit_keeps_contract_witness:
  "\<exists>out. apply_operation id demo_score demo_request (SetLyrics ''oh'') = Inr out \<and> parse_score (sc_text (eo_score out)) = Inr (eo_score out)"
proof -
  obtain out where out: "apply_operation id demo_score demo_request (SetLyrics ''oh'') = Inr out" using demo_edit by blast
  then show ?thesis using accepted_edit_keeps_contract [OF out] by blast
qed


lemma demo_tempo_size: "length (replace_line demo_score_text 4 (tempo_line 120)) \<le> MAX_ABC_BYTES"
proof -
  have "length (line_ending demo_score_text) \<le> 2" "length (show_nat 120) = 3"
    by (simp_all add: line_ending_def show_nat.simps [of 120] show_nat.simps [of 12] show_nat_small)
  then show ?thesis
    by (simp add: replace_line_def rebuild_lines_def demo_text_lines demo_lines_def tempo_line_def VOICE_DEFINITIONS_def MAX_ABC_BYTES_def)
qed

theorem set_tempo_succeeds_witness:
  "\<exists>out. apply_operation id demo_score demo_request (SetTempo 120 None) = Inr out \<and> sc_bpm (eo_score out) = 120 \<and>
    sc_voices (eo_score out) = sc_voices demo_score"
proof -
  have "\<exists>out. apply_operation id demo_score demo_request (SetTempo 120 None) = Inr out \<and> eo_request out = demo_request \<and>
      eo_score out = demo_score\<lparr> sc_text := replace_line (sc_text demo_score) 4 (tempo_line 120), sc_bpm := 120 \<rparr>"
    by (rule set_tempo_succeeds) (simp_all add: demo_valid demo_score(1) demo_tempo_size)
  then show ?thesis by auto
qed

end
