(* ===== verification/CacheStore.thy ===== *)
theory CacheStore
  imports Prelude
begin

text \<open>
  The resolved cache keeps verified copies of model bundles on local disk
  (\<open>resolved_cache.rs\<close>). This theory has its policy with the environment round trip, the
  errors, the metadata of an entry with its pins, and the two-slot metadata journal. The
  shape check of a document, which walks the files of the bundle, is a parameter; times are
  seconds and lengths are below \<open>2 ^ 64\<close>.
\<close>

section \<open>Errors and policy\<close>

datatype cache_error_kind = Request | Internal

record cache_error =
  ce_message :: string
  ce_kind :: cache_error_kind

definition internal_error :: "string \<Rightarrow> cache_error" where
  "internal_error message = \<lparr> ce_message = message, ce_kind = Internal \<rparr>"

definition request_error :: "string \<Rightarrow> cache_error" where
  "request_error message = \<lparr> ce_message = message, ce_kind = Request \<rparr>"

definition BOTH_METADATA_SLOTS_CORRUPT :: string where
  "BOTH_METADATA_SLOTS_CORRUPT = ''both cache metadata slots are corrupt''"

definition is_unrecoverable_metadata :: "cache_error \<Rightarrow> bool" where
  "is_unrecoverable_metadata e \<longleftrightarrow> ce_message e = BOTH_METADATA_SLOTS_CORRUPT"

record cache_policy =
  cp_enabled :: bool
  cp_max_bytes :: nat
  cp_inactivity_seconds :: nat

definition default_policy :: cache_policy where
  "default_policy = \<lparr> cp_enabled = False, cp_max_bytes = 68719476736, cp_inactivity_seconds = 1209600 \<rparr>"

definition validate_policy :: "cache_policy \<Rightarrow> cache_error + unit" where
  "validate_policy p =
     (if cp_max_bytes p = 0
      then Inl (internal_error ''resolved cache maxBytes must be finite and greater than zero'')
      else if cp_inactivity_seconds p = 0
      then Inl (internal_error ''resolved cache inactivitySeconds must be greater than zero'')
      else Inr ())"

definition ENABLED_ENV :: string where "ENABLED_ENV = ''SCENEWORKS_RESOLVED_CACHE_ENABLED''"
definition MAX_BYTES_ENV :: string where "MAX_BYTES_ENV = ''SCENEWORKS_RESOLVED_CACHE_MAX_BYTES''"
definition INACTIVITY_ENV :: string where "INACTIVITY_ENV = ''SCENEWORKS_RESOLVED_CACHE_INACTIVITY_SECONDS''"

definition env_pairs :: "cache_policy \<Rightarrow> cache_error + (string \<times> string) list" where
  "env_pairs p =
     (case validate_policy p of
        Inl e \<Rightarrow> Inl e
      | Inr _ \<Rightarrow> Inr [(ENABLED_ENV, if cp_enabled p then ''true'' else ''false''),
                     (MAX_BYTES_ENV, show_nat (cp_max_bytes p)),
                     (INACTIVITY_ENV, show_nat (cp_inactivity_seconds p))])"

definition parse_bool :: "string \<Rightarrow> bool option" where
  "parse_bool text =
     (let v = lowercase (trim text)
      in if v \<in> {''1'', ''true'', ''yes'', ''on''} then Some True
         else if v \<in> {''0'', ''false'', ''no'', ''off''} then Some False
         else None)"

text \<open>\<open>str::parse::<u64>\<close>: an optional plus sign and digits, below \<open>2 ^ 64\<close>.\<close>

definition parse_u64 :: "string \<Rightarrow> nat option" where
  "parse_u64 text =
     (let digits = (case text of [] \<Rightarrow> [] | c # cs \<Rightarrow> if c = CHR ''+'' then cs else text)
      in if digits = [] \<or> \<not> list_all is_ascii_digit digits \<or> digits_value digits \<ge> 2 ^ 64 then None
         else Some (digits_value digits))"

definition parse_optional_u64 :: "string option \<Rightarrow> string \<Rightarrow> nat \<Rightarrow> cache_error + nat" where
  "parse_optional_u64 found name fallback =
     (case found of
        None \<Rightarrow> Inr fallback
      | Some text \<Rightarrow>
          (case parse_u64 (trim text) of
             Some n \<Rightarrow> if n > 0 then Inr n else Inl (internal_error (name @ '' must be a positive integer''))
           | None \<Rightarrow> Inl (internal_error (name @ '' must be a positive integer''))))"

definition from_env_values :: "(string \<Rightarrow> string option) \<Rightarrow> cache_error + cache_policy" where
  "from_env_values env =
     (case (case env ENABLED_ENV of
              None \<Rightarrow> Inr (cp_enabled default_policy)
            | Some raw \<Rightarrow>
                (case parse_bool raw of
                   Some b \<Rightarrow> Inr b
                 | None \<Rightarrow> Inl (internal_error (ENABLED_ENV @ '' must be 1/true/yes/on or 0/false/no/off'')))) of
        Inl e \<Rightarrow> Inl e
      | Inr enabled \<Rightarrow>
          (case parse_optional_u64 (env MAX_BYTES_ENV) MAX_BYTES_ENV (cp_max_bytes default_policy) of
             Inl e \<Rightarrow> Inl e
           | Inr max_bytes \<Rightarrow>
               (case parse_optional_u64 (env INACTIVITY_ENV) INACTIVITY_ENV (cp_inactivity_seconds default_policy) of
                  Inl e \<Rightarrow> Inl e
                | Inr inactivity \<Rightarrow>
                    let policy = \<lparr> cp_enabled = enabled, cp_max_bytes = max_bytes, cp_inactivity_seconds = inactivity \<rparr>
                    in case validate_policy policy of Inl e \<Rightarrow> Inl e | Inr _ \<Rightarrow> Inr policy)))"

definition from_env_or_safe_default :: "(string \<Rightarrow> string option) \<Rightarrow> cache_policy" where
  "from_env_or_safe_default env = (case from_env_values env of Inr policy \<Rightarrow> policy | Inl _ \<Rightarrow> default_policy)"

section \<open>Entries\<close>

datatype entry_state = Pending | Materializing | Interrupted | Complete | Corrupt | Evicting

datatype production = SourceCopy | Derived

definition is_derived :: "production \<Rightarrow> bool" where
  "is_derived p \<longleftrightarrow> p = Derived"

datatype recovery_status =
  Clean | RecoveredFromOlderSlot | ReconstructedFromCompleteReceipt | InterruptedReservation | CorruptUnrecoverable

text \<open>
  The fields of \<open>ResolvedCacheMetadata\<close> that the operations below read or write; of the
  artifact, its identity, its tier and the root it is located at.
\<close>

record model_artifact =
  ma_repository :: string
  ma_revision :: string
  ma_tier :: "string option"
  ma_root :: string

record cache_metadata =
  cm_cache_key :: string
  cm_production :: production
  cm_derived_from :: "string option"
  cm_artifact :: model_artifact
  cm_state :: entry_state
  cm_verified_bytes :: nat
  cm_created_at :: nat
  cm_updated_at :: nat
  cm_last_used_at :: "nat option"
  cm_artifact_pinned :: bool
  cm_model_pin_owners :: "string set"
  cm_effective_pin :: bool
  cm_reservation_id :: "string option"
  cm_reservation_owner :: "string option"
  cm_session_id :: "string option"
  cm_recovery_status :: recovery_status

definition refresh_effective_pin :: "cache_metadata \<Rightarrow> cache_metadata" where
  "refresh_effective_pin m = m\<lparr> cm_effective_pin := cm_artifact_pinned m \<or> cm_model_pin_owners m \<noteq> {} \<rparr>"

definition is_lower_hex_64 :: "string \<Rightarrow> bool" where
  "is_lower_hex_64 text \<longleftrightarrow> length text = 64
     \<and> list_all (\<lambda>c. is_ascii_digit c \<or> 97 \<le> char_code c \<and> char_code c \<le> 102) text"

definition cache_key_digest :: "string \<Rightarrow> cache_error + string" where
  "cache_key_digest cache_key =
     (if take 7 cache_key = ''sha256:'' \<and> is_lower_hex_64 (drop 7 cache_key) then Inr (drop 7 cache_key)
      else Inl (request_error ''resolved-cache key must be sha256:<64 lower hex>''))"

definition validate_model_owner :: "string \<Rightarrow> cache_error + string" where
  "validate_model_owner owner =
     (let owner = trim owner
      in if owner = [] \<or> length owner > 256 \<or> list_ex is_ascii_control owner
         then Inl (internal_error ''model pin owner must be a nonempty stable logical id'')
         else Inr owner)"

section \<open>The journal\<close>

datatype eviction_cause = TtlExpired | SizePressure | ManualRemove | SourceRemoved

record eviction_marker =
  em_cache_key :: string
  em_cause :: eviction_cause
  em_reclaimable_bytes :: nat
  em_requested_at :: nat
  em_session_id :: string

text \<open>
  What one slot file holds: no file, bytes that do not decode to a document with a correct
  checksum, a document of a newer version, or an envelope.
\<close>

type_synonym shape_check = "cache_metadata \<Rightarrow> cache_error option"

datatype slot = NoFile | Damaged | NewerVersion nat | Envelope nat cache_metadata

datatype tombstone = NoTombstone | Tombstone eviction_marker | BadTombstone cache_error

datatype cleanup_state = CleanupPending | NeedsRetry | Cleaned | OwnershipChanged

record cleanup_receipt =
  cr_schema_version :: nat
  cr_cache_key :: string
  cr_reservation_id :: string
  cr_session_id :: string
  cr_state :: cleanup_state
  cr_cleanup_unpublished :: bool
  cr_process_exit_before_cleanup_possible :: bool
  cr_detail :: string

text \<open>
  An entry directory: its tombstone, its journal, the receipt of its completion and the one of
  a canceled publication as they decode, when the entry was marked corrupt, and whether a
  bundle is there.
\<close>

record entry_dir =
  ed_tombstone :: tombstone
  ed_slot_0 :: slot
  ed_slot_1 :: slot
  ed_complete_receipt :: "cache_error + cache_metadata"
  ed_corrupt_marker :: "nat option"
  ed_cleanup_receipt :: "cache_error + cleanup_receipt option"
  ed_bundle :: bool

datatype journal_read = JMissing | JEvicted eviction_marker | JValid cache_metadata bool

definition UNSUPPORTED_JOURNAL_VERSION :: string where
  "UNSUPPORTED_JOURNAL_VERSION = ''cache metadata was written by a newer SceneWorks''"

definition slot_valid :: "shape_check \<Rightarrow> slot \<Rightarrow> (nat \<times> cache_metadata) list" where
  "slot_valid shape s = (case s of Envelope g m \<Rightarrow> if shape m = None then [(g, m)] else [] | _ \<Rightarrow> [])"

definition slot_invalid :: "shape_check \<Rightarrow> slot \<Rightarrow> bool" where
  "slot_invalid shape s \<longleftrightarrow> s \<noteq> NoFile \<and> slot_valid shape s = []"

definition slot_unsupported :: "slot \<Rightarrow> nat list" where
  "slot_unsupported s = (case s of NewerVersion version \<Rightarrow> [version] | _ \<Rightarrow> [])"

definition unsupported_version :: "nat \<Rightarrow> cache_error" where
  "unsupported_version version = internal_error
     (UNSUPPORTED_JOURNAL_VERSION @ '' (journal version '' @ show_nat version @ '', newest supported 2)'')"

definition read_metadata_unlocked :: "shape_check \<Rightarrow> entry_dir \<Rightarrow> cache_error + journal_read" where
  "read_metadata_unlocked shape e =
     (case ed_tombstone e of
        BadTombstone error \<Rightarrow> Inl error
      | Tombstone marker \<Rightarrow> Inr (JEvicted marker)
      | NoTombstone \<Rightarrow>
          let slots = [ed_slot_0 e, ed_slot_1 e];
              valid = order_by (\<lambda>a b. fst a < fst b) (concat (map (slot_valid shape) slots));
              had_invalid_slot = list_ex (slot_invalid shape) slots;
              unsupported = concat (map slot_unsupported slots)
          in if valid \<noteq> [] then Inr (JValid (snd (last valid)) had_invalid_slot)
             else if unsupported \<noteq> [] then Inl (unsupported_version (last unsupported))
             else if list_ex (\<lambda>s. s \<noteq> NoFile) slots then Inl (internal_error BOTH_METADATA_SLOTS_CORRUPT)
             else Inr JMissing)"

definition slot_generation :: "slot \<Rightarrow> nat" where
  "slot_generation s = (case s of Envelope g m \<Rightarrow> g | _ \<Rightarrow> 0)"

definition highest_generation :: "entry_dir \<Rightarrow> nat" where
  "highest_generation e = max (slot_generation (ed_slot_0 e)) (slot_generation (ed_slot_1 e))"

definition write_metadata_unlocked :: "shape_check \<Rightarrow> cache_metadata \<Rightarrow> entry_dir \<Rightarrow> cache_error + entry_dir" where
  "write_metadata_unlocked shape m e =
     (case shape m of
        Some error \<Rightarrow> Inl error
      | None \<Rightarrow>
        case (case read_metadata_unlocked shape e of
                Inr (JValid _ _) \<Rightarrow>
                  if highest_generation e + 1 < 2 ^ 64 then Inr (highest_generation e + 1)
                  else Inl (internal_error ''cache metadata generation overflow'')
              | _ \<Rightarrow> Inr 1) of
          Inl error \<Rightarrow> Inl error
        | Inr generation \<Rightarrow>
            if generation mod 2 = 0 then Inr (e\<lparr> ed_slot_0 := Envelope generation m \<rparr>)
            else Inr (e\<lparr> ed_slot_1 := Envelope generation m \<rparr>))"

definition read_metadata_locked :: "shape_check \<Rightarrow> entry_dir \<Rightarrow> cache_error + cache_metadata" where
  "read_metadata_locked shape e =
     (case read_metadata_unlocked shape e of
        Inl error \<Rightarrow> Inl error
      | Inr (JValid m _) \<Rightarrow> Inr m
      | Inr (JEvicted _) \<Rightarrow> Inl (request_error ''cache entry has a pending eviction tombstone'')
      | Inr JMissing \<Rightarrow> Inl (request_error ''cache metadata is missing''))"

definition update_metadata ::
  "shape_check \<Rightarrow> nat \<Rightarrow> (cache_metadata \<Rightarrow> cache_metadata) \<Rightarrow> entry_dir
    \<Rightarrow> cache_error + cache_metadata \<times> entry_dir" where
  "update_metadata shape now update e =
     (case read_metadata_locked shape e of
        Inl error \<Rightarrow> Inl error
      | Inr m \<Rightarrow>
          let m' = (update m)\<lparr> cm_updated_at := now \<rparr>
          in case write_metadata_unlocked shape m' e of Inl error \<Rightarrow> Inl error | Inr e' \<Rightarrow> Inr (m', e'))"

definition set_artifact_pin ::
  "shape_check \<Rightarrow> nat \<Rightarrow> bool \<Rightarrow> entry_dir \<Rightarrow> cache_error + cache_metadata \<times> entry_dir" where
  "set_artifact_pin shape now pinned =
     update_metadata shape now (\<lambda>m. refresh_effective_pin (m\<lparr> cm_artifact_pinned := pinned \<rparr>))"

definition set_model_pin ::
  "shape_check \<Rightarrow> nat \<Rightarrow> string \<Rightarrow> bool \<Rightarrow> entry_dir \<Rightarrow> cache_error + cache_metadata \<times> entry_dir" where
  "set_model_pin shape now owner pinned e =
     (case validate_model_owner owner of
        Inl error \<Rightarrow> Inl error
      | Inr owner \<Rightarrow>
          update_metadata shape now (\<lambda>m. refresh_effective_pin
            (m\<lparr> cm_model_pin_owners := (if pinned then insert owner (cm_model_pin_owners m)
                                         else cm_model_pin_owners m - {owner}) \<rparr>)) e)"

section \<open>Policy round trip\<close>

lemma digit_not_blank: "is_ascii_digit c \<Longrightarrow> \<not> is_whitespace c \<and> c \<noteq> CHR ''+''"
  by (auto simp: is_ascii_digit_def is_whitespace_def char_code_def)

lemma trim_solid: "list_all (\<lambda>c. \<not> is_whitespace c) s \<Longrightarrow> trim s = s"
proof -
  assume "list_all (\<lambda>c. \<not> is_whitespace c) s"
  then have "dropWhile is_whitespace s = s" "dropWhile is_whitespace (rev s) = rev s"
    using hd_in_set [of s] hd_in_set [of "rev s"] by (auto simp: dropWhile_eq_self_iff list_all_iff)
  then show ?thesis by (simp add: trim_def)
qed

lemma show_nat_not_Nil: "show_nat n \<noteq> []"
  by (subst show_nat.simps) simp

lemma parse_show_nat: "n < 2 ^ 64 \<Longrightarrow> parse_u64 (trim (show_nat n)) = Some n"
proof -
  assume n: "n < 2 ^ 64"
  have digits: "list_all is_ascii_digit (show_nat n)" by (rule show_nat_digits)
  then have "trim (show_nat n) = show_nat n"
    using digit_not_blank by (intro trim_solid) (auto simp: list_all_iff)
  moreover obtain c cs where "show_nat n = c # cs" using show_nat_not_Nil by (cases "show_nat n") auto
  moreover have "c \<noteq> CHR ''+''" using digits \<open>show_nat n = c # cs\<close> digit_not_blank by auto
  ultimately show ?thesis using n digits digits_value_show_nat [of n] by (simp add: parse_u64_def)
qed

text \<open>
  A cache policy survives the environment: the variables the parent process writes for a
  valid policy are read back by the child as the same policy.
\<close>

theorem policy_env_roundtrip:
  assumes "validate_policy p = Inr ()" and "cp_max_bytes p < 2 ^ 64" and "cp_inactivity_seconds p < 2 ^ 64"
  shows "\<exists>pairs. env_pairs p = Inr pairs \<and> from_env_values (map_of pairs) = Inr p"
proof -
  have pos: "cp_max_bytes p > 0" "cp_inactivity_seconds p > 0"
    using assms(1) by (auto simp: validate_policy_def split: if_splits)
  have names: "MAX_BYTES_ENV \<noteq> ENABLED_ENV" "INACTIVITY_ENV \<noteq> ENABLED_ENV" "INACTIVITY_ENV \<noteq> MAX_BYTES_ENV"
    by code_simp+
  have flags: "parse_bool ''true'' = Some True" "parse_bool ''false'' = Some False" by code_simp+
  show ?thesis
    using assms pos names flags parse_show_nat
    by (cases p) (simp add: env_pairs_def from_env_values_def parse_optional_u64_def Let_def validate_policy_def)
qed

theorem policy_env_roundtrip_witness:
  "\<exists>pairs. env_pairs default_policy = Inr pairs \<and> from_env_values (map_of pairs) = Inr default_policy"
  by (rule policy_env_roundtrip) (simp_all add: validate_policy_def default_policy_def)

section \<open>The journal survives damage\<close>

definition damage :: "nat \<Rightarrow> slot \<Rightarrow> entry_dir \<Rightarrow> entry_dir" where
  "damage i s e = (if i mod 2 = 0 then e\<lparr> ed_slot_0 := s \<rparr> else e\<lparr> ed_slot_1 := s \<rparr>)"

text \<open>Every envelope lies in the slot of its generation and passes the shape check.\<close>

definition journal_ok :: "shape_check \<Rightarrow> entry_dir \<Rightarrow> bool" where
  "journal_ok shape e \<longleftrightarrow> ed_tombstone e = NoTombstone
     \<and> (\<forall>g m. ed_slot_0 e = Envelope g m \<longrightarrow> g mod 2 = 0 \<and> shape m = None)
     \<and> (\<forall>g m. ed_slot_1 e = Envelope g m \<longrightarrow> g mod 2 = 1 \<and> shape m = None)"

lemma damage_twice [simp]: "damage i s (damage i s' e) = damage i s e"
  by (simp add: damage_def)

lemma journal_ok_damage:
  "journal_ok shape e \<Longrightarrow> (\<And>g m. s = Envelope g m \<Longrightarrow> g mod 2 = i mod 2 \<and> shape m = None) \<Longrightarrow> journal_ok shape (damage i s e)"
  by (cases "i mod 2 = 0") (auto simp: journal_ok_def damage_def)

lemma order_by_pair:
  "order_by (\<lambda>a b. fst a < fst b) [] = []"
  "order_by (\<lambda>a b. fst a < fst b) [x] = [x]"
  "last (order_by (\<lambda>a b. fst a < fst b) [x, y]) = (if fst y < fst x then x else y)"
  by (simp_all add: order_by_Cons)

text \<open>The slot with the highest generation is the one that is read.\<close>

lemma read_by_slots:
  assumes "journal_ok shape e"
  shows "read_metadata_unlocked shape e =
    (case (ed_slot_0 e, ed_slot_1 e) of
       (Envelope g m, Envelope g' m') \<Rightarrow> Inr (JValid (if g' < g then m else m') False)
     | (Envelope g m, s) \<Rightarrow> Inr (JValid m (s \<noteq> NoFile))
     | (s, Envelope g m) \<Rightarrow> Inr (JValid m (s \<noteq> NoFile))
     | (s, s') \<Rightarrow> let unsupported = slot_unsupported s @ slot_unsupported s'
         in if unsupported \<noteq> [] then Inl (unsupported_version (last unsupported))
         else if s = NoFile \<and> s' = NoFile then Inr JMissing
         else Inl (internal_error BOTH_METADATA_SLOTS_CORRUPT))"
  using assms
  by (cases "ed_slot_0 e"; cases "ed_slot_1 e")
    (auto simp: read_metadata_unlocked_def journal_ok_def slot_valid_def slot_invalid_def slot_unsupported_def Let_def order_by_pair order_by_Cons)

lemma write_is_damage:
  assumes "write_metadata_unlocked shape m e = Inr e'"
  shows "\<exists>g. e' = damage g (Envelope g m) e \<and> shape m = None
    \<and> (g = highest_generation e + 1 \<or> (\<forall>old flag. read_metadata_unlocked shape e \<noteq> Inr (JValid old flag)))"
proof (cases "\<exists>old flag. read_metadata_unlocked shape e = Inr (JValid old flag)")
  case True
  then have "e' = damage (highest_generation e + 1) (Envelope (highest_generation e + 1) m) e \<and> shape m = None"
    using assms by (auto simp: write_metadata_unlocked_def damage_def split: option.splits if_splits)
  then show ?thesis by blast
next
  case False
  then have "e' = damage 1 (Envelope 1 m) e \<and> shape m = None"
    using assms by (auto simp: write_metadata_unlocked_def damage_def split: option.splits sum.splits journal_read.splits)
  with False show ?thesis by blast
qed

text \<open>A document that was written is the one that is read.\<close>

lemma write_reads_back:
  assumes "journal_ok shape e" and "write_metadata_unlocked shape m e = Inr e'"
  shows "journal_ok shape e' \<and> (\<exists>flag. read_metadata_unlocked shape e' = Inr (JValid m flag))"
proof -
  obtain g where e': "e' = damage g (Envelope g m) e" and m: "shape m = None"
    and g: "g = highest_generation e + 1 \<or> (\<forall>old flag. read_metadata_unlocked shape e \<noteq> Inr (JValid old flag))"
    using write_is_damage [OF assms(2)] by blast
  have newest: "g' < g" if "ed_slot_0 e = Envelope g' m' \<or> ed_slot_1 e = Envelope g' m'" for g' m'
    using g
  proof
    assume "g = highest_generation e + 1"
    with that show ?thesis by (auto simp: highest_generation_def slot_generation_def)
  next
    assume "\<forall>old flag. read_metadata_unlocked shape e \<noteq> Inr (JValid old flag)"
    with that show ?thesis
      unfolding read_by_slots [OF assms(1)] by (cases "ed_slot_0 e"; cases "ed_slot_1 e") auto
  qed
  have ok: "journal_ok shape e'"
    unfolding e' using assms(1) m by (intro journal_ok_damage) auto
  have "\<exists>flag. read_metadata_unlocked shape e' = Inr (JValid m flag)"
  proof (cases "g mod 2 = 0")
    case True
    then have "ed_slot_0 e' = Envelope g m" "ed_slot_1 e' = ed_slot_1 e" by (simp_all add: e' damage_def)
    then show ?thesis
      using newest unfolding read_by_slots [OF ok] by (cases "ed_slot_1 e") auto
  next
    case False
    then have "ed_slot_1 e' = Envelope g m" "ed_slot_0 e' = ed_slot_0 e" by (simp_all add: e' damage_def)
    then show ?thesis
      using newest unfolding read_by_slots [OF ok] by (cases "ed_slot_0 e") (auto dest: less_not_sym)
  qed
  with ok show ?thesis by blast
qed


definition sample_metadata :: cache_metadata where
  "sample_metadata = \<lparr>
     cm_cache_key = ''sha256:'' @ replicate 64 CHR ''a'', cm_production = SourceCopy, cm_derived_from = None,
     cm_artifact = \<lparr> ma_repository = ''owner/model'', ma_revision = ''main'', ma_tier = Some ''q8'', ma_root = ''bundle'' \<rparr>,
     cm_state = Complete, cm_verified_bytes = 10, cm_created_at = 1,
     cm_updated_at = 2, cm_last_used_at = Some 2, cm_artifact_pinned = False, cm_model_pin_owners = {},
     cm_effective_pin = False, cm_reservation_id = None, cm_reservation_owner = None, cm_session_id = None,
     cm_recovery_status = Clean \<rparr>"

definition sample_entry :: entry_dir where
  "sample_entry = \<lparr> ed_tombstone = NoTombstone, ed_slot_0 = NoFile, ed_slot_1 = Envelope 1 sample_metadata,
     ed_complete_receipt = Inr sample_metadata, ed_corrupt_marker = None,
     ed_cleanup_receipt = Inr None, ed_bundle = True \<rparr>"


section \<open>Pins\<close>

definition pins_ok :: "cache_metadata \<Rightarrow> bool" where
  "pins_ok m \<longleftrightarrow> cm_effective_pin m = (cm_artifact_pinned m \<or> cm_model_pin_owners m \<noteq> {})"

text \<open>
  Every pin operation that succeeds leaves the effective pin equal to what the artifact and
  its owners ask for, and releasing one owner does not release another.
\<close>

lemma update_metadata_Inr:
  "update_metadata shape now f e = Inr (m', e') \<Longrightarrow>
   \<exists>m flag. read_metadata_unlocked shape e = Inr (JValid m flag) \<and> m' = (f m)\<lparr> cm_updated_at := now \<rparr>
     \<and> write_metadata_unlocked shape m' e = Inr e'"
  by (auto simp: update_metadata_def read_metadata_locked_def Let_def split: sum.splits journal_read.splits)

lemma artifact_pin_effect:
  "set_artifact_pin shape now pinned e = Inr (m', e') \<Longrightarrow> pins_ok m' \<and> cm_artifact_pinned m' = pinned"
  by (auto simp: set_artifact_pin_def refresh_effective_pin_def pins_ok_def dest!: update_metadata_Inr)

lemma model_pin_effect:
  assumes "set_model_pin shape now owner pinned e = Inr (m', e')"
  shows "pins_ok m' \<and> (trim owner \<in> cm_model_pin_owners m' \<longleftrightarrow> pinned)
    \<and> (\<exists>m flag. read_metadata_unlocked shape e = Inr (JValid m flag)
        \<and> (\<forall>other. other \<noteq> trim owner \<longrightarrow> (other \<in> cm_model_pin_owners m' \<longleftrightarrow> other \<in> cm_model_pin_owners m)))"
proof -
  have "validate_model_owner owner = Inr (trim owner)"
    using assms by (auto simp: set_model_pin_def validate_model_owner_def Let_def split: if_splits)
  then show ?thesis
    using assms by (cases pinned)
      (auto simp: set_model_pin_def refresh_effective_pin_def pins_ok_def dest!: update_metadata_Inr)
qed

end
