(* ===== verification/CacheRetention.thy ===== *)
theory CacheRetention
  imports CacheStore
begin

text \<open>
  Retention of the resolved cache (\<open>resolved_cache/retention.rs\<close>): the sweep that enforces
  the inactivity limit and the size limit, the two-phase eviction of one candidate, manual
  removal with its preview, and reconciliation with an uninstalled source.

  A store maps the digests of its entry directories to their journals. What a pass observes
  of the machine is a record \<open>environment\<close>: the outcome of each lock, of each measurement and
  validation, the file attributes of the source at the three moments they are read, and what
  the other sessions do to the store while this one holds no lock on the entry.
\<close>

section \<open>Records\<close>

datatype retention_hold =
  ActiveUse | Pinned | MaterializationInProgress | RecoveryCandidate | SourceUnverified | Fresh

record evicted_record =
  er_cache_key :: string
  er_bytes :: nat
  er_cause :: eviction_cause

record retained_record =
  rr_cache_key :: string
  rr_bytes :: nat
  rr_hold :: retention_hold
  rr_detail :: "string option"

record retention_report =
  rp_evicted :: "evicted_record list"
  rp_retained :: "retained_record list"
  rp_failed :: "(string \<times> string) list"
  rp_complete_bytes_before :: nat
  rp_complete_bytes_after :: nat
  rp_limit_satisfied :: bool

definition empty_report :: retention_report where
  "empty_report = \<lparr> rp_evicted = [], rp_retained = [], rp_failed = [], rp_complete_bytes_before = 0,
     rp_complete_bytes_after = 0, rp_limit_satisfied = False \<rparr>"

record eviction_candidate =
  ec_cache_key :: string
  ec_bytes :: nat
  ec_activity :: nat
  ec_created_at :: nat

datatype evict_attempt =
  Evicted evicted_record | Retained retained_record | AlreadyGone | FailedAttempt string

datatype audit_status = AuditStarted | AuditCompleted

datatype session_record_kind = Reservation | RuntimeLease

record session_record =
  sr_cache_key :: string
  sr_operation_id :: string
  sr_model_owner :: string
  sr_kind :: session_record_kind
  sr_acquired_at :: nat

text \<open>The entry directories by digest, the records of sessions by session and operation, the audit trail.\<close>

record cache_store =
  cs_entries :: "string \<rightharpoonup> entry_dir"
  cs_sessions :: "string \<times> string \<rightharpoonup> session_record"
  cs_audit :: "string \<times> nat \<rightharpoonup> eviction_marker \<times> audit_status"

section \<open>The environment of a pass\<close>

datatype lock_result = Acquired | Contended | LockFailed cache_error

datatype moment = BeforeHash | AfterHash | UnderLock

record file_stat =
  fs_is_file :: bool
  fs_len :: nat
  fs_modified :: "nat option"
  fs_changed :: "int \<times> int"

record environment =
  en_session_id :: string
  en_shape :: shape_check
  en_read_dir :: "cache_error + (cache_error + string option \<times> (cache_error + bool)) list"
  en_metadata_lock :: "moment \<Rightarrow> string \<Rightarrow> cache_error option"
  en_artifact_probe :: "string \<Rightarrow> lock_result"
  en_artifact_lock :: "string \<Rightarrow> lock_result"
  en_session_lock :: "string \<Rightarrow> lock_result"
  en_measure_entry_bytes :: "string \<Rightarrow> cache_error + nat"
  en_validate_complete_metadata :: "cache_metadata \<Rightarrow> cache_error option"
  en_source_paths :: "cache_metadata \<Rightarrow> string + string list"
  en_source_hashes :: "cache_metadata \<Rightarrow> string option"
  en_symlink_metadata :: "moment \<Rightarrow> string \<Rightarrow> string + file_stat"
  en_probe_source_reachable :: "cache_metadata \<Rightarrow> string option"
  en_missing_directory :: cache_error
  en_marker_write :: "string \<Rightarrow> cache_error option"
  en_audit_write :: "audit_status \<Rightarrow> string \<Rightarrow> bool"
  en_remove_managed_tree :: "string \<Rightarrow> cache_error option"
  en_left_behind :: "string \<Rightarrow> entry_dir \<Rightarrow> entry_dir"
  en_before_proof :: "cache_store \<Rightarrow> cache_store"
  en_before_lock :: "cache_store \<Rightarrow> cache_store"

definition journal_at :: "environment \<Rightarrow> string \<Rightarrow> cache_store \<Rightarrow> cache_error + journal_read" where
  "journal_at env digest s =
     (case cs_entries s digest of
        None \<Rightarrow> Inr JMissing
      | Some e \<Rightarrow> read_metadata_unlocked (en_shape env) e)"

definition is_valid_session_id :: "string \<Rightarrow> bool" where
  "is_valid_session_id v \<longleftrightarrow> length v = 32
     \<and> list_all (\<lambda>c. is_ascii_digit c \<or> 97 \<le> char_code c \<and> char_code c \<le> 102) v"

definition session_lock_is_acquirable :: "environment \<Rightarrow> string \<Rightarrow> cache_error + bool" where
  "session_lock_is_acquirable env session =
     (if \<not> is_valid_session_id session \<or> session = en_session_id env then Inr False
      else case en_session_lock env session of
             Acquired \<Rightarrow> Inr True | Contended \<Rightarrow> Inr False | LockFailed error \<Rightarrow> Inl error)"

definition materializing_session_is_live :: "environment \<Rightarrow> cache_metadata \<Rightarrow> cache_error + bool" where
  "materializing_session_is_live env m =
     (case cm_session_id m of
        Some session \<Rightarrow>
          (case session_lock_is_acquirable env session of Inl error \<Rightarrow> Inl error | Inr b \<Rightarrow> Inr (\<not> b))
      | None \<Rightarrow> Inr False)"

definition artifact_lock_is_contended :: "environment \<Rightarrow> string \<Rightarrow> cache_error + bool" where
  "artifact_lock_is_contended env digest =
     (case en_artifact_probe env digest of
        Acquired \<Rightarrow> Inr False | Contended \<Rightarrow> Inr True | LockFailed error \<Rightarrow> Inl error)"

definition entry_bytes :: "environment \<Rightarrow> string \<Rightarrow> cache_metadata \<Rightarrow> nat" where
  "entry_bytes env digest m =
     (case en_measure_entry_bytes env digest of Inr bytes \<Rightarrow> bytes | Inl _ \<Rightarrow> cm_verified_bytes m)"

definition entry_activity :: "cache_metadata \<Rightarrow> nat" where
  "entry_activity m = (case cm_last_used_at m of Some t \<Rightarrow> t | None \<Rightarrow> cm_created_at m)"

section \<open>Proof of a second copy\<close>

record verified_source_file =
  vs_path :: string
  vs_len :: nat
  vs_modified :: "nat option"
  vs_changed :: "int \<times> int"

definition verified_file :: "string \<Rightarrow> file_stat \<Rightarrow> verified_source_file" where
  "verified_file path st =
     \<lparr> vs_path = path, vs_len = fs_len st, vs_modified = fs_modified st, vs_changed = fs_changed st \<rparr>"

fun stat_verified_sources :: "environment \<Rightarrow> moment \<Rightarrow> string list \<Rightarrow> string + verified_source_file list" where
  "stat_verified_sources env t [] = Inr []"
| "stat_verified_sources env t (path # paths) =
     (case en_symlink_metadata env t path of
        Inl error \<Rightarrow> Inl (''verified source file '' @ path @ '' became unavailable: '' @ error)
      | Inr st \<Rightarrow>
          if \<not> fs_is_file st then Inl (''verified source file '' @ path @ '' is not a regular file'')
          else case stat_verified_sources env t paths of
                 Inl error \<Rightarrow> Inl error
               | Inr files \<Rightarrow> Inr (verified_file path st # files))"

definition verify_source_complete :: "environment \<Rightarrow> cache_metadata \<Rightarrow> string + verified_source_file list" where
  "verify_source_complete env m =
     (case en_source_paths env m of
        Inl error \<Rightarrow> Inl error
      | Inr locations \<Rightarrow>
        (case stat_verified_sources env BeforeHash locations of
           Inl error \<Rightarrow> Inl error
         | Inr before \<Rightarrow>
           (case en_source_hashes env m of
              Some error \<Rightarrow> Inl error
            | None \<Rightarrow>
              (case stat_verified_sources env AfterHash locations of
                 Inl error \<Rightarrow> Inl error
               | Inr after \<Rightarrow>
                   if before \<noteq> after
                   then Inl ''source files changed while they were being verified as a complete second copy''
                   else Inr after))))"

fun revalidate_source_snapshot :: "environment \<Rightarrow> verified_source_file list \<Rightarrow> string + unit" where
  "revalidate_source_snapshot env [] = Inr ()"
| "revalidate_source_snapshot env (file # files) =
     (case en_symlink_metadata env UnderLock (vs_path file) of
        Inl error \<Rightarrow> Inl (''verified source file '' @ vs_path file @ '' became unavailable: '' @ error)
      | Inr st \<Rightarrow>
          if \<not> fs_is_file st
          then Inl (''verified source file '' @ vs_path file @ '' is no longer a regular file'')
          else if fs_len st = vs_len file \<and> fs_modified st = vs_modified file \<and> fs_changed st = vs_changed file
          then revalidate_source_snapshot env files
          else Inl (''verified source file '' @ vs_path file
                 @ '' changed while the eviction was being authorized''))"

section \<open>Tombstones\<close>

definition read_eviction_marker :: "string \<Rightarrow> cache_store \<Rightarrow> cache_error + eviction_marker option" where
  "read_eviction_marker digest s =
     (case cs_entries s digest of
        None \<Rightarrow> Inr None
      | Some e \<Rightarrow>
          (case ed_tombstone e of
             NoTombstone \<Rightarrow> Inr None | Tombstone marker \<Rightarrow> Inr (Some marker) | BadTombstone error \<Rightarrow> Inl error))"

definition write_eviction_marker ::
  "environment \<Rightarrow> string \<Rightarrow> eviction_marker \<Rightarrow> cache_store \<Rightarrow> cache_error + cache_store" where
  "write_eviction_marker env digest marker s =
     (case cache_key_digest (em_cache_key marker) of
        Inl error \<Rightarrow> Inl error
      | Inr d \<Rightarrow>
          if d \<noteq> digest
          then Inl (internal_error ''eviction tombstone cache key does not match its entry'')
          else case en_marker_write env digest of
                 Some error \<Rightarrow> Inl error
               | None \<Rightarrow>
                   (case cs_entries s digest of
                      None \<Rightarrow> Inl (en_missing_directory env)
                    | Some e \<Rightarrow>
                        Inr (s\<lparr> cs_entries := (cs_entries s)(digest \<mapsto> e\<lparr> ed_tombstone := Tombstone marker \<rparr>) \<rparr>)))"

definition write_eviction_audit_record ::
  "environment \<Rightarrow> string \<Rightarrow> eviction_marker \<Rightarrow> audit_status \<Rightarrow> cache_store \<Rightarrow> cache_store" where
  "write_eviction_audit_record env digest marker status s =
     (if en_audit_write env status digest
      then s\<lparr> cs_audit := (cs_audit s)((digest, em_requested_at marker) \<mapsto> (marker, status)) \<rparr>
      else s)"

definition finish_pending_eviction ::
  "environment \<Rightarrow> string \<Rightarrow> cache_store \<Rightarrow> (cache_error + eviction_marker) \<times> cache_store" where
  "finish_pending_eviction env digest s =
     (case read_eviction_marker digest s of
        Inl error \<Rightarrow> (Inl error, s)
      | Inr None \<Rightarrow> (Inl (internal_error ''cache entry has no eviction tombstone to finish''), s)
      | Inr (Some marker) \<Rightarrow>
          let s = write_eviction_audit_record env digest marker AuditStarted s
          in case en_remove_managed_tree env digest of
               Some error \<Rightarrow>
                 (Inl error, s\<lparr> cs_entries := (cs_entries s)(digest :=
                                map_option (en_left_behind env digest) (cs_entries s digest)) \<rparr>)
             | None \<Rightarrow>
                 (Inr marker, write_eviction_audit_record env digest marker AuditCompleted
                                (s\<lparr> cs_entries := (cs_entries s)(digest := None) \<rparr>)))"

definition try_finish_pending_eviction ::
  "environment \<Rightarrow> string \<Rightarrow> cache_store \<Rightarrow> (cache_error + eviction_marker option) \<times> cache_store" where
  "try_finish_pending_eviction env digest s =
     (case en_artifact_lock env digest of
        Contended \<Rightarrow> (Inr None, s)
      | LockFailed error \<Rightarrow> (Inl error, s)
      | Acquired \<Rightarrow>
        (case en_metadata_lock env UnderLock digest of
           Some error \<Rightarrow> (Inl error, s)
         | None \<Rightarrow>
           (case journal_at env digest s of
              Inl error \<Rightarrow> (Inl error, s)
            | Inr (JEvicted _) \<Rightarrow>
                (case finish_pending_eviction env digest s of
                   (Inl error, s) \<Rightarrow> (Inl error, s)
                 | (Inr marker, s) \<Rightarrow> (Inr (Some marker), s))
            | Inr _ \<Rightarrow> (Inr None, s))))"

definition evicted_of :: "eviction_marker \<Rightarrow> evicted_record" where
  "evicted_of marker = \<lparr> er_cache_key = em_cache_key marker, er_bytes = em_reclaimable_bytes marker, er_cause = em_cause marker \<rparr>"

section \<open>Scanning\<close>

definition retain :: "retained_record \<Rightarrow> retention_report \<Rightarrow> retention_report" where
  "retain record report = report\<lparr> rp_retained := rp_retained report @ [record] \<rparr>"

definition evict :: "evicted_record \<Rightarrow> retention_report \<Rightarrow> retention_report" where
  "evict record report = report\<lparr> rp_evicted := rp_evicted report @ [record] \<rparr>"

definition fail_removal :: "string \<Rightarrow> string \<Rightarrow> retention_report \<Rightarrow> retention_report" where
  "fail_removal key error report = report\<lparr> rp_failed := rp_failed report @ [(key, error)] \<rparr>"

definition held ::
  "environment \<Rightarrow> string \<Rightarrow> cache_metadata \<Rightarrow> retention_hold \<Rightarrow> string option \<Rightarrow> retained_record" where
  "held env digest m hold detail =
     \<lparr> rr_cache_key = cm_cache_key m, rr_bytes = entry_bytes env digest m, rr_hold = hold, rr_detail = detail \<rparr>"

definition candidate_of :: "environment \<Rightarrow> string \<Rightarrow> cache_metadata \<Rightarrow> eviction_candidate" where
  "candidate_of env digest m =
     \<lparr> ec_cache_key = cm_cache_key m, ec_bytes = entry_bytes env digest m,
       ec_activity = entry_activity m, ec_created_at = cm_created_at m \<rparr>"

type_synonym scan_state = "retention_report \<times> eviction_candidate list"

definition scan_complete ::
  "environment \<Rightarrow> string \<Rightarrow> cache_metadata \<Rightarrow> scan_state \<Rightarrow> cache_error + scan_state" where
  "scan_complete env digest m = (\<lambda>(report, candidates).
     case en_validate_complete_metadata env m of
       Some error \<Rightarrow> Inr (retain (held env digest m RecoveryCandidate (Some (ce_message error))) report, candidates)
     | None \<Rightarrow>
         if cm_effective_pin m then Inr (retain (held env digest m Pinned None) report, candidates)
         else case artifact_lock_is_contended env digest of
                Inl error \<Rightarrow> Inl error
              | Inr True \<Rightarrow> Inr (retain (held env digest m ActiveUse None) report, candidates)
              | Inr False \<Rightarrow> Inr (report, candidates @ [candidate_of env digest m]))"

definition scan_valid ::
  "environment \<Rightarrow> string \<Rightarrow> cache_metadata \<Rightarrow> scan_state \<Rightarrow> cache_error + scan_state" where
  "scan_valid env digest m = (\<lambda>(report, candidates).
     case cm_state m of
       Complete \<Rightarrow> scan_complete env digest m (report, candidates)
     | Materializing \<Rightarrow>
         (case materializing_session_is_live env m of
            Inl error \<Rightarrow> Inl error
          | Inr live \<Rightarrow>
              Inr (retain (held env digest m (if live then MaterializationInProgress else RecoveryCandidate) None)
                     report, candidates))
     | _ \<Rightarrow> Inr (retain (held env digest m RecoveryCandidate None) report, candidates))"

definition scan_entry ::
  "environment \<Rightarrow> string \<Rightarrow> scan_state \<Rightarrow> cache_store \<Rightarrow> (cache_error + scan_state) \<times> cache_store" where
  "scan_entry env digest = (\<lambda>(report, candidates) s.
     case en_metadata_lock env BeforeHash digest of
       Some error \<Rightarrow> (Inl error, s)
     | None \<Rightarrow>
       (case journal_at env digest s of
          Inr (JValid m _) \<Rightarrow> (scan_valid env digest m (report, candidates), s)
        | Inr (JEvicted marker) \<Rightarrow>
            (case try_finish_pending_eviction env digest (en_before_lock env s) of
               (Inr (Some finished), s) \<Rightarrow> (Inr (evict (evicted_of finished) report, candidates), s)
             | (Inr None, s) \<Rightarrow>
                 (Inr (retain \<lparr> rr_cache_key = em_cache_key marker, rr_bytes = 0, rr_hold = ActiveUse,
                                rr_detail = Some ''pending eviction awaiting artifact lock'' \<rparr> report, candidates), s)
             | (Inl error, s) \<Rightarrow> (Inr (fail_removal (em_cache_key marker) (ce_message error) report, candidates), s))
        | Inr JMissing \<Rightarrow> (Inr (report, candidates), s)
        | Inl error \<Rightarrow>
            (Inr (retain \<lparr> rr_cache_key = ''sha256:'' @ digest, rr_bytes = 0, rr_hold = RecoveryCandidate,
                           rr_detail = Some (ce_message error) \<rparr> report, candidates), s)))"

fun scan_entries ::
  "environment \<Rightarrow> string list \<Rightarrow> scan_state \<Rightarrow> cache_store \<Rightarrow> (cache_error + scan_state) \<times> cache_store" where
  "scan_entries env [] st s = (Inr st, s)"
| "scan_entries env (digest # digests) st s =
     (case scan_entry env digest st s of
        (Inl error, s) \<Rightarrow> (Inl error, s)
      | (Inr st, s) \<Rightarrow> scan_entries env digests st s)"

text \<open>An item of the listing is an error, or a name, if it is text, with whether it is a directory.\<close>

fun collect_digests :: "(cache_error + string option \<times> (cache_error + bool)) list \<Rightarrow> cache_error + string list" where
  "collect_digests [] = Inr []"
| "collect_digests (Inl error # items) = Inl error"
| "collect_digests (Inr (name, is_dir) # items) =
     (case name of
        None \<Rightarrow> collect_digests items
      | Some digest \<Rightarrow>
          if \<not> is_lower_hex_64 digest then collect_digests items
          else case is_dir of
                 Inl error \<Rightarrow> Inl error
               | Inr False \<Rightarrow> collect_digests items
               | Inr True \<Rightarrow>
                   (case collect_digests items of Inl error \<Rightarrow> Inl error | Inr digests \<Rightarrow> Inr (digest # digests)))"

definition entry_digests :: "environment \<Rightarrow> cache_error + string list" where
  "entry_digests env =
     (case en_read_dir env of
        Inl error \<Rightarrow> Inl error
      | Inr items \<Rightarrow>
          (case collect_digests items of Inl error \<Rightarrow> Inl error | Inr digests \<Rightarrow> Inr (order_by text_less digests)))"

section \<open>Evicting one candidate\<close>

definition retained_candidate ::
  "eviction_candidate \<Rightarrow> retention_hold \<Rightarrow> string option \<Rightarrow> evict_attempt" where
  "retained_candidate c hold detail =
     Retained \<lparr> rr_cache_key = ec_cache_key c, rr_bytes = ec_bytes c, rr_hold = hold, rr_detail = detail \<rparr>"

definition source_proof ::
  "environment \<Rightarrow> eviction_candidate \<Rightarrow> cache_metadata option \<Rightarrow> (string + verified_source_file list) option" where
  "source_proof env c scanned =
     (case scanned of
        None \<Rightarrow> None
      | Some m \<Rightarrow>
          if is_derived (cm_production m) then None
          else if cm_state m = Complete \<and> \<not> cm_effective_pin m \<and> entry_activity m = ec_activity c
          then Some (verify_source_complete env m)
          else None)"

text \<open>
  The snapshot the recheck under the lock is made against: none for a derived bundle, the
  verified one while the journal has not been written since, or the reason to retain.
\<close>

definition usable_snapshot ::
  "(string + verified_source_file list) option \<Rightarrow> cache_metadata option \<Rightarrow> cache_metadata
    \<Rightarrow> (retention_hold \<times> string) + verified_source_file list option" where
  "usable_snapshot proof scanned m =
     (if is_derived (cm_production m) then Inr None
      else case proof of
             Some (Inr snapshot) \<Rightarrow>
               (case scanned of
                  Some before \<Rightarrow>
                    if cm_updated_at before = cm_updated_at m then Inr (Some snapshot)
                    else Inl (Fresh, ''entry changed while its source was being verified'')
                | None \<Rightarrow> Inl (Fresh, ''entry changed while its source was being verified''))
           | Some (Inl detail) \<Rightarrow> Inl (SourceUnverified, detail)
           | None \<Rightarrow> Inl (Fresh, ''entry changed while its source was being verified''))"

definition commit_eviction ::
  "environment \<Rightarrow> string \<Rightarrow> eviction_cause \<Rightarrow> nat \<Rightarrow> cache_metadata \<Rightarrow> cache_store
    \<Rightarrow> (cache_error + evict_attempt) \<times> cache_store" where
  "commit_eviction env digest cause now m s =
     (case write_eviction_marker env digest
             \<lparr> em_cache_key = cm_cache_key m, em_cause = cause, em_reclaimable_bytes = entry_bytes env digest m,
               em_requested_at = now, em_session_id = en_session_id env \<rparr> s of
        Inl error \<Rightarrow> (Inl error, s)
      | Inr s \<Rightarrow>
          (case finish_pending_eviction env digest s of
             (Inr marker, s) \<Rightarrow> (Inr (Evicted (evicted_of marker)), s)
           | (Inl error, s) \<Rightarrow> (Inr (FailedAttempt (ce_message error)), s)))"

definition evict_under_lock ::
  "environment \<Rightarrow> eviction_candidate \<Rightarrow> string \<Rightarrow> eviction_cause \<Rightarrow> nat \<Rightarrow> cache_metadata option
    \<Rightarrow> (string + verified_source_file list) option \<Rightarrow> cache_metadata \<Rightarrow> cache_store
    \<Rightarrow> (cache_error + evict_attempt) \<times> cache_store" where
  "evict_under_lock env c digest cause now scanned proof m s =
     (if cm_state m \<noteq> Complete then (Inr (retained_candidate c RecoveryCandidate None), s)
      else if cm_effective_pin m then (Inr (retained_candidate c Pinned None), s)
      else if entry_activity m \<noteq> ec_activity c
      then (Inr (retained_candidate c Fresh (Some ''entry was used after it was scanned'')), s)
      else case usable_snapshot proof scanned m of
             Inl (hold, detail) \<Rightarrow> (Inr (retained_candidate c hold (Some detail)), s)
           | Inr snapshot \<Rightarrow>
             (case en_validate_complete_metadata env m of
                Some error \<Rightarrow> (Inr (retained_candidate c RecoveryCandidate (Some (ce_message error))), s)
              | None \<Rightarrow>
                (case (case snapshot of None \<Rightarrow> Inr () | Some files \<Rightarrow> revalidate_source_snapshot env files) of
                   Inl detail \<Rightarrow> (Inr (retained_candidate c SourceUnverified (Some detail)), s)
                 | Inr _ \<Rightarrow> commit_eviction env digest cause now m s)))"

definition evict_locked ::
  "environment \<Rightarrow> eviction_candidate \<Rightarrow> string \<Rightarrow> eviction_cause \<Rightarrow> nat \<Rightarrow> cache_metadata option
    \<Rightarrow> (string + verified_source_file list) option \<Rightarrow> cache_store \<Rightarrow> (cache_error + evict_attempt) \<times> cache_store" where
  "evict_locked env c digest cause now scanned proof s =
     (case journal_at env digest s of
        Inr (JValid m _) \<Rightarrow> evict_under_lock env c digest cause now scanned proof m s
      | Inr (JEvicted _) \<Rightarrow>
          (case finish_pending_eviction env digest s of
             (Inl error, s) \<Rightarrow> (Inl error, s)
           | (Inr marker, s) \<Rightarrow> (Inr (Evicted (evicted_of marker)), s))
      | Inr JMissing \<Rightarrow>
          (Inr (if cs_entries s digest = None then AlreadyGone
                else retained_candidate c RecoveryCandidate (Some ''entry has no readable journal'')), s)
      | Inl error \<Rightarrow> (Inr (retained_candidate c RecoveryCandidate (Some (ce_message error))), s))"

definition evict_candidate ::
  "environment \<Rightarrow> eviction_candidate \<Rightarrow> eviction_cause \<Rightarrow> nat \<Rightarrow> cache_store
    \<Rightarrow> (cache_error + evict_attempt) \<times> cache_store" where
  "evict_candidate env c cause now s =
     (case cache_key_digest (ec_cache_key c) of
        Inl error \<Rightarrow> (Inl error, s)
      | Inr digest \<Rightarrow>
        (case en_metadata_lock env BeforeHash digest of
           Some error \<Rightarrow> (Inl error, s)
         | None \<Rightarrow>
           let s1 = en_before_proof env s;
               scanned = (case journal_at env digest s1 of Inr (JValid m _) \<Rightarrow> Some m | _ \<Rightarrow> None);
               proof = source_proof env c scanned;
               s2 = en_before_lock env s1
           in case en_artifact_lock env digest of
                Contended \<Rightarrow> (Inr (retained_candidate c ActiveUse None), s2)
              | LockFailed error \<Rightarrow> (Inl error, s2)
              | Acquired \<Rightarrow>
                (case en_metadata_lock env UnderLock digest of
                   Some error \<Rightarrow> (Inl error, s2)
                 | None \<Rightarrow> evict_locked env c digest cause now scanned proof s2)))"

section \<open>The sweep\<close>

definition apply_eviction_attempt ::
  "cache_error + evict_attempt \<Rightarrow> eviction_candidate \<Rightarrow> retention_report \<Rightarrow> nat \<Rightarrow> retention_report \<times> nat" where
  "apply_eviction_attempt attempt c report used =
     (case attempt of
        Inr (Evicted record) \<Rightarrow> (evict record report, used - er_bytes record)
      | Inr (Retained record) \<Rightarrow> (retain record report, used)
      | Inr AlreadyGone \<Rightarrow> (report, used - ec_bytes c)
      | Inr (FailedAttempt error) \<Rightarrow> (fail_removal (ec_cache_key c) error report, used)
      | Inl error \<Rightarrow> (fail_removal (ec_cache_key c) (ce_message error) report, used))"

definition expired :: "cache_policy \<Rightarrow> nat \<Rightarrow> eviction_candidate \<Rightarrow> bool" where
  "expired policy now c \<longleftrightarrow> now - ec_activity c \<ge> cp_inactivity_seconds policy"

fun evict_expired ::
  "environment \<Rightarrow> cache_policy \<Rightarrow> nat \<Rightarrow> eviction_candidate list \<Rightarrow> retention_report \<times> nat \<times> cache_store
    \<Rightarrow> eviction_candidate list \<times> retention_report \<times> nat \<times> cache_store" where
  "evict_expired env policy now [] acc = ([], acc)"
| "evict_expired env policy now (c # cs) (report, used, s) =
     (if expired policy now c
      then let (attempt, s) = evict_candidate env c TtlExpired now s;
               (report, used) = apply_eviction_attempt attempt c report used
           in evict_expired env policy now cs (report, used, s)
      else let (survivors, acc) = evict_expired env policy now cs (report, used, s)
           in (c # survivors, acc))"

definition fresh_record :: "eviction_candidate \<Rightarrow> retained_record" where
  "fresh_record c = \<lparr> rr_cache_key = ec_cache_key c, rr_bytes = ec_bytes c, rr_hold = Fresh, rr_detail = None \<rparr>"

fun evict_for_size ::
  "environment \<Rightarrow> cache_policy \<Rightarrow> nat \<Rightarrow> eviction_candidate list \<Rightarrow> retention_report \<times> nat \<times> cache_store
    \<Rightarrow> retention_report \<times> nat \<times> cache_store" where
  "evict_for_size env policy now [] acc = acc"
| "evict_for_size env policy now (c # cs) (report, used, s) =
     (if used \<le> cp_max_bytes policy
      then evict_for_size env policy now cs (retain (fresh_record c) report, used, s)
      else let (attempt, s) = evict_candidate env c SizePressure now s;
               (report, used) = apply_eviction_attempt attempt c report used
           in evict_for_size env policy now cs (report, used, s))"

definition lru_before :: "eviction_candidate \<Rightarrow> eviction_candidate \<Rightarrow> bool" where
  "lru_before = then_by (\<lambda>a b. ec_activity a < ec_activity b)
     (then_by (\<lambda>a b. ec_created_at a < ec_created_at b) (\<lambda>a b. text_less (ec_cache_key a) (ec_cache_key b)))"

definition checked_total :: "nat list \<Rightarrow> cache_error + nat" where
  "checked_total bytes =
     (if sum_list bytes < 2 ^ 64 then Inr (sum_list bytes)
      else Inl (internal_error ''resolved-cache retention byte used overflow''))"

text \<open>
  The environment of the scan and the one of the evictions are separate: time passes between
  them. On an error the store keeps what the pass has already done.
\<close>

definition enforce_retention ::
  "environment \<Rightarrow> environment \<Rightarrow> cache_policy \<Rightarrow> nat \<Rightarrow> cache_store
    \<Rightarrow> (cache_error + retention_report) \<times> cache_store" where
  "enforce_retention scan env policy now s =
     (case validate_policy policy of
        Inl error \<Rightarrow> (Inl error, s)
      | Inr _ \<Rightarrow>
        (case entry_digests scan of
           Inl error \<Rightarrow> (Inl error, s)
         | Inr digests \<Rightarrow>
           (case scan_entries scan digests (empty_report, []) s of
              (Inl error, s) \<Rightarrow> (Inl error, s)
            | (Inr (report, candidates), s) \<Rightarrow>
              (case checked_total (map ec_bytes candidates @ map rr_bytes (rp_retained report)) of
                 Inl error \<Rightarrow> (Inl error, s)
               | Inr used \<Rightarrow>
                   let report = report\<lparr> rp_complete_bytes_before := used \<rparr>;
                       (survivors, acc) = evict_expired env policy now (order_by lru_before candidates) (report, used, s);
                       (report, used, s) = evict_for_size env policy now survivors acc
                   in (Inr (report\<lparr> rp_complete_bytes_after := used,
                                    rp_limit_satisfied := used \<le> cp_max_bytes policy \<rparr>), s)))))"

datatype checkpoint_outcome = NotIdle | Disabled | Ran retention_report

definition run_if_idle ::
  "environment \<Rightarrow> environment \<Rightarrow> cache_policy \<Rightarrow> bool \<Rightarrow> nat \<Rightarrow> cache_store
    \<Rightarrow> (cache_error + checkpoint_outcome) \<times> cache_store" where
  "run_if_idle scan env policy idle now s =
     (if \<not> cp_enabled policy then (Inr Disabled, s)
      else if \<not> idle then (Inr NotIdle, s)
      else case enforce_retention scan env policy now s of
             (Inl error, s) \<Rightarrow> (Inl error, s)
           | (Inr report, s) \<Rightarrow> (Inr (Ran report), s))"


section \<open>Evictions are authorised\<close>

text \<open>
  The source holds a complete second copy: every file hashes as recorded and is the same
  regular file before the hashing, after it, and under the lock.
\<close>

definition second_copy :: "environment \<Rightarrow> cache_metadata \<Rightarrow> bool" where
  "second_copy env m \<longleftrightarrow>
     (\<exists>paths. en_source_paths env m = Inr paths \<and> en_source_hashes env m = None
       \<and> (\<forall>p\<in>set paths. \<exists>st. fs_is_file st \<and> (\<forall>t. en_symlink_metadata env t p = Inr st)))"

definition authorised ::
  "environment \<Rightarrow> eviction_candidate \<Rightarrow> string \<Rightarrow> cache_store \<Rightarrow> cache_store \<Rightarrow> bool" where
  "authorised env c digest s1 s2 \<longleftrightarrow>
     en_artifact_lock env digest = Acquired \<and> en_metadata_lock env UnderLock digest = None
     \<and> ((\<exists>marker. journal_at env digest s2 = Inr (JEvicted marker))
        \<or> (\<exists>m flag. journal_at env digest s2 = Inr (JValid m flag)
            \<and> cm_state m = Complete \<and> \<not> cm_effective_pin m \<and> entry_activity m = ec_activity c
            \<and> en_validate_complete_metadata env m = None
            \<and> (is_derived (cm_production m)
               \<or> (\<exists>m0 flag0. journal_at env digest s1 = Inr (JValid m0 flag0)
                    \<and> cm_updated_at m0 = cm_updated_at m \<and> second_copy env m0))))"

lemma stat_verified_sources_Inr:
  "stat_verified_sources env t paths = Inr files \<Longrightarrow>
   map vs_path files = paths
   \<and> (\<forall>f\<in>set files. \<exists>st. en_symlink_metadata env t (vs_path f) = Inr st \<and> fs_is_file st \<and> f = verified_file (vs_path f) st)"
  by (induction paths arbitrary: files) (auto simp: verified_file_def split: sum.splits if_splits)

lemma revalidate_Inr:
  "revalidate_source_snapshot env files = Inr u \<Longrightarrow>
   (\<forall>f\<in>set files. \<exists>st. en_symlink_metadata env UnderLock (vs_path f) = Inr st \<and> fs_is_file st \<and> f = verified_file (vs_path f) st)"
  by (induction files) (auto simp: verified_file_def split: sum.splits if_splits)

lemma verified_file_inject:
  "fs_is_file st \<Longrightarrow> fs_is_file st' \<Longrightarrow> verified_file p st = verified_file p st' \<longleftrightarrow> st = st'"
  by (auto simp: verified_file_def)

lemma verify_source_complete_Inr:
  "verify_source_complete env m = Inr files \<Longrightarrow>
   en_source_hashes env m = None \<and> en_source_paths env m = Inr (map vs_path files)
   \<and> stat_verified_sources env BeforeHash (map vs_path files) = Inr files
   \<and> stat_verified_sources env AfterHash (map vs_path files) = Inr files"
  by (auto simp: verify_source_complete_def dest: stat_verified_sources_Inr split: sum.splits option.splits if_splits)

lemma verified_second_copy:
  assumes "verify_source_complete env m = Inr files" and "revalidate_source_snapshot env files = Inr u"
  shows "second_copy env m"
proof -
  note verified = verify_source_complete_Inr [OF assms(1)]
  have "\<exists>st. fs_is_file st \<and> (\<forall>t. en_symlink_metadata env t (vs_path f) = Inr st)" if f: "f \<in> set files" for f
  proof -
    have "\<forall>t. \<exists>st. en_symlink_metadata env t (vs_path f) = Inr st \<and> fs_is_file st \<and> f = verified_file (vs_path f) st"
    proof
      fix t
      show "\<exists>st. en_symlink_metadata env t (vs_path f) = Inr st \<and> fs_is_file st \<and> f = verified_file (vs_path f) st"
        using verified stat_verified_sources_Inr [of env _ "map vs_path files" files] revalidate_Inr [OF assms(2)] f
        by (cases t) blast+
    qed
    then show ?thesis using verified_file_inject by metis
  qed
  with verified show ?thesis by (auto simp: second_copy_def)
qed

lemma write_marker_entries:
  "write_eviction_marker env digest marker s = Inr s' \<Longrightarrow> d \<noteq> digest \<Longrightarrow> cs_entries s' d = cs_entries s d"
  by (auto simp: write_eviction_marker_def split: sum.splits option.splits if_splits)

lemma audit_entries [simp]: "cs_entries (write_eviction_audit_record env digest marker status s) = cs_entries s"
  by (simp add: write_eviction_audit_record_def)

lemma finish_entries:
  "finish_pending_eviction env digest s = (r, s') \<Longrightarrow> d \<noteq> digest \<Longrightarrow> cs_entries s' d = cs_entries s d"
  by (auto simp: finish_pending_eviction_def Let_def split: sum.splits option.splits)

lemma commit_entries:
  "commit_eviction env digest cause now m s = (r, s') \<Longrightarrow> d \<noteq> digest \<Longrightarrow> cs_entries s' d = cs_entries s d"
  by (auto simp: commit_eviction_def dest!: write_marker_entries [where d = d] finish_entries [where d = d]
      split: sum.splits prod.splits)

lemma usable_snapshot_Inr:
  "usable_snapshot proof scanned m = Inr snapshot \<Longrightarrow>
   is_derived (cm_production m) \<and> snapshot = None
   \<or> (\<exists>m0 files. proof = Some (Inr files) \<and> snapshot = Some files \<and> scanned = Some m0 \<and> cm_updated_at m0 = cm_updated_at m)"
  by (auto simp: usable_snapshot_def split: if_splits option.splits sum.splits)

lemma source_proof_Some:
  "source_proof env c scanned = Some r \<Longrightarrow> \<exists>m. scanned = Some m \<and> verify_source_complete env m = r"
  by (auto simp: source_proof_def split: option.splits if_splits)

lemma evict_under_lock_authorised:
  assumes "evict_under_lock env c digest cause now scanned (source_proof env c scanned) m s = (r, s')"
    and "cs_entries s' d \<noteq> cs_entries s d"
  shows "d = digest \<and> cm_state m = Complete \<and> \<not> cm_effective_pin m \<and> entry_activity m = ec_activity c
    \<and> en_validate_complete_metadata env m = None
    \<and> (is_derived (cm_production m) \<or> (\<exists>m0. scanned = Some m0 \<and> cm_updated_at m0 = cm_updated_at m \<and> second_copy env m0))"
  using assms
  by (auto simp: evict_under_lock_def dest!: usable_snapshot_Inr source_proof_Some
      dest: commit_entries verified_second_copy split: if_splits sum.splits option.splits prod.splits)

lemma evict_locked_authorised:
  assumes "evict_locked env c digest cause now scanned (source_proof env c scanned) s = (r, s')"
    and "cs_entries s' d \<noteq> cs_entries s d"
  shows "d = digest \<and> ((\<exists>marker. journal_at env digest s = Inr (JEvicted marker))
    \<or> (\<exists>m flag. journal_at env digest s = Inr (JValid m flag) \<and> cm_state m = Complete \<and> \<not> cm_effective_pin m
        \<and> entry_activity m = ec_activity c \<and> en_validate_complete_metadata env m = None
        \<and> (is_derived (cm_production m)
           \<or> (\<exists>m0. scanned = Some m0 \<and> cm_updated_at m0 = cm_updated_at m \<and> second_copy env m0))))"
  using assms
  by (auto simp: evict_locked_def dest: finish_entries evict_under_lock_authorised
      split: sum.splits journal_read.splits prod.splits)

lemma attempt_authorised:
  assumes "evict_candidate env c cause now s = (r, s')"
    and "s1 = en_before_proof env s" and "s2 = en_before_lock env s1"
    and "cs_entries s' d \<noteq> cs_entries s d" and "cs_entries s' d \<noteq> cs_entries s2 d"
  shows "cache_key_digest (ec_cache_key c) = Inr d \<and> authorised env c d s1 s2"
proof -
  obtain digest where digest: "cache_key_digest (ec_cache_key c) = Inr digest"
    using assms(1,4) by (auto simp: evict_candidate_def split: sum.splits)
  have free: "en_metadata_lock env BeforeHash digest = None"
    using assms(1,4) digest by (auto simp: evict_candidate_def split: option.splits)
  have lock: "en_artifact_lock env digest = Acquired" "en_metadata_lock env UnderLock digest = None"
    using assms digest free by (auto simp: evict_candidate_def Let_def split: lock_result.splits option.splits)
  let ?scanned = "case journal_at env digest s1 of Inr (JValid m _) \<Rightarrow> Some m | _ \<Rightarrow> None"
  have run: "evict_locked env c digest cause now ?scanned (source_proof env c ?scanned) s2 = (r, s')"
    using assms(1) digest free lock by (simp add: evict_candidate_def Let_def assms(2,3))
  from evict_locked_authorised [OF this assms(5)] lock digest
  show ?thesis by (auto simp: authorised_def split: sum.splits journal_read.splits)
qed


text \<open>
  C28. Whatever the other sessions do between the phases, an attempt to evict a candidate
  changes an entry only under its artifact lock and its metadata lock, and only if the entry
  is tombstoned already, or is complete, unpinned, valid on disk and unused since the scan,
  and either derived or proved to have a complete second copy: its journal was not written
  since the proof began, the source hashes as recorded, and every source file is the same
  before the hashing, after it and under the lock.
\<close>

theorem eviction_is_authorised:
  assumes "evict_candidate env c cause now s = (r, s')"
    and "s1 = en_before_proof env s" and "s2 = en_before_lock env s1"
    and "cs_entries s' d \<noteq> cs_entries s d" and "cs_entries s' d \<noteq> cs_entries s2 d"
  shows "cache_key_digest (ec_cache_key c) = Inr d \<and> authorised env c d s1 s2"
  by (rule attempt_authorised [OF assms])

section \<open>The order of a sweep\<close>

interpretation lru: row_order lru_before
  unfolding lru_before_def by (intro row_order_then_by row_order_linorder row_order_text)

text \<open>A record of an entry that the sweep did not try to evict: fresh, with no reason.\<close>

definition untried :: "retained_record \<Rightarrow> bool" where
  "untried r \<longleftrightarrow> rr_hold r = Fresh \<and> rr_detail r = None"

lemma untried_fresh [simp]: "untried (fresh_record c)"
  by (simp add: untried_def fresh_record_def)

lemma under_lock_tried:
  "evict_under_lock env c digest cause now scanned proof m s = (Inr (Retained r), s') \<Longrightarrow> \<not> untried r"
  by (auto simp: evict_under_lock_def retained_candidate_def untried_def commit_eviction_def
      split: if_splits sum.splits option.splits prod.splits)

lemma candidate_tried: "evict_candidate env c cause now s = (Inr (Retained r), s') \<Longrightarrow> \<not> untried r"
  by (auto simp: evict_candidate_def evict_locked_def retained_candidate_def untried_def [of "\<lparr>rr_cache_key = _, rr_bytes = _, rr_hold = _, rr_detail = _\<rparr>"]
      Let_def dest: under_lock_tried
      split: if_splits sum.splits option.splits prod.splits journal_read.splits lock_result.splits)

lemma apply_attempt_report:
  assumes "evict_candidate env c cause now s = (attempt, s')"
    and "apply_eviction_attempt attempt c report used = (report', used')"
  shows "used' \<le> used \<and> rp_complete_bytes_before report' = rp_complete_bytes_before report
    \<and> filter untried (rp_retained report') = filter untried (rp_retained report)"
  using assms candidate_tried
  by (auto simp: apply_eviction_attempt_def evict_def retain_def fail_removal_def split: sum.splits evict_attempt.splits)

lemma evict_expired_report:
  "evict_expired env policy now cs (report, used, s) = (survivors, report', used', s') \<Longrightarrow>
   survivors = filter (\<lambda>c. \<not> expired policy now c) cs \<and> used' \<le> used
   \<and> rp_complete_bytes_before report' = rp_complete_bytes_before report
   \<and> filter untried (rp_retained report') = filter untried (rp_retained report)"
proof (induction cs arbitrary: report used s survivors)
  case (Cons c cs)
  show ?case
  proof (cases "expired policy now c")
    case True
    obtain attempt s1 where e: "evict_candidate env c TtlExpired now s = (attempt, s1)" by fastforce
    obtain report1 used1 where a: "apply_eviction_attempt attempt c report used = (report1, used1)" by fastforce
    with e True Cons.prems have "evict_expired env policy now cs (report1, used1, s1) = (survivors, report', used', s')"
      by simp
    from Cons.IH [OF this] apply_attempt_report [OF e a] True show ?thesis by auto
  next
    case False
    with Cons show ?thesis by (auto split: prod.splits)
  qed
qed simp

lemma evict_for_size_within:
  "used \<le> cp_max_bytes policy \<Longrightarrow>
   evict_for_size env policy now cs (report, used, s)
     = (report\<lparr> rp_retained := rp_retained report @ map fresh_record cs \<rparr>, used, s)"
  by (induction cs arbitrary: report) (simp_all add: retain_def)

lemma filter_untried_fresh [simp]: "filter untried (map fresh_record cs) = map fresh_record cs"
  by (induction cs) simp_all

lemma evict_for_size_report:
  "evict_for_size env policy now cs (report, used, s) = (report', used', s') \<Longrightarrow>
   used' \<le> used \<and> rp_complete_bytes_before report' = rp_complete_bytes_before report
   \<and> (\<exists>tried rest. cs = tried @ rest \<and> (rest \<noteq> [] \<longrightarrow> used' \<le> cp_max_bytes policy)
        \<and> filter untried (rp_retained report') = filter untried (rp_retained report) @ map fresh_record rest)"
proof (induction cs arbitrary: report used s)
  case (Cons c cs)
  show ?case
  proof (cases "used \<le> cp_max_bytes policy")
    case True
    with Cons.prems have "report' = report\<lparr> rp_retained := rp_retained report @ map fresh_record (c # cs) \<rparr> \<and> used' = used"
      using evict_for_size_within [OF True, of env now "c # cs" report s] by simp
    with True have "used' \<le> used \<and> rp_complete_bytes_before report' = rp_complete_bytes_before report
      \<and> c # cs = [] @ (c # cs) \<and> (c # cs \<noteq> [] \<longrightarrow> used' \<le> cp_max_bytes policy)
      \<and> filter untried (rp_retained report') = filter untried (rp_retained report) @ map fresh_record (c # cs)"
      by simp
    then show ?thesis by blast
  next
    case False
    obtain attempt s1 where e: "evict_candidate env c SizePressure now s = (attempt, s1)" by fastforce
    obtain report1 used1 where a: "apply_eviction_attempt attempt c report used = (report1, used1)" by fastforce
    with e False Cons.prems have "evict_for_size env policy now cs (report1, used1, s1) = (report', used', s')"
      by simp
    from Cons.IH [OF this] apply_attempt_report [OF e a] show ?thesis by (metis append_Cons le_trans)
  qed
qed simp

lemma scan_entry_tried:
  "scan_entry env digest (report, candidates) s = (Inr (report', candidates'), s')
   \<Longrightarrow> filter untried (rp_retained report') = filter untried (rp_retained report)"
  by (auto simp: scan_entry_def scan_valid_def scan_complete_def held_def retain_def evict_def fail_removal_def untried_def
      split: option.splits sum.splits prod.splits journal_read.splits entry_state.splits if_splits bool.splits)

lemma scan_entries_tried:
  "scan_entries env digests (report, candidates) s = (Inr (report', candidates'), s')
   \<Longrightarrow> filter untried (rp_retained report') = filter untried (rp_retained report)"
proof (induction digests arbitrary: report candidates s)
  case (Cons d digests)
  then obtain report1 candidates1 s1 where "scan_entry env d (report, candidates) s = (Inr (report1, candidates1), s1)"
    by (auto split: prod.splits sum.splits)
  with Cons show ?case using scan_entry_tried by fastforce
qed simp


section \<open>What a sweep spares\<close>

text \<open>No other session changes the store during the pass.\<close>

definition quiet :: "environment \<Rightarrow> bool" where
  "quiet env \<longleftrightarrow> en_before_proof env = id \<and> en_before_lock env = id"

text \<open>The entries a sweep may remove, read off the store as the pass finds it.\<close>

definition tombstoned :: "environment \<Rightarrow> cache_store \<Rightarrow> string \<Rightarrow> bool" where
  "tombstoned env s d \<longleftrightarrow> en_artifact_lock env d = Acquired \<and> (\<exists>marker. journal_at env d s = Inr (JEvicted marker))"

definition removable :: "environment \<Rightarrow> cache_store \<Rightarrow> string \<Rightarrow> bool" where
  "removable env s d \<longleftrightarrow> tombstoned env s d
     \<or> en_artifact_lock env d = Acquired
       \<and> (\<exists>m flag. journal_at env d s = Inr (JValid m flag) \<and> cm_state m = Complete \<and> \<not> cm_effective_pin m
           \<and> en_validate_complete_metadata env m = None \<and> (is_derived (cm_production m) \<or> second_copy env m))"

lemma journal_at_cong: "cs_entries s d = cs_entries s' d \<Longrightarrow> journal_at env d s = journal_at env d s'"
  by (simp add: journal_at_def)

lemma removable_cong: "cs_entries s d = cs_entries s' d \<Longrightarrow> removable env s d = removable env s' d"
  using journal_at_cong [of s d s' env] by (simp add: removable_def tombstoned_def)

lemma attempt_removable:
  assumes "quiet env" and "evict_candidate env c cause now s = (r, s')" and "cs_entries s' d \<noteq> cs_entries s d"
  shows "removable env s d"
  using attempt_authorised [OF assms(2), of s s d] assms
  by (auto simp: quiet_def authorised_def removable_def tombstoned_def)

text \<open>The two loops of evictions share one shape: a step per candidate, each sparing the rest.\<close>

lemma removable_trans:
  assumes "cs_entries s1 d \<noteq> cs_entries s d \<Longrightarrow> removable env s d"
    and "cs_entries s' d \<noteq> cs_entries s1 d \<Longrightarrow> removable env s1 d"
    and "cs_entries s' d \<noteq> cs_entries s d"
  shows "removable env s d"
  using assms removable_cong [of s1 d s env] by metis

lemma evict_expired_removable:
  "quiet env \<Longrightarrow> evict_expired env policy now cs (report, used, s) = (survivors, report', used', s')
   \<Longrightarrow> cs_entries s' d \<noteq> cs_entries s d \<Longrightarrow> removable env s d"
proof (induction cs arbitrary: report used s survivors)
  case (Cons c cs)
  show ?case
  proof (cases "expired policy now c")
    case True
    obtain attempt s1 where e: "evict_candidate env c TtlExpired now s = (attempt, s1)" by fastforce
    obtain report1 used1 where a: "apply_eviction_attempt attempt c report used = (report1, used1)" by fastforce
    with e True Cons.prems(2) have rest: "evict_expired env policy now cs (report1, used1, s1) = (survivors, report', used', s')"
      by simp
    show ?thesis
      by (rule removable_trans [OF attempt_removable [OF Cons.prems(1) e] Cons.IH [OF Cons.prems(1) rest] Cons.prems(3)])
  next
    case False
    with Cons show ?thesis by (auto split: prod.splits)
  qed
qed simp

lemma evict_for_size_removable:
  "quiet env \<Longrightarrow> evict_for_size env policy now cs (report, used, s) = (report', used', s')
   \<Longrightarrow> cs_entries s' d \<noteq> cs_entries s d \<Longrightarrow> removable env s d"
proof (induction cs arbitrary: report used s)
  case (Cons c cs)
  show ?case
  proof (cases "used \<le> cp_max_bytes policy")
    case True
    with Cons.prems show ?thesis using evict_for_size_within [OF True, of env now "c # cs" report s] by simp
  next
    case False
    obtain attempt s1 where e: "evict_candidate env c SizePressure now s = (attempt, s1)" by fastforce
    obtain report1 used1 where a: "apply_eviction_attempt attempt c report used = (report1, used1)" by fastforce
    with e False Cons.prems(2) have rest: "evict_for_size env policy now cs (report1, used1, s1) = (report', used', s')"
      by simp
    show ?thesis
      by (rule removable_trans [OF attempt_removable [OF Cons.prems(1) e] Cons.IH [OF Cons.prems(1) rest] Cons.prems(3)])
  qed
qed simp

lemma scan_entry_tombstoned:
  "quiet env \<Longrightarrow> scan_entry env digest st s = (r, s') \<Longrightarrow> cs_entries s' d \<noteq> cs_entries s d \<Longrightarrow> tombstoned env s d"
  by (cases st) (auto simp: quiet_def scan_entry_def try_finish_pending_eviction_def tombstoned_def dest: finish_entries
      split: option.splits sum.splits prod.splits journal_read.splits lock_result.splits)

lemma scan_entries_tombstoned:
  "quiet env \<Longrightarrow> scan_entries env digests st s = (r, s') \<Longrightarrow> cs_entries s' d \<noteq> cs_entries s d \<Longrightarrow> tombstoned env s d"
proof (induction digests arbitrary: st s)
  case (Cons digest digests)
  obtain r1 s1 where e: "scan_entry env digest st s = (r1, s1)" by fastforce
  show ?case
  proof (cases "cs_entries s1 d = cs_entries s d")
    case True
    with Cons.prems e have "tombstoned env s1 d" by (auto intro: Cons.IH split: sum.splits)
    with journal_at_cong [OF True] show ?thesis by (simp add: tombstoned_def)
  next
    case False
    with scan_entry_tombstoned [OF Cons.prems(1) e] show ?thesis .
  qed
qed simp

definition sweep_ran :: "environment \<Rightarrow> cache_policy \<Rightarrow> nat \<Rightarrow> cache_store \<Rightarrow> cache_store \<Rightarrow> bool" where
  "sweep_ran env policy now s s' \<longleftrightarrow>
     (\<exists>cs report used survivors report1 used1 s1 report2 used2.
        evict_expired env policy now cs (report, used, s) = (survivors, report1, used1, s1)
        \<and> evict_for_size env policy now survivors (report1, used1, s1) = (report2, used2, s'))"

lemma sweep_stages:
  assumes "enforce_retention scan env policy now s = (r, s')"
  shows "s' = s \<or> (\<exists>digests st s1. scan_entries scan digests (empty_report, []) s = (st, s1)
    \<and> (s' = s1 \<or> sweep_ran env policy now s1 s'))"
proof (cases "entry_digests scan")
  case (Inr digests)
  obtain st s1 where sc: "scan_entries scan digests (empty_report, []) s = (st, s1)" by fastforce
  show ?thesis
  proof (cases "s' = s \<or> s' = s1")
    case False
    with assms Inr sc have "sweep_ran env policy now s1 s'"
      unfolding sweep_ran_def
      by (auto simp: enforce_retention_def Let_def split: sum.splits prod.splits) blast
    with sc show ?thesis by blast
  qed (use sc in blast)
qed (use assms in \<open>auto simp: enforce_retention_def split: sum.splits\<close>)


section \<open>A store with one expired entry\<close>

definition sample_digest :: string where
  "sample_digest = replicate 64 CHR ''a''"

definition sample_store :: cache_store where
  "sample_store = \<lparr> cs_entries = [sample_digest \<mapsto> sample_entry], cs_sessions = Map.empty, cs_audit = Map.empty \<rparr>"

definition sample_env :: environment where
  "sample_env = \<lparr>
     en_session_id = ''session'', en_shape = (\<lambda>_. None), en_read_dir = Inr [Inr (Some sample_digest, Inr True)],
     en_metadata_lock = (\<lambda>_ _. None), en_artifact_probe = (\<lambda>_. Acquired), en_artifact_lock = (\<lambda>_. Acquired),
     en_session_lock = (\<lambda>_. Acquired), en_measure_entry_bytes = (\<lambda>_. Inr 7),
     en_validate_complete_metadata = (\<lambda>_. None), en_source_paths = (\<lambda>_. Inr [''model'']),
     en_source_hashes = (\<lambda>_. None),
     en_symlink_metadata = (\<lambda>_ _. Inr \<lparr> fs_is_file = True, fs_len = 7, fs_modified = Some 1, fs_changed = (1, 1) \<rparr>),
     en_probe_source_reachable = (\<lambda>_. None), en_missing_directory = internal_error ''no directory'',
     en_marker_write = (\<lambda>_. None), en_audit_write = (\<lambda>_ _. True), en_remove_managed_tree = (\<lambda>_. None),
     en_left_behind = (\<lambda>_ e. e), en_before_proof = id, en_before_lock = id \<rparr>"

definition sample_policy :: cache_policy where
  "sample_policy = \<lparr> cp_enabled = True, cp_max_bytes = 100, cp_inactivity_seconds = 5 \<rparr>"

lemma sample_key: "cache_key_digest (cm_cache_key sample_metadata) = Inr sample_digest"
  by code_simp

lemma sample_hex: "is_lower_hex_64 sample_digest"
  by code_simp

lemma sample_journal: "journal_at sample_env sample_digest sample_store = Inr (JValid sample_metadata False)"
  by (simp add: journal_at_def sample_store_def sample_env_def read_metadata_unlocked_def sample_entry_def
      slot_valid_def slot_invalid_def order_by_pair)

lemma sample_facts:
  "cm_state sample_metadata = Complete" "\<not> cm_effective_pin sample_metadata" "entry_activity sample_metadata = 2"
  "\<not> is_derived (cm_production sample_metadata)" "cm_created_at sample_metadata = 1"
  by (simp_all add: sample_metadata_def entry_activity_def is_derived_def)

definition sample_candidate :: eviction_candidate where
  "sample_candidate = candidate_of sample_env sample_digest sample_metadata"

lemma sample_candidate_facts: "ec_cache_key sample_candidate = cm_cache_key sample_metadata" "ec_activity sample_candidate = 2"
  "ec_bytes sample_candidate = 7"
  by (simp_all add: sample_candidate_def candidate_of_def entry_bytes_def sample_env_def sample_facts)

lemma sample_env_facts:
  "en_metadata_lock sample_env t d = None" "en_artifact_lock sample_env d = Acquired" "en_artifact_probe sample_env d = Acquired"
  "en_before_proof sample_env = id" "en_before_lock sample_env = id" "en_validate_complete_metadata sample_env m = None"
  "en_marker_write sample_env d = None" "en_remove_managed_tree sample_env d = None"
  by (simp_all add: sample_env_def)

lemma sample_quiet: "quiet sample_env"
  by (simp add: quiet_def sample_env_def)

lemma sample_evicted:
  "\<exists>record s'. evict_candidate sample_env sample_candidate TtlExpired 10 sample_store = (Inr (Evicted record), s')
    \<and> cs_entries s' sample_digest = None"
proof -
  have "verify_source_complete sample_env sample_metadata
      = Inr [\<lparr> vs_path = ''model'', vs_len = 7, vs_modified = Some 1, vs_changed = (1, 1) \<rparr>]"
    by (simp add: verify_source_complete_def sample_env_def verified_file_def)
  moreover have "revalidate_source_snapshot sample_env [\<lparr> vs_path = ''model'', vs_len = 7, vs_modified = Some 1, vs_changed = (1, 1) \<rparr>] = Inr ()"
    by (simp add: sample_env_def)
  moreover have "cs_entries sample_store sample_digest = Some sample_entry" by (simp add: sample_store_def)
  ultimately show ?thesis
    by (simp add: evict_candidate_def evict_locked_def evict_under_lock_def source_proof_def usable_snapshot_def commit_eviction_def
        write_eviction_marker_def finish_pending_eviction_def read_eviction_marker_def sample_key sample_candidate_facts
        sample_journal sample_facts sample_env_facts Let_def)
qed

theorem eviction_is_authorised_witness:
  "cache_key_digest (ec_cache_key sample_candidate) = Inr sample_digest
    \<and> authorised sample_env sample_candidate sample_digest sample_store sample_store"
proof -
  obtain r s' where run: "evict_candidate sample_env sample_candidate TtlExpired 10 sample_store = (Inr (Evicted r), s')"
    and gone: "cs_entries s' sample_digest = None"
    using sample_evicted by blast
  have "cs_entries s' sample_digest \<noteq> cs_entries sample_store sample_digest"
    using gone by (simp add: sample_store_def)
  with eviction_is_authorised [OF run refl refl] sample_quiet show ?thesis by (simp add: quiet_def)
qed

lemma sample_swept:
  "\<exists>report s'. enforce_retention sample_env sample_env sample_policy 10 sample_store = (Inr report, s')
    \<and> cs_entries s' sample_digest = None"
proof -
  obtain r s' where run: "evict_candidate sample_env sample_candidate TtlExpired 10 sample_store = (Inr (Evicted r), s')"
    and gone: "cs_entries s' sample_digest = None"
    using sample_evicted by blast
  have digests: "entry_digests sample_env = Inr [sample_digest]"
    by (simp add: entry_digests_def sample_env_def sample_hex order_by_Cons)
  have "scan_entries sample_env [sample_digest] (empty_report, []) sample_store = (Inr (empty_report, [sample_candidate]), sample_store)"
    using sample_journal
    by (simp add: scan_entry_def scan_valid_def scan_complete_def artifact_lock_is_contended_def sample_facts
        sample_candidate_def sample_env_facts)
  moreover have "expired sample_policy 10 sample_candidate"
    by (simp add: expired_def sample_policy_def sample_candidate_facts)
  ultimately show ?thesis
    using run gone
    by (simp add: enforce_retention_def digests checked_total_def validate_policy_def sample_candidate_facts empty_report_def
        order_by_Cons apply_eviction_attempt_def evict_def)
      (simp add: sample_policy_def)
qed



end
