(* ===== verification/CacheRemoval.thy ===== *)
theory CacheRemoval
  imports CacheRetention
begin

text \<open>
  Explicit removals from the resolved cache (\<open>resolved_cache/retention.rs\<close>): the preview of
  a manual removal, the removal, the reconciliation with an uninstalled source, and the
  confined deleter on Unix (\<open>remove_entry_at\<close> in \<open>resolved_cache.rs\<close>).
\<close>

section \<open>Manual removal\<close>

text \<open>The owners are a set; the source lists them in order.\<close>

datatype manual_removal_pins = KnownPins bool "string set" | UnknownPins

definition is_provably_unpinned :: "manual_removal_pins \<Rightarrow> bool" where
  "is_provably_unpinned pins \<longleftrightarrow> pins = KnownPins False {}"

record removal_preview =
  mp_cache_key :: string
  mp_state :: entry_state
  mp_reclaimable_bytes :: nat
  mp_pins :: manual_removal_pins
  mp_source_unavailable_warning :: "string option"
  mp_blocked :: "string option"

record removal_outcome =
  mo_cache_key :: string
  mo_reclaimed_bytes :: nat
  mo_source_unavailable_warning :: "string option"

definition UNREADABLE :: string where
  "UNREADABLE = ''cannot remove a resolved-cache entry whose state cannot be read: ''"

definition ACTIVE_BLOCK :: string where
  "ACTIVE_BLOCK = ''an active lease or reservation holds this entry''"

type_synonym preview_facts = "entry_state \<times> manual_removal_pins \<times> string option \<times> string option"

text \<open>State, pins, source warning and refusal, as the journal tells them.\<close>

definition preview_journal ::
  "environment \<Rightarrow> bool \<Rightarrow> cache_error + journal_read \<Rightarrow> cache_error + preview_facts" where
  "preview_journal env active journal =
     (let active_block = (if active then Some ACTIVE_BLOCK else None);
          gone = KnownPins False {}
      in case journal of
           Inr (JValid m _) \<Rightarrow>
             (case (if cm_state m = Materializing then materializing_session_is_live env m else Inr False) of
                Inl error \<Rightarrow> Inl error
              | Inr live_materializing \<Rightarrow>
                  Inr (cm_state m, KnownPins (cm_artifact_pinned m) (cm_model_pin_owners m),
                       if cm_state m = Complete then en_probe_source_reachable env m else None,
                       if active then active_block
                       else if live_materializing then Some ''a live session is materializing this entry''
                       else if cm_effective_pin m then Some ''entry is pinned; unpin it before removal''
                       else None))
         | Inr (JEvicted _) \<Rightarrow> Inr (Evicting, gone, None, active_block)
         | Inr JMissing \<Rightarrow> Inr (Corrupt, gone, None, active_block)
         | Inl error \<Rightarrow>
             if is_unrecoverable_metadata error then Inr (Corrupt, gone, None, active_block)
             else Inr (Corrupt, UnknownPins, None, Some (UNREADABLE @ ce_message error)))"

definition manual_removal_preview :: "environment \<Rightarrow> string \<Rightarrow> cache_store \<Rightarrow> cache_error + removal_preview" where
  "manual_removal_preview env cache_key s =
     (case cache_key_digest cache_key of
        Inl error \<Rightarrow> Inl error
      | Inr digest \<Rightarrow>
        (case en_metadata_lock env UnderLock digest of
           Some error \<Rightarrow> Inl error
         | None \<Rightarrow>
           if cs_entries s digest = None then Inl (request_error ''no such resolved-cache entry'')
           else
             let (reclaimable_bytes, unmeasurable) =
                   (case en_measure_entry_bytes env digest of
                      Inr bytes \<Rightarrow> (bytes, None)
                    | Inl error \<Rightarrow> (0, Some (''entry cannot be measured for removal: '' @ ce_message error)))
             in case artifact_lock_is_contended env digest of
                  Inl error \<Rightarrow> Inl error
                | Inr active \<Rightarrow>
                  (case preview_journal env active (journal_at env digest s) of
                     Inl error \<Rightarrow> Inl error
                   | Inr (state, pins, warning, blocked) \<Rightarrow>
                       Inr \<lparr> mp_cache_key = cache_key, mp_state = state, mp_reclaimable_bytes = reclaimable_bytes,
                             mp_pins = pins, mp_source_unavailable_warning = warning,
                             mp_blocked = (case blocked of Some b \<Rightarrow> Some b | None \<Rightarrow> unmeasurable) \<rparr>)))"

text \<open>What the journal says to a removal: a pending eviction, a refusal, or the warning to pass on.\<close>

datatype removal_check = PendingEviction | Refused cache_error | Removable "string option"

definition check_removal :: "environment \<Rightarrow> cache_error + journal_read \<Rightarrow> removal_check" where
  "check_removal env journal =
     (case journal of
        Inr (JEvicted _) \<Rightarrow> PendingEviction
      | Inr (JValid m _) \<Rightarrow>
          (case (if cm_state m = Materializing then materializing_session_is_live env m else Inr False) of
             Inl error \<Rightarrow> Refused error
           | Inr True \<Rightarrow>
               Refused (request_error ''cannot remove a resolved-cache entry that a live session is materializing'')
           | Inr False \<Rightarrow>
               if cm_effective_pin m
               then Refused (request_error ''resolved-cache entry is pinned; unpin it before removal'')
               else Removable (if cm_state m = Complete then en_probe_source_reachable env m else None))
      | Inr JMissing \<Rightarrow> Removable None
      | Inl error \<Rightarrow>
          if is_unrecoverable_metadata error then Removable None
          else Refused (internal_error (UNREADABLE @ ce_message error)))"

definition remove_marked ::
  "environment \<Rightarrow> string \<Rightarrow> eviction_marker \<Rightarrow> cache_store \<Rightarrow> cache_error option \<times> cache_store" where
  "remove_marked env digest marker s =
     (case write_eviction_marker env digest marker s of
        Inl error \<Rightarrow> (Some error, s)
      | Inr s \<Rightarrow>
          (case finish_pending_eviction env digest s of
             (Inl error, s) \<Rightarrow> (Some error, s)
           | (Inr _, s) \<Rightarrow> (None, s)))"

definition remove_entry ::
  "environment \<Rightarrow> string \<Rightarrow> nat \<Rightarrow> cache_store \<Rightarrow> (cache_error + removal_outcome) \<times> cache_store" where
  "remove_entry env cache_key now s =
     (case cache_key_digest cache_key of
        Inl error \<Rightarrow> (Inl error, s)
      | Inr digest \<Rightarrow>
        (case en_artifact_lock env digest of
           Contended \<Rightarrow>
             (Inl (request_error ''cannot remove a resolved-cache entry with an active lease or reservation''), s)
         | LockFailed error \<Rightarrow> (Inl error, s)
         | Acquired \<Rightarrow>
           (case en_metadata_lock env UnderLock digest of
              Some error \<Rightarrow> (Inl error, s)
            | None \<Rightarrow>
              if cs_entries s digest = None then (Inl (request_error ''no such resolved-cache entry''), s)
              else
              (case check_removal env (journal_at env digest s) of
                 PendingEviction \<Rightarrow>
                   (case finish_pending_eviction env digest s of
                      (Inl error, s) \<Rightarrow> (Inl error, s)
                    | (Inr marker, s) \<Rightarrow>
                        (Inr \<lparr> mo_cache_key = cache_key, mo_reclaimed_bytes = em_reclaimable_bytes marker,
                               mo_source_unavailable_warning = None \<rparr>, s))
               | Refused error \<Rightarrow> (Inl error, s)
               | Removable warning \<Rightarrow>
                 (case en_measure_entry_bytes env digest of
                    Inl error \<Rightarrow> (Inl error, s)
                  | Inr bytes \<Rightarrow>
                    (case remove_marked env digest
                            \<lparr> em_cache_key = cache_key, em_cause = ManualRemove, em_reclaimable_bytes = bytes,
                              em_requested_at = now, em_session_id = en_session_id env \<rparr> s of
                       (Some error, s) \<Rightarrow> (Inl error, s)
                     | (None, s) \<Rightarrow>
                         (Inr \<lparr> mo_cache_key = cache_key, mo_reclaimed_bytes = bytes,
                                mo_source_unavailable_warning = warning \<rparr>, s)))))))"

section \<open>Reconciliation\<close>

record source_lifecycle_selector =
  sl_repository :: string
  sl_revision :: "string option"
  sl_tier :: "string option"

definition selector_matches :: "source_lifecycle_selector \<Rightarrow> cache_metadata \<Rightarrow> bool" where
  "selector_matches selector m \<longleftrightarrow>
     ma_repository (cm_artifact m) = sl_repository selector
     \<and> (case sl_revision selector of None \<Rightarrow> True | Some revision \<Rightarrow> ma_revision (cm_artifact m) = revision)
     \<and> (case sl_tier selector of
          None \<Rightarrow> True
        | Some tier \<Rightarrow> (case ma_tier (cm_artifact m) of Some current \<Rightarrow> eq_ignore_ascii_case current tier | None \<Rightarrow> False))"

record reconciliation_report =
  rc_removed :: "evicted_record list"
  rc_deferred :: "retained_record list"
  rc_unmatched_unreadable :: "string list"

definition defer_entry :: "retained_record \<Rightarrow> reconciliation_report \<Rightarrow> reconciliation_report" where
  "defer_entry r report = report\<lparr> rc_deferred := rc_deferred report @ [r] \<rparr>"

text \<open>Under both locks, with the document read again.\<close>

definition reconcile_locked ::
  "environment \<Rightarrow> source_lifecycle_selector \<Rightarrow> nat \<Rightarrow> string \<Rightarrow> cache_metadata \<Rightarrow> reconciliation_report \<Rightarrow> cache_store
    \<Rightarrow> (cache_error + reconciliation_report) \<times> cache_store" where
  "reconcile_locked env selector now digest m report s =
     (case (if cm_state m = Materializing then materializing_session_is_live env m else Inr False) of
        Inl error \<Rightarrow> (Inl error, s)
      | Inr True \<Rightarrow> (Inr (defer_entry (held env digest m MaterializationInProgress None) report), s)
      | Inr False \<Rightarrow>
        (case en_measure_entry_bytes env digest of
           Inl error \<Rightarrow> (Inl error, s)
         | Inr bytes \<Rightarrow>
           (case remove_marked env digest
                   \<lparr> em_cache_key = cm_cache_key m, em_cause = SourceRemoved, em_reclaimable_bytes = bytes,
                     em_requested_at = now, em_session_id = en_session_id env \<rparr> s of
              (Some error, s) \<Rightarrow> (Inl error, s)
            | (None, s) \<Rightarrow>
                (Inr (report\<lparr> rc_removed := rc_removed report
                   @ [\<lparr> er_cache_key = cm_cache_key m, er_bytes = bytes, er_cause = SourceRemoved \<rparr>] \<rparr>), s))))"

definition reconcile_entry ::
  "environment \<Rightarrow> source_lifecycle_selector \<Rightarrow> nat \<Rightarrow> string \<Rightarrow> reconciliation_report \<Rightarrow> cache_store
    \<Rightarrow> (cache_error + reconciliation_report) \<times> cache_store" where
  "reconcile_entry env selector now digest report s =
     (case en_metadata_lock env BeforeHash digest of
        Some error \<Rightarrow> (Inl error, s)
      | None \<Rightarrow>
        (case journal_at env digest s of
           Inl _ \<Rightarrow>
             (Inr (report\<lparr> rc_unmatched_unreadable := rc_unmatched_unreadable report @ [''sha256:'' @ digest] \<rparr>), s)
         | Inr (JEvicted _) \<Rightarrow> (Inr report, s)
         | Inr JMissing \<Rightarrow> (Inr report, s)
         | Inr (JValid m _) \<Rightarrow>
           if \<not> selector_matches selector m then (Inr report, s)
           else
             let s = en_before_lock env s
             in case en_artifact_lock env digest of
                  Contended \<Rightarrow> (Inr (defer_entry (held env digest m ActiveUse None) report), s)
                | LockFailed error \<Rightarrow> (Inl error, s)
                | Acquired \<Rightarrow>
                  (case en_metadata_lock env UnderLock digest of
                     Some error \<Rightarrow> (Inl error, s)
                   | None \<Rightarrow>
                     (case journal_at env digest s of
                        Inr (JValid m _) \<Rightarrow>
                          if selector_matches selector m then reconcile_locked env selector now digest m report s
                          else (Inr report, s)
                      | _ \<Rightarrow> (Inr report, s)))))"

fun reconcile_entries ::
  "environment \<Rightarrow> source_lifecycle_selector \<Rightarrow> nat \<Rightarrow> string list \<Rightarrow> reconciliation_report \<Rightarrow> cache_store
    \<Rightarrow> (cache_error + reconciliation_report) \<times> cache_store" where
  "reconcile_entries env selector now [] report s = (Inr report, s)"
| "reconcile_entries env selector now (digest # digests) report s =
     (case reconcile_entry env selector now digest report s of
        (Inl error, s) \<Rightarrow> (Inl error, s)
      | (Inr report, s) \<Rightarrow> reconcile_entries env selector now digests report s)"

definition reconcile_removed_source ::
  "environment \<Rightarrow> source_lifecycle_selector \<Rightarrow> nat \<Rightarrow> cache_store
    \<Rightarrow> (cache_error + reconciliation_report) \<times> cache_store" where
  "reconcile_removed_source env selector now s =
     (if trim (sl_repository selector) = []
      then (Inl (internal_error ''lifecycle selector repository must be nonempty''), s)
      else case entry_digests env of
             Inl error \<Rightarrow> (Inl error, s)
           | Inr digests \<Rightarrow>
               reconcile_entries env selector now digests
                 \<lparr> rc_removed = [], rc_deferred = [], rc_unmatched_unreadable = [] \<rparr> s)"

section \<open>A preview predicts the removal\<close>

lemma remove_marked_others:
  "remove_marked env digest marker s = (r, s') \<Longrightarrow> d \<noteq> digest \<Longrightarrow> cs_entries s' d = cs_entries s d"
  by (auto simp: remove_marked_def dest!: write_marker_entries [where d = d] finish_entries [where d = d]
      split: sum.splits prod.splits)

lemma remove_marked_gone:
  "remove_marked env digest marker s = (None, s') \<Longrightarrow> cs_entries s' digest = None"
  by (auto simp: remove_marked_def finish_pending_eviction_def Let_def split: sum.splits prod.splits option.splits)

lemma remove_marked_runs:
  assumes "cache_key_digest (em_cache_key marker) = Inr digest" and "cs_entries s digest \<noteq> None"
    and "en_marker_write env digest = None" and "en_remove_managed_tree env digest = None"
  shows "\<exists>s'. remove_marked env digest marker s = (None, s')"
  using assms
  by (auto simp: remove_marked_def write_eviction_marker_def finish_pending_eviction_def read_eviction_marker_def Let_def)

lemma finish_runs:
  assumes "journal_at env digest s = Inr (JEvicted marker)" and "en_remove_managed_tree env digest = None"
  shows "\<exists>s'. finish_pending_eviction env digest s = (Inr marker, s') \<and> cs_entries s' digest = None"
  using assms
  by (auto simp: journal_at_def read_metadata_unlocked_def finish_pending_eviction_def read_eviction_marker_def Let_def
      split: option.splits tombstone.splits if_splits)

text \<open>The two readings of the journal agree.\<close>

lemma preview_check:
  assumes "preview_journal env active journal = Inr (state, pins, warning, blocked)"
  shows "case check_removal env journal of
      PendingEviction \<Rightarrow> (blocked \<noteq> None \<longleftrightarrow> active)
    | Refused error \<Rightarrow> blocked \<noteq> None
    | Removable w \<Rightarrow> (blocked \<noteq> None \<longleftrightarrow> active) \<and> warning = w"
  using assms
  by (auto simp: preview_journal_def check_removal_def Let_def split: sum.splits journal_read.splits if_splits bool.splits)

lemma pending_iff: "check_removal env journal = PendingEviction \<longleftrightarrow> (\<exists>marker. journal = Inr (JEvicted marker))"
  by (auto simp: check_removal_def split: sum.splits journal_read.splits if_splits bool.splits)



section \<open>What a reconciliation removes\<close>

definition unblocked :: "environment \<Rightarrow> cache_metadata \<Rightarrow> bool" where
  "unblocked env m \<longleftrightarrow> \<not> (cm_state m = Materializing \<and> materializing_session_is_live env m = Inr True)"

lemma reconcile_locked_effect:
  assumes "reconcile_locked env selector now digest m report s = (r, s')"
  shows "(cs_entries s' d \<noteq> cs_entries s d \<longrightarrow> d = digest \<and> unblocked env m)
    \<and> (\<forall>report'. r = Inr report' \<longrightarrow>
        rc_unmatched_unreadable report' = rc_unmatched_unreadable report
        \<and> set (rc_removed report) \<subseteq> set (rc_removed report') \<and> set (rc_deferred report) \<subseteq> set (rc_deferred report')
        \<and> (cs_entries s' digest = None \<and> cm_cache_key m \<in> er_cache_key ` set (rc_removed report')
           \<or> s' = s \<and> cm_cache_key m \<in> rr_cache_key ` set (rc_deferred report')))"
  using assms
  by (auto simp: reconcile_locked_def defer_entry_def held_def unblocked_def
      dest: remove_marked_others remove_marked_gone
      split: if_splits sum.splits bool.splits prod.splits option.splits)

text \<open>How one entry of the loop is settled.\<close>

definition settled ::
  "environment \<Rightarrow> source_lifecycle_selector \<Rightarrow> reconciliation_report \<Rightarrow> string \<Rightarrow> cache_store \<Rightarrow> cache_store \<Rightarrow> bool" where
  "settled env selector report d s s' \<longleftrightarrow>
     (case journal_at env d s of
        Inl _ \<Rightarrow> ''sha256:'' @ d \<in> set (rc_unmatched_unreadable report)
      | Inr (JValid m _) \<Rightarrow>
          selector_matches selector m \<longrightarrow>
          cs_entries s' d = None \<and> cm_cache_key m \<in> er_cache_key ` set (rc_removed report)
          \<or> cm_cache_key m \<in> rr_cache_key ` set (rc_deferred report)
      | _ \<Rightarrow> True)"

definition report_le :: "reconciliation_report \<Rightarrow> reconciliation_report \<Rightarrow> bool" where
  "report_le a b \<longleftrightarrow> set (rc_removed a) \<subseteq> set (rc_removed b) \<and> set (rc_deferred a) \<subseteq> set (rc_deferred b)
     \<and> set (rc_unmatched_unreadable a) \<subseteq> set (rc_unmatched_unreadable b)"

lemma report_le_trans [trans]: "report_le a b \<Longrightarrow> report_le b c \<Longrightarrow> report_le a c"
  by (auto simp: report_le_def)

lemma report_le_refl [simp]: "report_le a a"
  by (simp add: report_le_def)

definition reconcilable :: "environment \<Rightarrow> source_lifecycle_selector \<Rightarrow> cache_store \<Rightarrow> string \<Rightarrow> bool" where
  "reconcilable env selector s d \<longleftrightarrow> en_artifact_lock env d = Acquired
     \<and> (\<exists>m flag. journal_at env d s = Inr (JValid m flag) \<and> selector_matches selector m \<and> unblocked env m)"

lemma reconcile_entry_effect:
  assumes "quiet env" and "reconcile_entry env selector now digest report s = (r, s')"
  shows "(cs_entries s' d \<noteq> cs_entries s d \<longrightarrow> d = digest \<and> reconcilable env selector s d)
    \<and> (\<forall>report'. r = Inr report' \<longrightarrow> report_le report report' \<and> settled env selector report' digest s s')"
proof (cases "\<exists>m flag. journal_at env digest s = Inr (JValid m flag) \<and> selector_matches selector m
    \<and> en_artifact_lock env digest = Acquired \<and> reconcile_locked env selector now digest m report s = (r, s')")
  case True
  then obtain m flag where m: "journal_at env digest s = Inr (JValid m flag)" "selector_matches selector m"
    "en_artifact_lock env digest = Acquired" "reconcile_locked env selector now digest m report s = (r, s')"
    by blast
  from reconcile_locked_effect [OF m(4), of d] m show ?thesis
    by (auto simp: reconcilable_def report_le_def settled_def)
next
  case False
  with assms have "s' = s"
    by (auto simp: quiet_def reconcile_entry_def Let_def
        split: option.splits sum.splits journal_read.splits if_splits lock_result.splits)
  moreover have "report_le report report' \<and> settled env selector report' digest s s'" if "r = Inr report'" for report'
    using False assms that
    by (auto simp: quiet_def reconcile_entry_def Let_def report_le_def settled_def defer_entry_def held_def
        split: option.splits sum.splits journal_read.splits if_splits lock_result.splits)
  ultimately show ?thesis by blast
qed

lemma reconcile_entries_effect:
  "quiet env \<Longrightarrow> reconcile_entries env selector now digests report s = (r, s') \<Longrightarrow>
   (cs_entries s' d \<noteq> cs_entries s d \<longrightarrow> d \<in> set digests \<and> reconcilable env selector s d)
   \<and> (\<forall>report'. r = Inr report' \<longrightarrow> report_le report report' \<and> (d \<in> set digests \<longrightarrow> settled env selector report' d s s'))"
proof (induction digests arbitrary: report s)
  case (Cons digest digests)
  obtain r1 s1 where one: "reconcile_entry env selector now digest report s = (r1, s1)" by fastforce
  note first = reconcile_entry_effect [OF Cons.prems(1) one]
  show ?case
  proof (cases r1)
    case (Inl error)
    with one Cons.prems first show ?thesis by auto
  next
    case (Inr report1)
    with one Cons.prems have rest: "reconcile_entries env selector now digests report1 s1 = (r, s')" by simp
    note IH = Cons.IH [OF Cons.prems(1) rest]
    have "settled env selector report' d s s'" if ok: "r = Inr report'" and d: "d \<in> set (digest # digests)" for report'
    proof (cases "cs_entries s1 d = cs_entries s d")
      case same: True
      show ?thesis
      proof (cases "d \<in> set digests")
        case True
        with IH ok have "settled env selector report' d s1 s'" by blast
        with journal_at_cong [OF same] show ?thesis by (simp add: settled_def)
      next
        case False
        with d have "d = digest" by simp
        with first Inr have "settled env selector report1 d s s1" by blast
        moreover have "cs_entries s' d = cs_entries s1 d" using IH False by blast
        moreover have "report_le report1 report'" using IH ok by blast
        ultimately show ?thesis
          by (auto simp: settled_def report_le_def split: sum.splits journal_read.splits)
      qed
    next
      case False
      with first have "d = digest" "settled env selector report1 d s s1" "reconcilable env selector s d" using Inr by blast+
      moreover have "report_le report1 report'" using IH ok by blast
      moreover have "cs_entries s' d = cs_entries s1 d \<or> reconcilable env selector s1 d" using IH by blast
      ultimately show ?thesis
        by (auto simp: settled_def report_le_def reconcilable_def journal_at_def split: sum.splits journal_read.splits)
    qed
    moreover have "cs_entries s' d \<noteq> cs_entries s d \<longrightarrow> d \<in> set (digest # digests) \<and> reconcilable env selector s d"
    proof (cases "cs_entries s1 d = cs_entries s d")
      case True
      with IH journal_at_cong [OF True] show ?thesis by (auto simp: reconcilable_def)
    next
      case False
      with first show ?thesis by auto
    qed
    moreover have "report_le report report'" if "r = Inr report'" for report'
      using first IH Inr that report_le_trans by blast
    ultimately show ?thesis by blast
  qed
qed auto


definition sample_selector :: source_lifecycle_selector where
  "sample_selector = \<lparr> sl_repository = ''owner/model'', sl_revision = None, sl_tier = Some ''Q8'' \<rparr>"

lemma sample_digests: "entry_digests sample_env = Inr [sample_digest]"
  by (simp add: entry_digests_def sample_env_def sample_hex order_by_Cons)


section \<open>The confined deleter\<close>

text \<open>
  \<open>remove_entry_at\<close> on Unix, on the tree below the entry: what a name is, and, for a name
  that cannot be inspected, opened or unlinked, the error. The second result is what is left.
\<close>

datatype node = RegularFile | Directory "(string \<times> node) list" | SymbolicLink | SpecialFile

record unlink_errors =
  ue_stat :: "string list \<Rightarrow> cache_error option"
  ue_open :: "string list \<Rightarrow> cache_error option"
  ue_unlink :: "string list \<Rightarrow> cache_error option"

fun remove_entry_at :: "unlink_errors \<Rightarrow> string list \<Rightarrow> node \<Rightarrow> cache_error option \<times> node option"
  and remove_children :: "unlink_errors \<Rightarrow> string list \<Rightarrow> (string \<times> node) list \<Rightarrow> cache_error option \<times> (string \<times> node) list" where
  "remove_entry_at fs path SymbolicLink =
     (case ue_stat fs path of
        Some error \<Rightarrow> (Some error, Some SymbolicLink)
      | None \<Rightarrow> (Some (internal_error ''refusing to remove linked managed path''), Some SymbolicLink))"
| "remove_entry_at fs path SpecialFile =
     (case ue_stat fs path of
        Some error \<Rightarrow> (Some error, Some SpecialFile)
      | None \<Rightarrow> (Some (internal_error ''refusing to remove unmanaged filesystem entry''), Some SpecialFile))"
| "remove_entry_at fs path RegularFile =
     (case ue_stat fs path of
        Some error \<Rightarrow> (Some error, Some RegularFile)
      | None \<Rightarrow>
        (case ue_unlink fs path of Some error \<Rightarrow> (Some error, Some RegularFile) | None \<Rightarrow> (None, None)))"
| "remove_entry_at fs path (Directory children) =
     (case ue_stat fs path of
        Some error \<Rightarrow> (Some error, Some (Directory children))
      | None \<Rightarrow>
        (case ue_open fs path of
           Some error \<Rightarrow> (Some error, Some (Directory children))
         | None \<Rightarrow>
           (case remove_children fs path children of
              (Some error, left) \<Rightarrow> (Some error, Some (Directory left))
            | (None, left) \<Rightarrow>
                (case ue_unlink fs path of Some error \<Rightarrow> (Some error, Some (Directory left)) | None \<Rightarrow> (None, None)))))"
| "remove_children fs path [] = (None, [])"
| "remove_children fs path ((name, n) # rest) =
     (case remove_entry_at fs (path @ [name]) n of
        (None, _) \<Rightarrow> remove_children fs path rest
      | (Some error, left) \<Rightarrow> (Some error, (case left of Some n' \<Rightarrow> [(name, n')] | None \<Rightarrow> []) @ rest))"

text \<open>The links of a tree, by path.\<close>

fun links :: "string list \<Rightarrow> node \<Rightarrow> string list set"
  and child_links :: "string list \<Rightarrow> (string \<times> node) list \<Rightarrow> string list set" where
  "links path SymbolicLink = {path}"
| "links path RegularFile = {}"
| "links path SpecialFile = {}"
| "links path (Directory children) = child_links path children"
| "child_links path [] = {}"
| "child_links path ((name, n) # rest) = links (path @ [name]) n \<union> child_links path rest"

lemma deleter_keeps_links:
  "(case remove_entry_at fs path n of
      (None, left) \<Rightarrow> left = None \<and> links path n = {}
    | (Some error, left) \<Rightarrow> (\<exists>n'. left = Some n' \<and> links path n' = links path n))"
  "(case remove_children fs path children of
      (None, left) \<Rightarrow> left = [] \<and> child_links path children = {}
    | (Some error, left) \<Rightarrow> child_links path left = child_links path children)"
  by (induction fs path n and fs path children rule: remove_entry_at_remove_children.induct)
    (auto split: option.splits prod.splits)

text \<open>
  The deleter never removes a link: it succeeds only on a tree without links, which is
  then gone, and when it fails, every link is still where it was.
\<close>

theorem deleter_spares_links:
  "(case remove_entry_at fs path n of
      (None, left) \<Rightarrow> left = None \<and> links path n = {}
    | (Some error, left) \<Rightarrow> (\<exists>n'. left = Some n' \<and> links path n' = links path n))"
  by (rule deleter_keeps_links(1))

text \<open>
  A failed removal need not keep the tombstone: the deleter takes the names in the order of
  the directory and stops at the first failure, so a tombstone listed before a file that
  cannot be unlinked is gone while the bundle and the journal remain.
\<close>

lemma tombstone_goes_first:
  "remove_entry_at \<lparr> ue_stat = (\<lambda>_. None), ue_open = (\<lambda>_. None), ue_unlink = (\<lambda>p. if p = [''e'', ''bundle'', ''model''] then Some (internal_error ''busy'') else None) \<rparr>
     [''e''] (Directory [(''evicted.marker.json'', RegularFile), (''bundle'', Directory [(''model'', RegularFile)]), (''metadata.1.json'', RegularFile)])
   = (Some (internal_error ''busy''),
      Some (Directory [(''bundle'', Directory [(''model'', RegularFile)]), (''metadata.1.json'', RegularFile)]))"
  by simp

end
