(* ===== verification/CacheLifecycle.thy ===== *)
theory CacheLifecycle
  imports CacheRetention
begin

text \<open>
  The life of a resolved-cache entry (\<open>resolved_cache.rs\<close>): the listing, reservation of an
  entry for materialization, completion and interruption of a reservation, acquisition of a
  complete entry by a runtime, and the recovery pass. On top of \<open>environment\<close>, which has the
  locks, a call sees \<open>lifecycle_io\<close>: one reading of the clock, the random id it draws, the
  validations that read bundle content, and the errors of its writes.
\<close>

section \<open>Writes\<close>

datatype managed_file =
  JournalSlot | CorruptMarker | CleanupReceipt | CompleteReceipt | ContentReceipt | SessionFile

record lifecycle_io =
  io_now :: nat
  io_random_id :: "cache_error + string"
  io_write :: "managed_file \<Rightarrow> cache_error option"
  io_source_root :: "string \<Rightarrow> cache_error option"
  io_entry_dir :: "cache_error option"
  io_create_staging :: "cache_error option"
  io_source_volume :: "cache_error option"
  io_validate_content :: "cache_metadata \<Rightarrow> cache_error option"
  io_shared_lock :: "cache_error option"
  io_runtime_lease :: "cache_error option"
  io_validate_tree :: "cache_error option"
  io_remove_bundle :: "cache_error option"
  io_remove_tombstone :: "cache_error option"

definition empty_entry :: "environment \<Rightarrow> entry_dir" where
  "empty_entry env = \<lparr> ed_tombstone = NoTombstone, ed_slot_0 = NoFile, ed_slot_1 = NoFile,
     ed_complete_receipt = Inl (en_missing_directory env),
     ed_corrupt_marker = None, ed_cleanup_receipt = Inr None, ed_bundle = False \<rparr>"

definition ensure_managed_entry_dir :: "environment \<Rightarrow> lifecycle_io \<Rightarrow> string \<Rightarrow> cache_store \<Rightarrow> cache_error + cache_store" where
  "ensure_managed_entry_dir env io digest s =
     (case io_entry_dir io of
        Some error \<Rightarrow> Inl error
      | None \<Rightarrow>
          (case cs_entries s digest of
             Some _ \<Rightarrow> Inr s
           | None \<Rightarrow> Inr (s\<lparr> cs_entries := (cs_entries s)(digest \<mapsto> empty_entry env) \<rparr>)))"

text \<open>An atomic write of one file of the entry: it replaces the file or leaves the entry alone.\<close>

definition write_file ::
  "environment \<Rightarrow> lifecycle_io \<Rightarrow> managed_file \<Rightarrow> string \<Rightarrow> (entry_dir \<Rightarrow> entry_dir) \<Rightarrow> cache_store
    \<Rightarrow> cache_error + cache_store" where
  "write_file env io file digest f s =
     (case cs_entries s digest of
        None \<Rightarrow> Inl (en_missing_directory env)
      | Some e \<Rightarrow>
          (case io_write io file of
             Some error \<Rightarrow> Inl error
           | None \<Rightarrow> Inr (s\<lparr> cs_entries := (cs_entries s)(digest \<mapsto> f e) \<rparr>)))"

definition store_metadata ::
  "environment \<Rightarrow> lifecycle_io \<Rightarrow> string \<Rightarrow> cache_metadata \<Rightarrow> cache_store \<Rightarrow> cache_error + cache_store" where
  "store_metadata env io digest m s =
     (case cs_entries s digest of
        None \<Rightarrow> Inl (en_missing_directory env)
      | Some e \<Rightarrow>
          (case write_metadata_unlocked (en_shape env) m e of
             Inl error \<Rightarrow> Inl error
           | Inr e' \<Rightarrow> write_file env io JournalSlot digest (\<lambda>_. e') s))"

definition write_corrupt_marker ::
  "environment \<Rightarrow> lifecycle_io \<Rightarrow> string \<Rightarrow> cache_store \<Rightarrow> cache_error + cache_store" where
  "write_corrupt_marker env io digest =
     write_file env io CorruptMarker digest (\<lambda>e. e\<lparr> ed_corrupt_marker := Some (io_now io) \<rparr>)"

definition write_complete_receipt ::
  "environment \<Rightarrow> lifecycle_io \<Rightarrow> string \<Rightarrow> cache_metadata \<Rightarrow> cache_store \<Rightarrow> cache_error + cache_store" where
  "write_complete_receipt env io digest m =
     write_file env io CompleteReceipt digest (\<lambda>e. e\<lparr> ed_complete_receipt := Inr m \<rparr>)"

text \<open>Content receipts only save a later re-hash; the model keeps the error of removing one.\<close>

definition remove_content_receipt :: "lifecycle_io \<Rightarrow> cache_error option" where
  "remove_content_receipt io = io_write io ContentReceipt"

definition write_session_record ::
  "environment \<Rightarrow> lifecycle_io \<Rightarrow> session_record \<Rightarrow> cache_store \<Rightarrow> cache_error + cache_store" where
  "write_session_record env io r s =
     (case io_write io SessionFile of
        Some error \<Rightarrow> Inl error
      | None \<Rightarrow> Inr (s\<lparr> cs_sessions := (cs_sessions s)((en_session_id env, sr_operation_id r) \<mapsto> r) \<rparr>))"

definition remove_session_record :: "string \<Rightarrow> string \<Rightarrow> cache_store \<Rightarrow> cache_store" where
  "remove_session_record session operation s =
     s\<lparr> cs_sessions := (cs_sessions s)((session, operation) := None) \<rparr>"

definition locked_metadata :: "environment \<Rightarrow> string \<Rightarrow> cache_store \<Rightarrow> cache_error + cache_metadata" where
  "locked_metadata env digest s =
     (case journal_at env digest s of
        Inl error \<Rightarrow> Inl error
      | Inr (JValid m _) \<Rightarrow> Inr m
      | Inr (JEvicted _) \<Rightarrow> Inl (request_error ''cache entry has a pending eviction tombstone'')
      | Inr JMissing \<Rightarrow> Inl (request_error ''cache metadata is missing''))"

definition interrupt :: "cache_metadata \<Rightarrow> cache_metadata" where
  "interrupt m = m\<lparr> cm_state := Interrupted, cm_recovery_status := InterruptedReservation,
     cm_reservation_id := None, cm_reservation_owner := None, cm_session_id := None \<rparr>"

section \<open>Listing\<close>

record entry_summary =
  su_cache_key :: string
  su_state :: entry_state
  su_metadata :: "cache_metadata option"

definition corrupt_summary :: "string \<Rightarrow> entry_summary" where
  "corrupt_summary digest = \<lparr> su_cache_key = ''sha256:'' @ digest, su_state = Corrupt, su_metadata = None \<rparr>"

definition summarize :: "environment \<Rightarrow> string \<Rightarrow> cache_error + journal_read \<Rightarrow> entry_summary" where
  "summarize env digest journal =
     (case journal of
        Inr (JValid m _) \<Rightarrow>
          if cm_state m = Complete \<and> en_validate_complete_metadata env m \<noteq> None then corrupt_summary digest
          else \<lparr> su_cache_key = cm_cache_key m, su_state = cm_state m, su_metadata = Some m \<rparr>
      | Inr (JEvicted _) \<Rightarrow> \<lparr> su_cache_key = ''sha256:'' @ digest, su_state = Evicting, su_metadata = None \<rparr>
      | _ \<Rightarrow> corrupt_summary digest)"

fun list_items ::
  "environment \<Rightarrow> cache_store \<Rightarrow> (cache_error + string option \<times> (cache_error + bool)) list
    \<Rightarrow> cache_error + entry_summary list" where
  "list_items env s [] = Inr []"
| "list_items env s (Inl error # items) = Inl error"
| "list_items env s (Inr (name, is_dir) # items) =
     (case name of
        None \<Rightarrow> list_items env s items
      | Some digest \<Rightarrow>
          if \<not> is_lower_hex_64 digest then list_items env s items
          else case is_dir of
                 Inl error \<Rightarrow> Inl error
               | Inr False \<Rightarrow> list_items env s items
               | Inr True \<Rightarrow>
                 (case en_metadata_lock env BeforeHash digest of
                    Some error \<Rightarrow> Inl error
                  | None \<Rightarrow>
                    (case list_items env s items of
                       Inl error \<Rightarrow> Inl error
                     | Inr entries \<Rightarrow> Inr (summarize env digest (journal_at env digest s) # entries))))"

definition list_entries :: "environment \<Rightarrow> cache_store \<Rightarrow> cache_error + entry_summary list" where
  "list_entries env s =
     (case en_read_dir env of
        Inl error \<Rightarrow> Inl error
      | Inr items \<Rightarrow>
          (case list_items env s items of
             Inl error \<Rightarrow> Inl error
           | Inr entries \<Rightarrow> Inr (order_by (\<lambda>a b. text_less (su_cache_key a) (su_cache_key b)) entries)))"

definition checked_verified_bytes :: "environment \<Rightarrow> cache_store \<Rightarrow> cache_error + nat" where
  "checked_verified_bytes env s =
     (case list_entries env s of
        Inl error \<Rightarrow> Inl error
      | Inr entries \<Rightarrow>
          let bytes = sum_list (map cm_verified_bytes (List.map_filter su_metadata entries))
          in if bytes < 2 ^ 64 then Inr bytes
             else Inl (internal_error ''resolved-cache verified byte total overflow''))"

section \<open>Reservation\<close>

record reservation =
  rv_cache_key :: string
  rv_digest :: string
  rv_reservation_id :: string
  rv_reservation_owner :: string
  rv_session_id :: string

datatype reservation_outcome =
  ReservationAcquired reservation | AlreadyComplete cache_metadata | ReservationContended

definition reserved_metadata ::
  "environment \<Rightarrow> lifecycle_io \<Rightarrow> string \<Rightarrow> production \<Rightarrow> string option \<Rightarrow> model_artifact \<Rightarrow> string \<Rightarrow> string
    \<Rightarrow> cache_metadata" where
  "reserved_metadata env io cache_key mode derived_from artifact owner reservation_id =
     \<lparr> cm_cache_key = cache_key, cm_production = mode, cm_derived_from = derived_from, cm_artifact = artifact,
       cm_state = Materializing, cm_verified_bytes = 0, cm_created_at = io_now io, cm_updated_at = io_now io,
       cm_last_used_at = None, cm_artifact_pinned = False, cm_model_pin_owners = {}, cm_effective_pin = False,
       cm_reservation_id = Some reservation_id, cm_reservation_owner = Some owner,
       cm_session_id = Some (en_session_id env), cm_recovery_status = Clean \<rparr>"

definition inherit_pins :: "cache_error + cache_metadata \<Rightarrow> cache_metadata \<Rightarrow> cache_metadata" where
  "inherit_pins existing m =
     (case existing of
        Inl _ \<Rightarrow> m
      | Inr old \<Rightarrow> refresh_effective_pin (m\<lparr> cm_created_at := cm_created_at old,
                     cm_artifact_pinned := cm_artifact_pinned old, cm_model_pin_owners := cm_model_pin_owners old \<rparr>))"

text \<open>From a free entry to a reserved one: staging, the document, the session record.\<close>

definition reserve_fresh ::
  "environment \<Rightarrow> lifecycle_io \<Rightarrow> string \<Rightarrow> string \<Rightarrow> string \<Rightarrow> production \<Rightarrow> string option \<Rightarrow> model_artifact \<Rightarrow> cache_store
    \<Rightarrow> (cache_error + reservation_outcome) \<times> cache_store" where
  "reserve_fresh env io cache_key digest owner mode derived_from artifact s =
     (case io_random_id io of
        Inl error \<Rightarrow> (Inl error, s)
      | Inr reservation_id \<Rightarrow>
        (case io_create_staging io of
           Some error \<Rightarrow> (Inl error, s)
         | None \<Rightarrow>
           (case io_source_volume io of
              Some error \<Rightarrow> (Inl error, s)
            | None \<Rightarrow>
              (case remove_content_receipt io of
                 Some error \<Rightarrow> (Inl error, s)
               | None \<Rightarrow>
                 let m = inherit_pins (locked_metadata env digest s)
                           (reserved_metadata env io cache_key mode derived_from artifact owner reservation_id)
                 in case store_metadata env io digest m s of
                      Inl error \<Rightarrow> (Inl error, s)
                    | Inr s2 \<Rightarrow>
                      (case write_session_record env io
                              \<lparr> sr_cache_key = cache_key, sr_operation_id = reservation_id, sr_model_owner = owner,
                                sr_kind = Reservation, sr_acquired_at = io_now io \<rparr> s2 of
                         Inl error \<Rightarrow> (Inl error, s2)
                       | Inr s3 \<Rightarrow>
                           (Inr (ReservationAcquired
                              \<lparr> rv_cache_key = cache_key, rv_digest = digest, rv_reservation_id = reservation_id,
                                rv_reservation_owner = owner, rv_session_id = en_session_id env \<rparr>), s3))))))"

definition reserve_existing ::
  "environment \<Rightarrow> lifecycle_io \<Rightarrow> string \<Rightarrow> cache_metadata \<Rightarrow> cache_store
    \<Rightarrow> (cache_error + reservation_outcome option) \<times> cache_store" where
  "reserve_existing env io digest m s =
     (case cm_state m of
        Complete \<Rightarrow>
          (case en_validate_complete_metadata env m of
             Some error \<Rightarrow> (Inl error, s)
           | None \<Rightarrow> (Inr (Some (AlreadyComplete m)), s))
      | Materializing \<Rightarrow>
          (case cm_session_id m of
             None \<Rightarrow> (Inl (internal_error ''materializing cache entry has no owning session''), s)
           | Some session \<Rightarrow>
             (case session_lock_is_acquirable env session of
                Inl error \<Rightarrow> (Inl error, s)
              | Inr False \<Rightarrow> (Inr (Some ReservationContended), s)
              | Inr True \<Rightarrow>
                  (case store_metadata env io digest ((interrupt m)\<lparr> cm_updated_at := io_now io \<rparr>) s of
                     Inl error \<Rightarrow> (Inl error, s)
                   | Inr s \<Rightarrow> (Inr None, s))))
      | _ \<Rightarrow> (Inr None, s))"

definition reserve_inner ::
  "environment \<Rightarrow> lifecycle_io \<Rightarrow> string \<Rightarrow> string \<Rightarrow> string \<Rightarrow> production \<Rightarrow> string option \<Rightarrow> model_artifact \<Rightarrow> cache_store
    \<Rightarrow> (cache_error + reservation_outcome) \<times> cache_store" where
  "reserve_inner env io cache_key source_configured_path logical_model_owner mode derived_from artifact s =
     (case validate_model_owner logical_model_owner of
        Inl error \<Rightarrow> (Inl error, s)
      | Inr owner \<Rightarrow>
        (case io_source_root io source_configured_path of
           Some error \<Rightarrow> (Inl error, s)
         | None \<Rightarrow>
           (case cache_key_digest cache_key of
              Inl error \<Rightarrow> (Inl error, s)
            | Inr digest \<Rightarrow>
              (case en_artifact_lock env digest of
                 Contended \<Rightarrow> (Inr ReservationContended, s)
               | LockFailed error \<Rightarrow> (Inl error, s)
               | Acquired \<Rightarrow>
                 (case ensure_managed_entry_dir env io digest s of
                    Inl error \<Rightarrow> (Inl error, s)
                  | Inr s1 \<Rightarrow>
                    (case en_metadata_lock env UnderLock digest of
                       Some error \<Rightarrow> (Inl error, s1)
                     | None \<Rightarrow>
                       (case journal_at env digest s1 of
                          Inl error \<Rightarrow> (Inl error, s1)
                        | Inr JMissing \<Rightarrow> reserve_fresh env io cache_key digest owner mode derived_from artifact s1
                        | Inr (JEvicted _) \<Rightarrow>
                            (case finish_pending_eviction env digest s1 of
                               (Inl error, s2) \<Rightarrow> (Inl error, s2)
                             | (Inr _, s2) \<Rightarrow>
                               (case ensure_managed_entry_dir env io digest s2 of
                                  Inl error \<Rightarrow> (Inl error, s2)
                                | Inr s3 \<Rightarrow> reserve_fresh env io cache_key digest owner mode derived_from artifact s3))
                        | Inr (JValid m _) \<Rightarrow>
                            (case reserve_existing env io digest m s1 of
                               (Inl error, s2) \<Rightarrow> (Inl error, s2)
                             | (Inr (Some outcome), s2) \<Rightarrow> (Inr outcome, s2)
                             | (Inr None, s2) \<Rightarrow> reserve_fresh env io cache_key digest owner mode derived_from artifact s2))))))))"

definition verify_ownership :: "reservation \<Rightarrow> cache_metadata \<Rightarrow> cache_error + unit" where
  "verify_ownership r m =
     (if cm_state m \<noteq> Materializing \<or> cm_reservation_id m \<noteq> Some (rv_reservation_id r)
        \<or> cm_reservation_owner m \<noteq> Some (rv_reservation_owner r) \<or> cm_session_id m \<noteq> Some (rv_session_id r)
      then Inl (internal_error ''materialization reservation ownership changed'')
      else Inr ())"

definition mark_interrupted ::
  "environment \<Rightarrow> lifecycle_io \<Rightarrow> reservation \<Rightarrow> cache_store \<Rightarrow> (cache_error + cache_metadata) \<times> cache_store" where
  "mark_interrupted env io r s =
     (case en_metadata_lock env UnderLock (rv_digest r) of
        Some error \<Rightarrow> (Inl error, s)
      | None \<Rightarrow>
        (case locked_metadata env (rv_digest r) s of
           Inl error \<Rightarrow> (Inl error, s)
         | Inr m \<Rightarrow>
           (case verify_ownership r m of
              Inl error \<Rightarrow> (Inl error, s)
            | Inr _ \<Rightarrow>
                let m' = (interrupt m)\<lparr> cm_updated_at := io_now io \<rparr>
                in case store_metadata env io (rv_digest r) m' s of
                     Inl error \<Rightarrow> (Inl error, s)
                   | Inr s' \<Rightarrow> (Inr m', remove_session_record (rv_session_id r) (rv_reservation_id r) s'))))"

definition mark_interrupted_on_drop ::
  "environment \<Rightarrow> lifecycle_io \<Rightarrow> reservation \<Rightarrow> cache_store \<Rightarrow> cache_error + cache_store" where
  "mark_interrupted_on_drop env io r s =
     (case en_metadata_lock env UnderLock (rv_digest r) of
        Some error \<Rightarrow> Inl error
      | None \<Rightarrow>
        (case locked_metadata env (rv_digest r) s of
           Inl error \<Rightarrow> Inl error
         | Inr m \<Rightarrow>
           (case verify_ownership r m of
              Inl _ \<Rightarrow> Inr s
            | Inr _ \<Rightarrow> store_metadata env io (rv_digest r) ((interrupt m)\<lparr> cm_updated_at := io_now io \<rparr>) s)))"

definition drop_reservation :: "environment \<Rightarrow> lifecycle_io \<Rightarrow> reservation \<Rightarrow> cache_store \<Rightarrow> cache_store" where
  "drop_reservation env io r s =
     remove_session_record (rv_session_id r) (rv_reservation_id r)
       (case mark_interrupted_on_drop env io r s of Inr s' \<Rightarrow> s' | Inl _ \<Rightarrow> s)"

text \<open>
  \<open>record_complete\<close>: the validation of the artifact, which reads its files, is an argument
  with the verified bytes or its error. A failure drops the reservation.
\<close>

definition record_complete ::
  "environment \<Rightarrow> lifecycle_io \<Rightarrow> cache_error + nat \<Rightarrow> reservation \<Rightarrow> model_artifact \<Rightarrow> cache_store
    \<Rightarrow> (cache_error + cache_metadata) \<times> cache_store" where
  "record_complete env io validation r artifact s =
     (let digest = rv_digest r; failed = (\<lambda>error s. (Inl error, drop_reservation env io r s))
      in case validation of
           Inl error \<Rightarrow> failed error s
         | Inr verified_bytes \<Rightarrow>
           (case en_metadata_lock env UnderLock digest of
              Some error \<Rightarrow> failed error s
            | None \<Rightarrow>
              (case locked_metadata env digest s of
                 Inl error \<Rightarrow> failed error s
               | Inr m \<Rightarrow>
                 (case verify_ownership r m of
                    Inl error \<Rightarrow> failed error s
                  | Inr _ \<Rightarrow>
                      let m' = m\<lparr> cm_artifact := artifact, cm_state := Complete, cm_verified_bytes := verified_bytes,
                                  cm_updated_at := io_now io, cm_reservation_id := None, cm_reservation_owner := None,
                                  cm_session_id := None, cm_recovery_status := Clean \<rparr>
                      in case write_complete_receipt env io digest m' s of
                           Inl error \<Rightarrow> failed error s
                         | Inr s1 \<Rightarrow>
                           (case remove_content_receipt io of
                              Some error \<Rightarrow> failed error s1
                            | None \<Rightarrow>
                              (case store_metadata env io digest m' s1 of
                                 Inl error \<Rightarrow> failed error s1
                               | Inr s2 \<Rightarrow>
                                   (Inr m', remove_session_record (rv_session_id r) (rv_reservation_id r) s2)))))))"

section \<open>Acquisition\<close>

text \<open>The result names the session record of the lease.\<close>

definition acquire_complete ::
  "environment \<Rightarrow> lifecycle_io \<Rightarrow> string \<Rightarrow> string \<Rightarrow> cache_store \<Rightarrow> (cache_error + string option) \<times> cache_store" where
  "acquire_complete env io cache_key logical_model_owner s =
     (case validate_model_owner logical_model_owner of
        Inl error \<Rightarrow> (Inl error, s)
      | Inr owner \<Rightarrow>
        (case cache_key_digest cache_key of
           Inl error \<Rightarrow> (Inl error, s)
         | Inr digest \<Rightarrow>
           (case io_shared_lock io of
              Some error \<Rightarrow> (Inl error, s)
            | None \<Rightarrow>
              (case en_metadata_lock env UnderLock digest of
                 Some error \<Rightarrow> (Inl error, s)
               | None \<Rightarrow>
                 (case journal_at env digest s of
                    Inl error \<Rightarrow> (Inl error, s)
                  | Inr (JValid m _) \<Rightarrow>
                    if cm_state m \<noteq> Complete then (Inr None, s)
                    else
                    (case io_validate_content io m of
                       Some error \<Rightarrow> (Inl error, s)
                     | None \<Rightarrow>
                       (case io_runtime_lease io of
                          Some error \<Rightarrow> (Inl error, s)
                        | None \<Rightarrow>
                          (case io_random_id io of
                             Inl error \<Rightarrow> (Inl error, s)
                           | Inr lease_id \<Rightarrow>
                             (case write_session_record env io
                                     \<lparr> sr_cache_key = cache_key, sr_operation_id = lease_id, sr_model_owner = owner,
                                       sr_kind = RuntimeLease, sr_acquired_at = io_now io \<rparr> s of
                                Inl error \<Rightarrow> (Inl error, s)
                              | Inr s1 \<Rightarrow>
                                (case store_metadata env io digest
                                        (m\<lparr> cm_last_used_at := Some (io_now io), cm_updated_at := io_now io \<rparr>) s1 of
                                   Inl error \<Rightarrow> (Inl error, s1)
                                 | Inr s2 \<Rightarrow> (Inr (Some lease_id), s2))))))
                  | Inr _ \<Rightarrow> (Inr None, s))))))"

section \<open>Recovery\<close>

definition canceled_cleanup_receipt :: "environment \<Rightarrow> string \<Rightarrow> string \<Rightarrow> cache_store \<Rightarrow> cache_error + cleanup_receipt option" where
  "canceled_cleanup_receipt env cache_key digest s =
     (case cs_entries s digest of
        None \<Rightarrow> Inr None
      | Some e \<Rightarrow>
          (case ed_cleanup_receipt e of
             Inl error \<Rightarrow> Inl error
           | Inr None \<Rightarrow> Inr None
           | Inr (Some receipt) \<Rightarrow>
               if cr_schema_version receipt \<noteq> 1 \<or> cr_cache_key receipt \<noteq> cache_key
                 \<or> \<not> is_valid_session_id (cr_session_id receipt) \<or> \<not> is_valid_session_id (cr_reservation_id receipt)
               then Inl (internal_error ''invalid canceled-cleanup receipt identity'')
               else Inr (Some receipt)))"

definition pin_recovered :: "recovery_status \<Rightarrow> cache_metadata \<Rightarrow> cache_metadata" where
  "pin_recovered status m = refresh_effective_pin (m\<lparr> cm_recovery_status := status, cm_artifact_pinned := True \<rparr>)"

text \<open>The receipt of a canceled publication that recovery may settle for this document.\<close>

definition settles_cleanup :: "environment \<Rightarrow> bool \<Rightarrow> cache_metadata \<Rightarrow> cleanup_receipt \<Rightarrow> bool" where
  "settles_cleanup env stale m receipt \<longleftrightarrow>
     cm_state m = Materializing \<and> cm_reservation_id m = Some (cr_reservation_id receipt)
     \<and> cm_session_id m = Some (cr_session_id receipt)
     \<and> (cr_state receipt = NeedsRetry \<and> cr_session_id receipt = en_session_id env \<or> stale)"

definition CLEANED :: string where
  "CLEANED = ''Recovery verified the canceled reservation, cleaned its unpublished bundle and recorded interruption; no source reads or publication.''"

definition clear_bundle ::
  "lifecycle_io \<Rightarrow> string \<Rightarrow> cleanup_receipt \<Rightarrow> cache_store \<Rightarrow> cache_error + cache_store" where
  "clear_bundle io digest receipt s =
     (if cr_cleanup_unpublished receipt \<and> map_option ed_bundle (cs_entries s digest) = Some True
      then (case io_validate_tree io of
              Some error \<Rightarrow> Inl error
            | None \<Rightarrow>
                (case io_remove_bundle io of
                   Some error \<Rightarrow> Inl error
                 | None \<Rightarrow> Inr (s\<lparr> cs_entries := (cs_entries s)(digest :=
                                     map_option (\<lambda>e. e\<lparr> ed_bundle := False \<rparr>) (cs_entries s digest)) \<rparr>)))
      else Inr s)"

definition settle_cleanup ::
  "environment \<Rightarrow> lifecycle_io \<Rightarrow> string \<Rightarrow> cache_metadata \<Rightarrow> cleanup_receipt \<Rightarrow> cache_store
    \<Rightarrow> (cache_error + unit) \<times> cache_store" where
  "settle_cleanup env io digest m receipt s =
     (case clear_bundle io digest receipt s of
        Inl error \<Rightarrow> (Inl error, s)
      | Inr s1 \<Rightarrow>
        (case store_metadata env io digest ((interrupt m)\<lparr> cm_updated_at := io_now io \<rparr>) s1 of
           Inl error \<Rightarrow> (Inl error, s1)
         | Inr s2 \<Rightarrow>
           (case write_file env io CleanupReceipt digest
                   (\<lambda>e. e\<lparr> ed_cleanup_receipt := Inr (Some (receipt\<lparr> cr_state := Cleaned,
                      cr_process_exit_before_cleanup_possible := False, cr_detail := CLEANED \<rparr>)) \<rparr>) s2 of
              Inl error \<Rightarrow> (Inl error, s2)
            | Inr s3 \<Rightarrow>
                (Inr (), remove_session_record (cr_session_id receipt) (cr_reservation_id receipt) s3))))"

text \<open>
  The document after the check of the older slot, and whether it has to be written: a complete
  entry is pinned only when its content verifies.
\<close>

definition heal_older_slot ::
  "environment \<Rightarrow> lifecycle_io \<Rightarrow> string \<Rightarrow> bool \<Rightarrow> cache_metadata \<Rightarrow> cache_store
    \<Rightarrow> cache_error + (cache_metadata \<times> bool) \<times> cache_store" where
  "heal_older_slot env io digest had_invalid_slot m s =
     (if \<not> had_invalid_slot then Inr ((m, False), s)
      else if cm_state m = Complete \<and> io_validate_content io m \<noteq> None
      then (case write_corrupt_marker env io digest s of Inl error \<Rightarrow> Inl error | Inr s' \<Rightarrow> Inr ((m, False), s'))
      else Inr ((pin_recovered RecoveredFromOlderSlot m, True), s))"

definition session_is_stale :: "environment \<Rightarrow> cache_metadata \<Rightarrow> cache_error + bool" where
  "session_is_stale env m =
     (if cm_state m = Materializing
      then (case cm_session_id m of Some session \<Rightarrow> session_lock_is_acquirable env session | None \<Rightarrow> Inr False)
      else Inr False)"

definition recover_valid ::
  "environment \<Rightarrow> lifecycle_io \<Rightarrow> entry_summary \<Rightarrow> string \<Rightarrow> cleanup_receipt option \<Rightarrow> cache_metadata \<Rightarrow> bool
    \<Rightarrow> cache_store \<Rightarrow> (cache_error + unit) \<times> cache_store" where
  "recover_valid env io summary digest cleanup m had_invalid_slot s =
     (if su_state summary = Corrupt \<and> cm_state m = Complete \<and> en_validate_complete_metadata env m \<noteq> None
      then (case write_corrupt_marker env io digest s of Inl error \<Rightarrow> (Inl error, s) | Inr s' \<Rightarrow> (Inr (), s'))
      else
        (case heal_older_slot env io digest had_invalid_slot m s of
           Inl error \<Rightarrow> (Inl error, s)
         | Inr ((m1, changed), s1) \<Rightarrow>
           (case session_is_stale env m1 of
              Inl error \<Rightarrow> (Inl error, s1)
            | Inr stale \<Rightarrow>
              (case (case cleanup of Some receipt \<Rightarrow> if settles_cleanup env stale m1 receipt then Some receipt else None
                                   | None \<Rightarrow> None) of
                 Some receipt \<Rightarrow> settle_cleanup env io digest m1 receipt s1
               | None \<Rightarrow>
                   let m2 = (if stale then interrupt m1 else m1)
                   in if changed \<or> stale
                      then (case store_metadata env io digest (m2\<lparr> cm_updated_at := io_now io \<rparr>) s1 of
                              Inl error \<Rightarrow> (Inl error, s1)
                            | Inr s2 \<Rightarrow> (Inr (), s2))
                      else (Inr (), s1)))))"

definition recover_unreadable ::
  "environment \<Rightarrow> lifecycle_io \<Rightarrow> string \<Rightarrow> cache_store \<Rightarrow> (cache_error + unit) \<times> cache_store" where
  "recover_unreadable env io digest s =
     (case (case cs_entries s digest of
              None \<Rightarrow> None
            | Some e \<Rightarrow>
                (case ed_complete_receipt e of
                   Inl _ \<Rightarrow> None
                 | Inr m \<Rightarrow> if io_validate_content io m = None then Some m else None)) of
        Some m \<Rightarrow>
          if map_option ed_tombstone (cs_entries s digest) \<noteq> Some NoTombstone \<and> io_remove_tombstone io \<noteq> None
          then (Inl (the (io_remove_tombstone io)), s)
          else let s1 = s\<lparr> cs_entries := (cs_entries s)(digest :=
                     map_option (\<lambda>e. e\<lparr> ed_tombstone := NoTombstone \<rparr>) (cs_entries s digest)) \<rparr>
          in (case store_metadata env io digest
                     ((pin_recovered ReconstructedFromCompleteReceipt m)\<lparr> cm_updated_at := io_now io \<rparr>) s1 of
                Inl error \<Rightarrow> (Inl error, s1)
              | Inr s2 \<Rightarrow> (Inr (), s2))
      | None \<Rightarrow>
          (case write_corrupt_marker env io digest s of Inl error \<Rightarrow> (Inl error, s) | Inr s' \<Rightarrow> (Inr (), s')))"

definition recover_entry ::
  "environment \<Rightarrow> lifecycle_io \<Rightarrow> entry_summary \<Rightarrow> cache_store \<Rightarrow> (cache_error + unit) \<times> cache_store" where
  "recover_entry env io summary s =
     (case cache_key_digest (su_cache_key summary) of
        Inl error \<Rightarrow> (Inl error, s)
      | Inr digest \<Rightarrow>
        (case canceled_cleanup_receipt env (su_cache_key summary) digest s of
           Inl error \<Rightarrow> (Inl error, s)
         | Inr cleanup \<Rightarrow>
           (case en_artifact_lock env digest of
              Contended \<Rightarrow> (Inr (), s)
            | LockFailed error \<Rightarrow> (Inl error, s)
            | Acquired \<Rightarrow>
              (case en_metadata_lock env UnderLock digest of
                 Some error \<Rightarrow> (Inl error, s)
               | None \<Rightarrow>
                 (case journal_at env digest s of
                    Inr (JValid m had_invalid_slot) \<Rightarrow> recover_valid env io summary digest cleanup m had_invalid_slot s
                  | Inr (JEvicted _) \<Rightarrow>
                      (case finish_pending_eviction env digest s of
                         (Inl error, s') \<Rightarrow> (Inl error, s')
                       | (Inr _, s') \<Rightarrow> (Inr (), s'))
                  | Inr JMissing \<Rightarrow>
                      if cs_entries s digest = None then (Inr (), s)
                      else (case write_corrupt_marker env io digest s of
                              Inl error \<Rightarrow> (Inl error, s)
                            | Inr s' \<Rightarrow> (Inr (), s'))
                  | Inl _ \<Rightarrow> recover_unreadable env io digest s)))))"

fun recover_entries ::
  "environment \<Rightarrow> lifecycle_io \<Rightarrow> entry_summary list \<Rightarrow> cache_store \<Rightarrow> (cache_error + unit) \<times> cache_store" where
  "recover_entries env io [] s = (Inr (), s)"
| "recover_entries env io (summary # summaries) s =
     (case recover_entry env io summary s of
        (Inl error, s) \<Rightarrow> (Inl error, s)
      | (Inr _, s) \<Rightarrow> recover_entries env io summaries s)"

section \<open>A reservation takes the entry\<close>

definition entry_ok :: "environment \<Rightarrow> string \<Rightarrow> cache_store \<Rightarrow> bool" where
  "entry_ok env digest s \<longleftrightarrow> (\<exists>e. cs_entries s digest = Some e \<and> journal_ok (en_shape env) e)"

text \<open>Every entry, tombstoned or not, has its envelopes in the slots of their generations.\<close>

definition store_ok :: "environment \<Rightarrow> cache_store \<Rightarrow> bool" where
  "store_ok env s \<longleftrightarrow>
     (\<forall>d e. cs_entries s d = Some e \<longrightarrow> journal_ok (en_shape env) (e\<lparr> ed_tombstone := NoTombstone \<rparr>))"

lemma store_metadata_reads:
  assumes "entry_ok env digest s" and "store_metadata env io digest m s = Inr s'"
  shows "entry_ok env digest s' \<and> (\<exists>flag. journal_at env digest s' = Inr (JValid m flag))
    \<and> (\<forall>d. d \<noteq> digest \<longrightarrow> cs_entries s' d = cs_entries s d) \<and> cs_sessions s' = cs_sessions s"
proof -
  obtain e where e: "cs_entries s digest = Some e" "journal_ok (en_shape env) e"
    using assms(1) by (auto simp: entry_ok_def)
  then obtain e' where w: "write_metadata_unlocked (en_shape env) m e = Inr e'"
    and s': "s' = s\<lparr> cs_entries := (cs_entries s)(digest \<mapsto> e') \<rparr>"
    using assms(2) by (auto simp: store_metadata_def write_file_def split: option.splits sum.splits)
  from write_reads_back [OF e(2) w] show ?thesis by (auto simp: s' entry_ok_def journal_at_def)
qed

lemma valid_entry_ok:
  "store_ok env s \<Longrightarrow> journal_at env digest s = Inr (JValid m flag) \<Longrightarrow> entry_ok env digest s"
  by (auto simp: store_ok_def entry_ok_def journal_at_def read_metadata_unlocked_def journal_ok_def
      split: option.splits tombstone.splits)

lemma missing_entry_ok:
  "store_ok env s \<Longrightarrow> journal_at env digest s = Inr JMissing \<Longrightarrow> cs_entries s digest \<noteq> None \<Longrightarrow> entry_ok env digest s"
  by (auto simp: store_ok_def entry_ok_def journal_at_def read_metadata_unlocked_def journal_ok_def
      split: option.splits tombstone.splits)

lemma empty_entry_ok: "journal_ok shape (empty_entry env)"
  by (simp add: journal_ok_def empty_entry_def)

lemma write_session_record_entries:
  "write_session_record env io r s = Inr s' \<Longrightarrow> cs_entries s' = cs_entries s"
  by (auto simp: write_session_record_def split: option.splits)

lemma reserve_fresh_effect:
  assumes "entry_ok env digest s"
    and "reserve_fresh env io cache_key digest owner mode derived_from artifact s = (Inr outcome, s')"
  shows "\<exists>r m flag. outcome = ReservationAcquired r \<and> rv_digest r = digest
    \<and> journal_at env digest s' = Inr (JValid m flag) \<and> verify_ownership r m = Inr ()
    \<and> (\<exists>id. m = inherit_pins (locked_metadata env digest s)
             (reserved_metadata env io cache_key mode derived_from artifact owner id))
    \<and> (\<forall>d. d \<noteq> digest \<longrightarrow> cs_entries s' d = cs_entries s d)"
proof -
  obtain id s2 where stored: "store_metadata env io digest (inherit_pins (locked_metadata env digest s)
      (reserved_metadata env io cache_key mode derived_from artifact owner id)) s = Inr s2"
    and outcome: "outcome = ReservationAcquired \<lparr> rv_cache_key = cache_key, rv_digest = digest, rv_reservation_id = id,
      rv_reservation_owner = owner, rv_session_id = en_session_id env \<rparr>"
    and entries: "cs_entries s' = cs_entries s2"
    using assms(2)
    by (auto simp: reserve_fresh_def Let_def dest: write_session_record_entries split: sum.splits option.splits)
  let ?m = "inherit_pins (locked_metadata env digest s) (reserved_metadata env io cache_key mode derived_from artifact owner id)"
  note wrote = store_metadata_reads [OF assms(1) stored]
  have "verify_ownership \<lparr> rv_cache_key = cache_key, rv_digest = digest, rv_reservation_id = id,
      rv_reservation_owner = owner, rv_session_id = en_session_id env \<rparr> ?m = Inr ()"
    by (auto simp: verify_ownership_def inherit_pins_def reserved_metadata_def refresh_effective_pin_def split: sum.splits)
  with wrote outcome entries show ?thesis by (auto simp: journal_at_def)
qed

lemma ensure_entry:
  assumes "ensure_managed_entry_dir env io digest s = Inr s'" and "store_ok env s"
  shows "cs_entries s' digest \<noteq> None \<and> store_ok env s' \<and> (\<forall>d. d \<noteq> digest \<longrightarrow> cs_entries s' d = cs_entries s d)
    \<and> journal_at env digest s' = journal_at env digest s"
  using assms
  by (auto simp: ensure_managed_entry_dir_def store_ok_def empty_entry_ok journal_at_def
      read_metadata_unlocked_def empty_entry_def slot_valid_def slot_invalid_def slot_unsupported_def journal_ok_def
      split: option.splits if_splits)

lemma finish_store_ok:
  assumes "finish_pending_eviction env digest s = (Inr marker, s')" and "store_ok env s"
  shows "store_ok env s' \<and> cs_entries s' digest = None \<and> (\<forall>d. d \<noteq> digest \<longrightarrow> cs_entries s' d = cs_entries s d)"
  using assms by (auto simp: finish_pending_eviction_def store_ok_def Let_def split: sum.splits option.splits if_splits)

text \<open>What may stand in an entry that a reservation takes over, and what the reservation keeps of it.\<close>

definition taken_over :: "environment \<Rightarrow> cache_error + journal_read \<Rightarrow> cache_metadata \<Rightarrow> bool" where
  "taken_over env journal m \<longleftrightarrow>
     (case journal of
        Inl _ \<Rightarrow> False
      | Inr (JValid old _) \<Rightarrow> cm_state old \<noteq> Complete
          \<and> (cm_state old = Materializing \<longrightarrow> materializing_session_is_live env old = Inr False)
          \<and> cm_created_at m = cm_created_at old \<and> cm_artifact_pinned m = cm_artifact_pinned old
          \<and> cm_model_pin_owners m = cm_model_pin_owners old \<and> pins_ok m
      | _ \<Rightarrow> \<not> cm_artifact_pinned m \<and> cm_model_pin_owners m = {} \<and> pins_ok m)"

lemma inherit_pins_facts:
  "inherit_pins (Inr old) m = m' \<Longrightarrow> cm_created_at m' = cm_created_at old
    \<and> cm_artifact_pinned m' = cm_artifact_pinned old \<and> cm_model_pin_owners m' = cm_model_pin_owners old \<and> pins_ok m'"
  by (auto simp: inherit_pins_def refresh_effective_pin_def pins_ok_def)

lemma reserve_missing:
  assumes "store_ok env s" and "journal_at env digest s = Inr JMissing" and "cs_entries s digest \<noteq> None"
    and "reserve_fresh env io cache_key digest name mode derived_from artifact s = (Inr (ReservationAcquired r), s')"
  shows "rv_digest r = digest \<and> (\<forall>d. d \<noteq> digest \<longrightarrow> cs_entries s' d = cs_entries s d)
    \<and> (\<exists>m flag. journal_at env digest s' = Inr (JValid m flag) \<and> verify_ownership r m = Inr ()
        \<and> \<not> cm_artifact_pinned m \<and> cm_model_pin_owners m = {} \<and> pins_ok m)"
  using reserve_fresh_effect [OF missing_entry_ok [OF assms(1-3)] assms(4)] assms(2)
  by (auto simp: locked_metadata_def inherit_pins_def reserved_metadata_def pins_ok_def)

lemma reserve_existing_effect:
  assumes "entry_ok env digest s" and "journal_at env digest s = Inr (JValid m flag)"
    and "reserve_existing env io digest m s = (Inr None, s')"
  shows "entry_ok env digest s' \<and> (\<forall>d. d \<noteq> digest \<longrightarrow> cs_entries s' d = cs_entries s d) \<and> cm_state m \<noteq> Complete
    \<and> (cm_state m = Materializing \<longrightarrow> materializing_session_is_live env m = Inr False)
    \<and> (\<exists>m1. locked_metadata env digest s' = Inr m1 \<and> cm_created_at m1 = cm_created_at m
        \<and> cm_artifact_pinned m1 = cm_artifact_pinned m \<and> cm_model_pin_owners m1 = cm_model_pin_owners m)"
proof (cases "cm_state m = Materializing")
  case True
  let ?m = "(interrupt m)\<lparr> cm_updated_at := io_now io \<rparr>"
  from assms(3) True obtain session where "cm_session_id m = Some session" "session_lock_is_acquirable env session = Inr True"
    and w: "store_metadata env io digest ?m s = Inr s'"
    by (auto simp: reserve_existing_def split: option.splits sum.splits bool.splits)
  with store_metadata_reads [OF assms(1) w] True show ?thesis
    by (auto simp: materializing_session_is_live_def locked_metadata_def interrupt_def)
next
  case False
  with assms show ?thesis
    by (auto simp: reserve_existing_def locked_metadata_def split: entry_state.splits option.splits)
qed

text \<open>
  C33. A reservation takes the entry: it is granted only under the entry's lock and only over
  an entry that is missing, tombstoned, or readable with a state other than complete whose
  materializing session, if any, is gone. Afterwards the journal reads a materializing
  document that the reservation owns, with the pins and the creation time that were there,
  and no other entry has changed.
\<close>

theorem reservation_takes_entry:
  assumes "reserve_inner env io cache_key source owner mode derived_from artifact s = (Inr (ReservationAcquired r), s')"
    and "store_ok env s"
  shows "cache_key_digest cache_key = Inr (rv_digest r) \<and> en_artifact_lock env (rv_digest r) = Acquired
    \<and> (\<exists>m flag. journal_at env (rv_digest r) s' = Inr (JValid m flag) \<and> verify_ownership r m = Inr ()
        \<and> taken_over env (journal_at env (rv_digest r) s) m)
    \<and> (\<forall>d. d \<noteq> rv_digest r \<longrightarrow> cs_entries s' d = cs_entries s d)"
proof -
  obtain digest name s1 where digest: "cache_key_digest cache_key = Inr digest" "en_artifact_lock env digest = Acquired"
    and dir: "ensure_managed_entry_dir env io digest s = Inr s1"
    and run: "(case journal_at env digest s1 of
        Inl error \<Rightarrow> (Inl error, s1)
      | Inr JMissing \<Rightarrow> reserve_fresh env io cache_key digest name mode derived_from artifact s1
      | Inr (JEvicted _) \<Rightarrow>
          (case finish_pending_eviction env digest s1 of
             (Inl error, s2) \<Rightarrow> (Inl error, s2)
           | (Inr _, s2) \<Rightarrow>
             (case ensure_managed_entry_dir env io digest s2 of
                Inl error \<Rightarrow> (Inl error, s2)
              | Inr s3 \<Rightarrow> reserve_fresh env io cache_key digest name mode derived_from artifact s3))
      | Inr (JValid m _) \<Rightarrow>
          (case reserve_existing env io digest m s1 of
             (Inl error, s2) \<Rightarrow> (Inl error, s2)
           | (Inr (Some outcome), s2) \<Rightarrow> (Inr outcome, s2)
           | (Inr None, s2) \<Rightarrow> reserve_fresh env io cache_key digest name mode derived_from artifact s2))
      = (Inr (ReservationAcquired r), s')"
    using assms(1) unfolding reserve_inner_def
    by (auto split: sum.splits(2) option.splits(2) lock_result.splits(2))
  note dir = ensure_entry [OF dir assms(2)]
  show ?thesis
  proof (cases "journal_at env digest s1")
    case (Inl error)
    with run show ?thesis by simp
  next
    case (Inr j)
    show ?thesis
    proof (cases j)
      case JMissing
      then have j: "journal_at env digest s1 = Inr JMissing" using Inr by simp
      from run j have "reserve_fresh env io cache_key digest name mode derived_from artifact s1 = (Inr (ReservationAcquired r), s')"
        by simp
      from reserve_missing [OF _ j _ this] dir have got: "rv_digest r = digest" "\<forall>d. d \<noteq> digest \<longrightarrow> cs_entries s' d = cs_entries s1 d"
        "\<exists>m flag. journal_at env digest s' = Inr (JValid m flag) \<and> verify_ownership r m = Inr ()
          \<and> \<not> cm_artifact_pinned m \<and> cm_model_pin_owners m = {} \<and> pins_ok m"
        by auto
      moreover have "journal_at env digest s = Inr JMissing" using dir j by simp
      ultimately show ?thesis using digest dir by (simp add: taken_over_def)
    next
      case (JEvicted marker)
      then have j: "journal_at env digest s1 = Inr (JEvicted marker)" using Inr by simp
      with run obtain s2 s3 marker' where fin: "finish_pending_eviction env digest s1 = (Inr marker', s2)"
        and dir3: "ensure_managed_entry_dir env io digest s2 = Inr s3"
        and fresh: "reserve_fresh env io cache_key digest name mode derived_from artifact s3 = (Inr (ReservationAcquired r), s')"
        by (auto split: prod.splits sum.splits)
      have s2: "store_ok env s2" "cs_entries s2 digest = None" "\<forall>d. d \<noteq> digest \<longrightarrow> cs_entries s2 d = cs_entries s1 d"
        using finish_store_ok [OF fin] dir by auto
      note s3 = ensure_entry [OF dir3 s2(1)]
      have "journal_at env digest s3 = Inr JMissing" using s3 s2(2) by (simp add: journal_at_def)
      from reserve_missing [OF _ this _ fresh] s3 have got: "rv_digest r = digest" "\<forall>d. d \<noteq> digest \<longrightarrow> cs_entries s' d = cs_entries s3 d"
        "\<exists>m flag. journal_at env digest s' = Inr (JValid m flag) \<and> verify_ownership r m = Inr ()
          \<and> \<not> cm_artifact_pinned m \<and> cm_model_pin_owners m = {} \<and> pins_ok m"
        by auto
      moreover have "journal_at env digest s = Inr (JEvicted marker)" using dir j by simp
      ultimately show ?thesis using digest dir s2 s3 by (simp add: taken_over_def)
    next
      case (JValid m flag)
      with Inr run obtain s2 where ex: "reserve_existing env io digest m s1 = (Inr None, s2)"
        and fresh: "reserve_fresh env io cache_key digest name mode derived_from artifact s2 = (Inr (ReservationAcquired r), s')"
        by (auto simp: reserve_existing_def split: prod.splits sum.splits option.splits entry_state.splits bool.splits)
      have valid: "journal_at env digest s1 = Inr (JValid m flag)" using Inr JValid by simp
      have "entry_ok env digest s1" using valid_entry_ok [OF _ valid] dir by blast
      from reserve_existing_effect [OF this valid ex] obtain m1
        where s2: "entry_ok env digest s2" "\<forall>d. d \<noteq> digest \<longrightarrow> cs_entries s2 d = cs_entries s1 d" "cm_state m \<noteq> Complete"
          "cm_state m = Materializing \<longrightarrow> materializing_session_is_live env m = Inr False"
          and m1: "locked_metadata env digest s2 = Inr m1" "cm_created_at m1 = cm_created_at m"
          "cm_artifact_pinned m1 = cm_artifact_pinned m" "cm_model_pin_owners m1 = cm_model_pin_owners m"
        by blast
      from reserve_fresh_effect [OF s2(1) fresh] obtain m2 flag2 id where m2: "rv_digest r = digest"
        "journal_at env digest s' = Inr (JValid m2 flag2)" "verify_ownership r m2 = Inr ()"
        "m2 = inherit_pins (Inr m1) (reserved_metadata env io cache_key mode derived_from artifact name id)"
        "\<forall>d. d \<noteq> digest \<longrightarrow> cs_entries s' d = cs_entries s2 d"
        by (auto simp: m1(1))
      have was: "journal_at env digest s = Inr (JValid m flag)" using dir valid by simp
      have "taken_over env (journal_at env digest s) m2"
        unfolding was using inherit_pins_facts [OF m2(4) [symmetric]] s2 m1 by (simp add: taken_over_def)
      with m2 s2 dir digest show ?thesis by auto
    qed
  qed
qed

section \<open>Recovery is safe\<close>

lemma write_file_effect:
  "write_file env io file digest f s = Inr s' \<Longrightarrow>
   \<exists>e. cs_entries s digest = Some e \<and> s' = s\<lparr> cs_entries := (cs_entries s)(digest \<mapsto> f e) \<rparr>"
  by (auto simp: write_file_def split: option.splits)

lemma write_file_others:
  "write_file env io file digest f s = Inr s' \<Longrightarrow> cs_entries s' digest \<noteq> None \<and> (\<forall>d. d \<noteq> digest \<longrightarrow> cs_entries s' d = cs_entries s d)"
  by (auto dest: write_file_effect)

lemma store_metadata_others:
  "store_metadata env io digest m s = Inr s' \<Longrightarrow> cs_entries s' digest \<noteq> None \<and> (\<forall>d. d \<noteq> digest \<longrightarrow> cs_entries s' d = cs_entries s d)"
  by (auto simp: store_metadata_def dest: write_file_others split: option.splits sum.splits)

lemma read_ignores_marker: "read_metadata_unlocked shape (e\<lparr> ed_corrupt_marker := x \<rparr>) = read_metadata_unlocked shape e"
  by (simp add: read_metadata_unlocked_def split: tombstone.split)

lemma corrupt_marker_journal:
  "write_corrupt_marker env io digest s = Inr s' \<Longrightarrow>
   journal_at env d s' = journal_at env d s \<and> cs_entries s' digest \<noteq> None \<and> (\<forall>d. d \<noteq> digest \<longrightarrow> cs_entries s' d = cs_entries s d)"
  by (auto simp: write_corrupt_marker_def journal_at_def read_ignores_marker dest!: write_file_effect)

text \<open>A recovered entry is still there, and only its own directory was touched.\<close>

definition kept :: "string \<Rightarrow> cache_store \<Rightarrow> cache_store \<Rightarrow> bool" where
  "kept digest s s' \<longleftrightarrow> (cs_entries s digest \<noteq> None \<longrightarrow> cs_entries s' digest \<noteq> None)
     \<and> (\<forall>d. d \<noteq> digest \<longrightarrow> cs_entries s' d = cs_entries s d)"

lemma kept_refl [simp]: "kept digest s s"
  by (simp add: kept_def)

lemma kept_trans: "kept digest s s1 \<Longrightarrow> kept digest s1 s' \<Longrightarrow> kept digest s s'"
  by (auto simp: kept_def)

lemma kept_writes:
  "write_file env io file digest f s = Inr s' \<Longrightarrow> kept digest s s'"
  "store_metadata env io digest m s = Inr s' \<Longrightarrow> kept digest s s'"
  "write_corrupt_marker env io digest s = Inr s' \<Longrightarrow> kept digest s s'"
  by (auto simp: kept_def write_corrupt_marker_def dest: write_file_others store_metadata_others)

lemma kept_entry_update [simp]:
  "kept digest s (s\<lparr> cs_entries := (cs_entries s)(digest := map_option f (cs_entries s digest)) \<rparr>)"
  "kept digest s (s\<lparr> cs_entries := (cs_entries s)(digest \<mapsto> e) \<rparr>)"
  by (simp_all add: kept_def)

lemma kept_session_record [simp]: "kept digest s (remove_session_record a b s') = kept digest s s'"
  by (simp add: kept_def remove_session_record_def)

lemma clear_bundle_kept: "clear_bundle io digest receipt s = Inr s' \<Longrightarrow> kept digest s s'"
  by (auto simp: clear_bundle_def split: if_splits option.splits)

lemma settle_cleanup_kept: "settle_cleanup env io digest m receipt s = (r, s') \<Longrightarrow> kept digest s s'"
  by (auto simp: settle_cleanup_def dest!: clear_bundle_kept kept_writes intro: kept_trans split: sum.splits)

lemma heal_kept: "heal_older_slot env io digest flag m s = Inr (mc, s') \<Longrightarrow> kept digest s s'"
  by (auto simp: heal_older_slot_def dest: kept_writes split: if_splits sum.splits)

lemma recover_valid_kept: "recover_valid env io summary digest cleanup m flag s = (r, s') \<Longrightarrow> kept digest s s'"
  by (auto simp: recover_valid_def Let_def dest!: heal_kept settle_cleanup_kept dest: kept_writes intro: kept_trans
      split: if_splits sum.splits option.splits prod.splits)

lemma recover_unreadable_kept: "recover_unreadable env io digest s = (r, s') \<Longrightarrow> kept digest s s'"
  by (auto simp: recover_unreadable_def Let_def dest: kept_writes intro: kept_trans kept_trans [OF kept_entry_update(1)] kept_trans [OF kept_entry_update(2)]
      split: if_splits sum.splits option.splits)

lemma recovery_removal:
  assumes "recover_entry env io summary s = (r, s')" and "cs_entries s' d \<noteq> cs_entries s d"
  shows "cache_key_digest (su_cache_key summary) = Inr d \<and> en_artifact_lock env d = Acquired
    \<and> (cs_entries s' d = None \<longrightarrow> (\<exists>marker. journal_at env d s = Inr (JEvicted marker)))"
proof -
  obtain digest cleanup where digest: "cache_key_digest (su_cache_key summary) = Inr digest"
    and cleanup: "canceled_cleanup_receipt env (su_cache_key summary) digest s = Inr cleanup"
    and lock: "en_artifact_lock env digest = Acquired" "en_metadata_lock env UnderLock digest = None"
    using assms by (auto simp: recover_entry_def split: sum.splits option.splits lock_result.splits)
  show ?thesis
  proof (cases "\<exists>marker. journal_at env digest s = Inr (JEvicted marker)")
    case True
    then have "d = digest"
      using assms digest cleanup lock by (auto simp: recover_entry_def dest: finish_entries split: prod.splits sum.splits)
    with True digest lock show ?thesis by simp
  next
    case False
    then have kept: "kept digest s s'"
      using assms(1) digest cleanup lock
      by (auto simp: recover_entry_def dest: recover_valid_kept recover_unreadable_kept kept_writes
          split: sum.splits journal_read.splits if_splits)
    with assms(2) have "d = digest" unfolding kept_def by metis
    moreover have "cs_entries s' digest \<noteq> None"
      using kept assms(2) \<open>d = digest\<close> unfolding kept_def by metis
    ultimately show ?thesis using digest lock by auto
  qed
qed

subsection \<open>What recovery pins\<close>

lemma clear_bundle_ok: "entry_ok env digest s \<Longrightarrow> clear_bundle io digest receipt s = Inr s' \<Longrightarrow> entry_ok env digest s'"
  by (auto simp: clear_bundle_def entry_ok_def journal_ok_def split: if_splits option.splits)

lemma settle_interrupts:
  assumes "entry_ok env digest s" and "settle_cleanup env io digest m receipt s = (Inr (), s')"
  shows "\<exists>m' flag. journal_at env digest s' = Inr (JValid m' flag) \<and> cm_state m' = Interrupted"
proof -
  obtain s1 s2 s3 receipt' where s1: "entry_ok env digest s1"
    and s2: "store_metadata env io digest ((interrupt m)\<lparr> cm_updated_at := io_now io \<rparr>) s1 = Inr s2"
    and s3: "write_file env io CleanupReceipt digest (\<lambda>e. e\<lparr> ed_cleanup_receipt := receipt' \<rparr>) s2 = Inr s3"
    and s': "cs_entries s' = cs_entries s3"
    using assms
    by (auto simp: settle_cleanup_def remove_session_record_def dest: clear_bundle_ok split: sum.splits)
  have "read_metadata_unlocked shape (e\<lparr> ed_cleanup_receipt := receipt' \<rparr>) = read_metadata_unlocked shape e" for shape e
    by (simp add: read_metadata_unlocked_def split: tombstone.split)
  then have "journal_at env digest s' = journal_at env digest s2"
    using write_file_effect [OF s3] s' by (auto simp: journal_at_def)
  with store_metadata_reads [OF s1 s2] show ?thesis by (auto simp: interrupt_def)
qed

lemma recover_valid_pins:
  assumes "entry_ok env digest s" and "journal_at env digest s = Inr (JValid m flag)"
    and "recover_valid env io summary digest cleanup m had s = (Inr (), s')"
    and "journal_at env digest s' = Inr (JValid m' flag')" and "cm_state m' = Complete"
  shows "m' = m \<or> io_validate_content io m = None
    \<and> m' = (pin_recovered RecoveredFromOlderSlot m)\<lparr> cm_updated_at := io_now io \<rparr>"
proof (cases "su_state summary = Corrupt \<and> cm_state m = Complete \<and> en_validate_complete_metadata env m \<noteq> None")
  case True
  with assms(3) obtain s1 where "write_corrupt_marker env io digest s = Inr s1" "s' = s1"
    by (auto simp: recover_valid_def split: sum.splits)
  with corrupt_marker_journal assms(2,4) show ?thesis by auto
next
  case False
  with assms(3) obtain m1 changed s1 stale where heal: "heal_older_slot env io digest had m s = Inr ((m1, changed), s1)"
    and stale: "session_is_stale env m1 = Inr stale"
    and rest: "(case (case cleanup of Some receipt \<Rightarrow> if settles_cleanup env stale m1 receipt then Some receipt else None
                                    | None \<Rightarrow> None) of
                 Some receipt \<Rightarrow> settle_cleanup env io digest m1 receipt s1
               | None \<Rightarrow>
                   let m2 = (if stale then interrupt m1 else m1)
                   in if changed \<or> stale
                      then (case store_metadata env io digest (m2\<lparr> cm_updated_at := io_now io \<rparr>) s1 of
                              Inl error \<Rightarrow> (Inl error, s1)
                            | Inr s2 \<Rightarrow> (Inr (), s2))
                      else (Inr (), s1)) = (Inr (), s')"
    unfolding recover_valid_def by (auto split: sum.splits(2) prod.splits(2))
  have ok: "entry_ok env digest s1" "journal_at env digest s1 = journal_at env digest s"
    and m1: "m1 = m \<and> \<not> changed \<or> m1 = pin_recovered RecoveredFromOlderSlot m \<and> changed
      \<and> (cm_state m = Complete \<longrightarrow> io_validate_content io m = None)"
    using heal assms(1)
    by (auto simp: heal_older_slot_def entry_ok_def write_corrupt_marker_def journal_ok_def journal_at_def read_ignores_marker
        dest!: write_file_effect split: if_splits sum.splits)
  show ?thesis
  proof (cases "\<exists>receipt. settle_cleanup env io digest m1 receipt s1 = (Inr (), s')")
    case True
    with settle_interrupts [OF ok(1)] assms(4,5) show ?thesis by fastforce
  next
    case False
    show ?thesis
    proof (cases "changed \<or> stale")
      case True
      with rest False have "store_metadata env io digest ((if stale then interrupt m1 else m1)\<lparr> cm_updated_at := io_now io \<rparr>) s1 = Inr s'"
        by (auto simp: Let_def split: option.splits sum.splits if_splits)
      from store_metadata_reads [OF ok(1) this] assms(4,5)
      have m': "m' = m1\<lparr> cm_updated_at := io_now io \<rparr>" "\<not> stale" by (auto simp: interrupt_def split: if_splits)
      then have "changed" "cm_state m = Complete"
        using True m1 assms(5) by (auto simp: pin_recovered_def refresh_effective_pin_def)
      with m1 m' show ?thesis by auto
    next
      case unchanged: False
      with rest False have "s' = s1" by (auto split: option.splits if_splits)
      with ok(2) assms(2,4) show ?thesis by simp
    qed
  qed
qed

lemma recover_unreadable_pins:
  assumes "store_ok env s" and "journal_at env digest s = Inl error"
    and "recover_unreadable env io digest s = (Inr (), s')"
    and "journal_at env digest s' = Inr (JValid m' flag')"
  shows "\<exists>m. io_validate_content io m = None
    \<and> m' = (pin_recovered ReconstructedFromCompleteReceipt m)\<lparr> cm_updated_at := io_now io \<rparr>"
proof (cases "\<exists>s1. write_corrupt_marker env io digest s = Inr s1 \<and> s' = s1")
  case True
  with corrupt_marker_journal assms(2,4) show ?thesis by auto
next
  case False
  with assms(3) obtain m where "io_validate_content io m = None"
    and w: "store_metadata env io digest ((pin_recovered ReconstructedFromCompleteReceipt m)\<lparr> cm_updated_at := io_now io \<rparr>)
      (s\<lparr> cs_entries := (cs_entries s)(digest := map_option (\<lambda>e. e\<lparr> ed_tombstone := NoTombstone \<rparr>) (cs_entries s digest)) \<rparr>) = Inr s'"
    by (auto simp: recover_unreadable_def Let_def split: option.splits sum.splits if_splits)
  moreover have "entry_ok env digest
      (s\<lparr> cs_entries := (cs_entries s)(digest := map_option (\<lambda>e. e\<lparr> ed_tombstone := NoTombstone \<rparr>) (cs_entries s digest)) \<rparr>)"
    using assms(1,2) by (auto simp: entry_ok_def store_ok_def journal_at_def split: option.splits)
  ultimately show ?thesis using store_metadata_reads [OF _ w] assms(4) by auto
qed

text \<open>
  C34. Recovery is safe: it changes at most the entry of its summary, under the entry's lock;
  an entry that is gone afterwards was tombstoned; and a complete entry that is pinned
  afterwards was complete and pinned before, or is a document that recovery pinned after the
  content of its bundle had verified.
\<close>

theorem recovery_is_safe:
  assumes "store_ok env s" and "recover_entry env io summary s = (r, s')"
  shows "(cs_entries s' d \<noteq> cs_entries s d \<longrightarrow>
      cache_key_digest (su_cache_key summary) = Inr d \<and> en_artifact_lock env d = Acquired
      \<and> (cs_entries s' d = None \<longrightarrow> (\<exists>marker. journal_at env d s = Inr (JEvicted marker))))
    \<and> (r = Inr () \<longrightarrow> journal_at env d s' = Inr (JValid m' flag') \<longrightarrow> cm_state m' = Complete \<longrightarrow> cm_effective_pin m' \<longrightarrow>
        (\<exists>m flag. journal_at env d s = Inr (JValid m flag) \<and> cm_state m = Complete \<and> cm_effective_pin m)
        \<or> (\<exists>m status. io_validate_content io m = None
             \<and> m' = (pin_recovered status m)\<lparr> cm_updated_at := io_now io \<rparr>))"
proof (intro conjI impI)
  assume "cs_entries s' d \<noteq> cs_entries s d"
  note removal = recovery_removal [OF assms(2) this]
  from removal show "cache_key_digest (su_cache_key summary) = Inr d" by blast
  from removal show "en_artifact_lock env d = Acquired" by blast
  assume "cs_entries s' d = None"
  with removal show "\<exists>marker. journal_at env d s = Inr (JEvicted marker)" by blast
next
  assume r: "r = Inr ()" and after: "journal_at env d s' = Inr (JValid m' flag')"
    and m': "cm_state m' = Complete" "cm_effective_pin m'"
  show "(\<exists>m flag. journal_at env d s = Inr (JValid m flag) \<and> cm_state m = Complete \<and> cm_effective_pin m)
        \<or> (\<exists>m status. io_validate_content io m = None \<and> m' = (pin_recovered status m)\<lparr> cm_updated_at := io_now io \<rparr>)"
  proof (cases "cs_entries s' d = cs_entries s d")
    case True
    with after m' journal_at_cong [OF True] show ?thesis by auto
  next
    case False
    then have lock: "cache_key_digest (su_cache_key summary) = Inr d" "en_artifact_lock env d = Acquired"
      using recovery_removal [OF assms(2)] by blast+
    then obtain cleanup where cleanup: "canceled_cleanup_receipt env (su_cache_key summary) d s = Inr cleanup"
      and free: "en_metadata_lock env UnderLock d = None"
      using assms(2) False by (auto simp: recover_entry_def split: sum.splits option.splits)
    show ?thesis
    proof (cases "journal_at env d s")
      case (Inl error)
      with assms(2) lock cleanup free have "recover_unreadable env io d s = (Inr (), s')"
        by (simp add: recover_entry_def r)
      from recover_unreadable_pins [OF assms(1) Inl this after] show ?thesis by blast
    next
      case (Inr j)
      show ?thesis
      proof (cases j)
        case JMissing
        then have "journal_at env d s' = Inr JMissing"
          using Inr assms(2) lock cleanup free corrupt_marker_journal [of env io d s _ d]
          by (auto simp: recover_entry_def r split: if_splits sum.splits)
        with after show ?thesis by simp
      next
        case (JEvicted marker)
        then have "cs_entries s' d = None"
          using Inr assms(2) lock cleanup free
          by (auto simp: recover_entry_def r finish_pending_eviction_def Let_def split: prod.splits sum.splits option.splits)
        with after show ?thesis by (simp add: journal_at_def)
      next
        case (JValid m flag)
        then have valid: "journal_at env d s = Inr (JValid m flag)" using Inr by simp
        then have "recover_valid env io summary d cleanup m flag s = (Inr (), s')"
          using assms(2) lock cleanup free by (simp add: recover_entry_def r)
        from recover_valid_pins [OF valid_entry_ok [OF assms(1) valid] valid this after m'(1)] valid m' show ?thesis by blast
      qed
    qed
  qed
qed

section \<open>Samples\<close>

definition sample_io :: lifecycle_io where
  "sample_io = \<lparr> io_now = 20, io_random_id = Inr ''id'', io_write = (\<lambda>_. None), io_source_root = (\<lambda>_. None), io_entry_dir = None,
     io_create_staging = None, io_source_volume = None, io_validate_content = (\<lambda>_. None), io_shared_lock = None,
     io_runtime_lease = None, io_validate_tree = None, io_remove_bundle = None, io_remove_tombstone = None \<rparr>"

definition sample_artifact :: model_artifact where
  "sample_artifact = \<lparr> ma_repository = ''owner/model'', ma_revision = ''main'', ma_tier = None, ma_root = ''staging'' \<rparr>"

definition empty_store :: cache_store where
  "empty_store = \<lparr> cs_entries = Map.empty, cs_sessions = Map.empty, cs_audit = Map.empty \<rparr>"

lemma sample_reserved:
  "\<exists>r s'. reserve_inner sample_env sample_io (cm_cache_key sample_metadata) ''library'' ''model'' SourceCopy None sample_artifact
     empty_store = (Inr (ReservationAcquired r), s')"
proof -
  have owner: "validate_model_owner ''model'' = Inr ''model''" by code_simp
  have io: "io_source_root sample_io p = None" "io_entry_dir sample_io = None" "io_random_id sample_io = Inr ''id''"
    "io_create_staging sample_io = None" "io_source_volume sample_io = None" "io_write sample_io f = None" for p f
    by (simp_all add: sample_io_def)
  have shape: "en_shape sample_env m = None" for m by (simp add: sample_env_def)
  have missing: "read_metadata_unlocked sh (empty_entry sample_env) = Inr JMissing" for sh
    by (simp add: read_metadata_unlocked_def empty_entry_def slot_valid_def slot_unsupported_def)
  show ?thesis
    by (simp add: reserve_inner_def owner io sample_key sample_env_facts ensure_managed_entry_dir_def empty_store_def
        journal_at_def missing reserve_fresh_def remove_content_receipt_def store_metadata_def write_metadata_unlocked_def shape
        write_file_def write_session_record_def Let_def)
qed

theorem reservation_takes_entry_witness:
  "\<exists>r s' m flag. reserve_inner sample_env sample_io (cm_cache_key sample_metadata) ''library'' ''model'' SourceCopy None
      sample_artifact empty_store = (Inr (ReservationAcquired r), s')
    \<and> journal_at sample_env (rv_digest r) s' = Inr (JValid m flag) \<and> verify_ownership r m = Inr ()"
proof -
  obtain r s' where run: "reserve_inner sample_env sample_io (cm_cache_key sample_metadata) ''library'' ''model'' SourceCopy None
      sample_artifact empty_store = (Inr (ReservationAcquired r), s')"
    using sample_reserved by blast
  moreover have "store_ok sample_env empty_store" by (simp add: store_ok_def empty_store_def)
  ultimately show ?thesis using reservation_takes_entry [OF run] by blast
qed

definition sample_summary :: entry_summary where
  "sample_summary = \<lparr> su_cache_key = cm_cache_key sample_metadata, su_state = Complete, su_metadata = Some sample_metadata \<rparr>"

text \<open>An entry whose newer slot is torn, with its older document complete.\<close>

definition torn_store :: cache_store where
  "torn_store = \<lparr> cs_entries = [sample_digest \<mapsto> sample_entry\<lparr> ed_slot_0 := Damaged \<rparr>], cs_sessions = Map.empty, cs_audit = Map.empty \<rparr>"

theorem recovery_is_safe_witness:
  "\<exists>s' m' flag' m status. recover_entry sample_env sample_io sample_summary torn_store = (Inr (), s')
    \<and> journal_at sample_env sample_digest s' = Inr (JValid m' flag') \<and> cm_effective_pin m'
    \<and> io_validate_content sample_io m = None \<and> m' = (pin_recovered status m)\<lparr> cm_updated_at := io_now sample_io \<rparr>"
proof -
  have torn: "journal_at sample_env sample_digest torn_store = Inr (JValid sample_metadata True)"
    by (simp add: journal_at_def torn_store_def sample_env_def read_metadata_unlocked_def sample_entry_def
        slot_valid_def slot_invalid_def order_by_pair)
  have ok: "store_ok sample_env torn_store"
    by (auto simp: store_ok_def torn_store_def journal_ok_def sample_entry_def sample_env_def)
  have key: "cache_key_digest (su_cache_key sample_summary) = Inr sample_digest"
    using sample_key by (simp add: sample_summary_def)
  have summary: "su_state sample_summary = Complete" by (simp add: sample_summary_def)
  have receipt: "canceled_cleanup_receipt sample_env k sample_digest torn_store = Inr None" for k
    by (simp add: canceled_cleanup_receipt_def torn_store_def sample_entry_def)
  have content: "io_validate_content sample_io m = None" for m by (simp add: sample_io_def)
  let ?m = "(pin_recovered RecoveredFromOlderSlot sample_metadata)\<lparr> cm_updated_at := io_now sample_io \<rparr>"
  have "\<exists>s'. store_metadata sample_env sample_io sample_digest ?m torn_store = Inr s'"
    by (simp add: store_metadata_def write_file_def write_metadata_unlocked_def torn_store_def sample_entry_def sample_env_def
        read_metadata_unlocked_def slot_valid_def slot_invalid_def order_by_pair highest_generation_def slot_generation_def)
      (simp add: sample_io_def)
  then obtain s' where w: "store_metadata sample_env sample_io sample_digest ?m torn_store = Inr s'" by blast
  have run: "recover_entry sample_env sample_io sample_summary torn_store = (Inr (), s')"
    using w by (simp add: recover_entry_def key receipt sample_env_facts torn recover_valid_def heal_older_slot_def content
        session_is_stale_def pin_recovered_def refresh_effective_pin_def sample_facts summary)
  obtain flag' where after: "journal_at sample_env sample_digest s' = Inr (JValid ?m flag')"
    using store_metadata_reads [OF valid_entry_ok [OF ok torn] w] by blast
  have m': "cm_state ?m = Complete" "cm_effective_pin ?m"
    by (simp_all add: pin_recovered_def refresh_effective_pin_def sample_facts)
  have "\<not> (\<exists>m flag. journal_at sample_env sample_digest torn_store = Inr (JValid m flag) \<and> cm_state m = Complete \<and> cm_effective_pin m)"
    using torn sample_facts by auto
  with recovery_is_safe [OF ok run, of sample_digest ?m flag'] run after m' show ?thesis by blast
qed

end
