(* ===== verification/Clock.thy ===== *)
theory Clock
  imports Prelude
begin

text \<open>
  The clock of \<^verbatim>\<open>crates/sceneworks-core/src/time.rs\<close>: Unix seconds rendered as
  \<^verbatim>\<open>YYYY-MM-DDTHH:MM:SSZ\<close> text and read back. The jobs store keeps its timestamps in
  that form and compares them as text, so besides the round trip this theory shows that the
  rendering is strictly monotone. \<open>i64\<close> values are integers: the calendar arithmetic
  leaves the \<open>i64\<close> range only within a thousand years of its ends.
\<close>

subsection \<open>Calendar arithmetic\<close>

definition civil_from_days :: "int \<Rightarrow> int \<times> int \<times> int" where
  "civil_from_days days =
    (let adjusted_days = days + 719468;
         era = adjusted_days div 146097;
         day_of_era = adjusted_days - era * 146097;
         year_of_era =
           (day_of_era - day_of_era div 1460 + day_of_era div 36524 - day_of_era div 146096) div 365;
         year = year_of_era + era * 400;
         day_of_year = day_of_era - (365 * year_of_era + year_of_era div 4 - year_of_era div 100);
         month_prime = (5 * day_of_year + 2) div 153;
         day = day_of_year - (153 * month_prime + 2) div 5 + 1;
         month = month_prime + (if month_prime < 10 then 3 else - 9);
         year = year + (if month \<le> 2 then 1 else 0)
     in (year, month, day))"

definition days_from_civil :: "int \<Rightarrow> int \<Rightarrow> int \<Rightarrow> int" where
  "days_from_civil year month day =
    (let adjusted_year = year - (if month \<le> 2 then 1 else 0);
         era = adjusted_year div 400;
         year_of_era = adjusted_year - era * 400;
         month_prime = month + (if month > 2 then - 3 else 9);
         day_of_year = (153 * month_prime + 2) div 5 + day - 1;
         day_of_era = year_of_era * 365 + year_of_era div 4 - year_of_era div 100 + day_of_year
     in era * 146097 + day_of_era - 719468)"

subsection \<open>Rendering and parsing\<close>

definition format_unix_seconds :: "int \<Rightarrow> string" where
  "format_unix_seconds timestamp =
    (let days = timestamp div 86400;
         seconds_of_day = timestamp mod 86400;
         (year, month, day) = civil_from_days days;
         hour = seconds_of_day div 3600;
         minute = (seconds_of_day mod 3600) div 60;
         second = seconds_of_day mod 60
     in pad_int 4 year @ ''-'' @ pad_int 2 month @ ''-'' @ pad_int 2 day @ ''T'' @
        pad_int 2 hour @ '':'' @ pad_int 2 minute @ '':'' @ pad_int 2 second @ ''Z'')"

text \<open>
  \<open>str::parse\<close> of the standard library: an optional sign (\<open>+\<close> only, for an unsigned
  type) and at least one decimal digit. The slices are at most four bytes, so the value is
  in range for every integer type used.
\<close>

definition parse_unsigned :: "string \<Rightarrow> int option" where
  "parse_unsigned s =
    (let d = (case s of c # cs \<Rightarrow> (if c = CHR ''+'' then cs else s) | [] \<Rightarrow> s)
     in if d \<noteq> [] \<and> list_all is_ascii_digit d then Some (int (digits_value d)) else None)"

definition parse_signed :: "string \<Rightarrow> int option" where
  "parse_signed s =
    (case s of
       c # cs \<Rightarrow>
         (if c = CHR ''-'' then
            (if cs \<noteq> [] \<and> list_all is_ascii_digit cs then Some (- int (digits_value cs)) else None)
          else parse_unsigned s)
     | [] \<Rightarrow> None)"

text \<open>\<open>value.get(a..b)\<close>: the bytes of the range, nothing when the text is shorter.\<close>

definition slice :: "nat \<Rightarrow> nat \<Rightarrow> string \<Rightarrow> string option" where
  "slice a b s = (if a \<le> b \<and> b \<le> length s then Some (take (b - a) (drop a s)) else None)"

definition fraction_suffix :: "string \<Rightarrow> bool" where
  "fraction_suffix suffix \<longleftrightarrow>
    suffix = ''Z'' \<or>
    (suffix \<noteq> [] \<and> hd suffix = CHR ''.'' \<and> last suffix = CHR ''Z'' \<and>
     list_all is_ascii_digit (butlast (tl suffix)))"

definition parse_utc_seconds :: "string \<Rightarrow> int option" where
  "parse_utc_seconds value =
    (if length value < 20 then None else
     case (Option.bind (slice 0 4 value) parse_signed,
           Option.bind (slice 5 7 value) parse_unsigned,
           Option.bind (slice 8 10 value) parse_unsigned,
           Option.bind (slice 11 13 value) parse_signed,
           Option.bind (slice 14 16 value) parse_signed,
           Option.bind (slice 17 19 value) parse_signed) of
       (Some year, Some month, Some day, Some hour, Some minute, Some second) \<Rightarrow>
         (if slice 4 5 value \<noteq> Some ''-'' \<or> slice 7 8 value \<noteq> Some ''-'' \<or>
             slice 10 11 value \<noteq> Some ''T'' \<or> slice 13 14 value \<noteq> Some '':'' \<or>
             slice 16 17 value \<noteq> Some '':'' \<or>
             month = 0 \<or> month > 12 \<or> day = 0 \<or> day > 31 \<or>
             hour > 23 \<or> minute > 59 \<or> second > 59 then None
          else if \<not> fraction_suffix (drop 19 value) then None
          else Some (days_from_civil year month day * 86400 + hour * 3600 + minute * 60 + second))
     | _ \<Rightarrow> None)"

subsection \<open>The calendar is a bijection on its dates\<close>

text \<open>
  The years of an era start in March. \<open>civil_parts\<close> names the era year counted from
  year zero and the day of that year, from which both directions are computed.
\<close>

definition year_of_era :: "int \<Rightarrow> int" where
  "year_of_era doe = (doe - doe div 1460 + doe div 36524 - doe div 146096) div 365"

definition march_year_start :: "int \<Rightarrow> int" where
  "march_year_start yoe = 365 * yoe + yoe div 4 - yoe div 100"

lemma centuries_skip_less: "(y+1) div (100::int) - y div 100 \<le> (y+1) div 4 - y div 4"
proof -
  define k m where km: "k = y div 100" "m = y mod 100"
  have k: "y = 100 * k + m" "0 \<le> m" "m \<le> 99" unfolding km by simp_all
  show ?thesis
  proof (cases "m = 99")
    case True 
    have "y + 1 = 100 * (k + 1)" using k True by simp
    then have a: "(y+1) div 100 = k+1" by (simp only: nonzero_mult_div_cancel_left)
    have b: "y div 4 = 25*k+24" using k True by linarith
    have c: "(y+1) div 4 = 25*k+25" using k True by linarith
    show ?thesis using a b c km by simp
  next
    case False then have "(y+1) div 100 = k" using k by linarith
    moreover have "y div 4 \<le> (y+1) div 4" by (rule zdiv_mono1) simp_all
    ultimately show ?thesis using km by simp
  qed
qed

lemma march_year_start_Suc: "march_year_start y + 365 \<le> march_year_start (y + 1)"
  using centuries_skip_less [of y] unfolding march_year_start_def by (simp add: algebra_simps)

lemma march_year_start_mono:
  assumes "y \<le> z"
  shows "march_year_start y \<le> march_year_start z"
proof -
  have "march_year_start y \<le> march_year_start (y + int n)" for n
  proof (induction n)
    case (Suc n)
    then show ?case using march_year_start_Suc [of "y + int n"] by (simp add: algebra_simps)
  qed simp
  from this [of "nat (z - y)"] assms show ?thesis by simp
qed

lemma year_of_era_split:
  assumes "0 \<le> doe" and "doe < 146096"
  obtains a b r s q where "doe = 1460 * a + s" "0 \<le> s" "s < 1460" "0 \<le> b" "b \<le> 3"
    "36524 * b \<le> doe" "doe < 36524 * b + 36524" "25 * b \<le> a" "a \<le> 100"
    "doe - a + b = 365 * year_of_era doe + r" "0 \<le> r" "r < 365"
    "year_of_era doe = 4 * (year_of_era doe div 4) + q" "0 \<le> q" "q \<le> 3"
proof -
  define a b where ab: "a = doe div 1460" "b = doe div 36524"
  have c: "doe div 146096 = 0" using assms by simp
  have b: "0 \<le> b" "b \<le> 3" "36524 * b \<le> doe" "doe < 36524 * b + 36524"
    using assms unfolding ab by linarith+
  have a1: "doe = 1460 * a + doe mod 1460" unfolding ab by simp
  have sm: "0 \<le> doe mod 1460" "doe mod 1460 < 1460" by simp_all
  have a: "doe = 1460 * a + doe mod 1460" "25 * b \<le> a" "a \<le> 100"
    using a1 sm assms b by linarith+
  have y: "year_of_era doe = (doe - a + b) div 365"
    by (simp add: year_of_era_def ab c)
  show ?thesis
    by (rule that [of a "doe mod 1460" b "(doe - a + b) mod 365" "year_of_era doe mod 4"])
      (use a b in \<open>auto simp: y\<close>)
qed

lemma leap_slack:
  fixes t :: int
  assumes "1460 * t = 365 * q + r + a - s - b" "0 \<le> s" "s \<le> 1459" "0 \<le> b" "25 * b \<le> a"
    "a \<le> 100" "0 \<le> r" "r \<le> 364" "0 \<le> q" "q \<le> 3"
  shows "0 \<le> t" "t \<le> 1"
  using assms by linarith+

lemma year_of_era_last: "year_of_era 146096 = 399"
  by (simp add: year_of_era_def)

lemma year_of_era_bounds:
  assumes "0 \<le> doe" and "doe < 146097"
  shows "0 \<le> year_of_era doe" "year_of_era doe < 400"
    "march_year_start (year_of_era doe) \<le> doe" "doe \<le> march_year_start (year_of_era doe) + 365"
    "year_of_era doe < 399 \<Longrightarrow> doe < march_year_start (year_of_era doe + 1)"
proof -
  let ?y = "year_of_era doe"
  have "0 \<le> ?y \<and> ?y < 400 \<and> march_year_start ?y \<le> doe \<and> doe \<le> march_year_start ?y + 365 \<and>
    (?y < 399 \<longrightarrow> doe < march_year_start (?y + 1))"
  proof (cases "doe = 146096")
    case True
    then show ?thesis by (simp add: year_of_era_last march_year_start_def)
  next
    case False
    with assms have "doe < 146096" by simp
    from assms(1) this obtain a b r s q where *:
      "doe = 1460 * a + s" "0 \<le> s" "s < 1460" "0 \<le> b" "b \<le> 3"
      "36524 * b \<le> doe" "doe < 36524 * b + 36524" "25 * b \<le> a" "a \<le> 100"
      "doe - a + b = 365 * ?y + r" "0 \<le> r" "r < 365"
      "?y = 4 * (?y div 4) + q" "0 \<le> q" "q \<le> 3"
      by (rule year_of_era_split)
    define e f where ef: "e = ?y div 4" "f = ?y div 100"
    have y: "0 \<le> ?y" "?y < 400" using * by linarith+
    have f: "100 * f \<le> ?y" "?y \<le> 100 * f + 99" "0 \<le> f" unfolding ef using y by linarith+
    have fb: "f = b" using * f by linarith
    have y4: "?y = 4 * e + q" using *(13) unfolding ef .
    have eq: "1460 * (a - e) = 365 * q + r + a - s - b" using *(1,10) y4 by (simp add: algebra_simps)
    have ae: "0 \<le> a - e" "a - e \<le> 1" using leap_slack [OF eq] * by simp_all
    have doy: "doe - march_year_start ?y = r + a - e"
      using * fb unfolding march_year_start_def ef by linarith
    have last: "doe < march_year_start (?y + 1)" if "r + a - e = 365"
    proof -
      from that * ae have r: "r = 364" and a: "a = e + 1" by linarith+
      have "365 * q = 1096 - a + s + b" using eq r a by simp
      with *(2,4,9,15) have q: "q = 3" by linarith
      have y3: "?y = 4 * e + 3" using * q unfolding ef by linarith
      have e1: "(?y + 1) div 4 = e + 1" using y3 by linarith
      have "?y \<noteq> 100 * f + 99" using * fb y3 r a q by linarith
      then have f1: "(?y + 1) div 100 = f" using f by linarith
      from doy that show ?thesis by (simp add: march_year_start_def e1 f1 ef [symmetric])
    qed
    have "doe < march_year_start (?y + 1)" if "r + a - e < 365"
      using march_year_start_Suc [of ?y] doy that by simp
    with last ae * have "doe < march_year_start (?y + 1)" by linarith
    with y doy ae * show ?thesis by linarith
  qed
  then show "0 \<le> ?y" "?y < 400" "march_year_start ?y \<le> doe" "doe \<le> march_year_start ?y + 365"
    "?y < 399 \<Longrightarrow> doe < march_year_start (?y + 1)"
    by auto
qed


lemma year_of_era_mono:
  assumes "0 \<le> d" "d \<le> e" "e < 146097"
  shows "year_of_era d \<le> year_of_era e"
proof (rule ccontr)
  assume "\<not> year_of_era d \<le> year_of_era e"
  then have less: "year_of_era e + 1 \<le> year_of_era d" by simp
  with year_of_era_bounds(2) [of d] assms have "year_of_era e < 399" by simp
  then have "e < march_year_start (year_of_era e + 1)" using year_of_era_bounds(5) [of e] assms by simp
  also have "\<dots> \<le> march_year_start (year_of_era d)" using less by (rule march_year_start_mono)
  also have "\<dots> \<le> d" using year_of_era_bounds(3) [of d] assms by simp
  finally show False using assms by simp
qed

text \<open>
  A day number splits into the year counted from March and the day of that year.
\<close>

definition march_year :: "int \<Rightarrow> int" where
  "march_year days = (let z = days + 719468 in year_of_era (z mod 146097) + z div 146097 * 400)"

definition march_day :: "int \<Rightarrow> int" where
  "march_day days = (let doe = (days + 719468) mod 146097 in doe - march_year_start (year_of_era doe))"

definition civil_of_march :: "int \<Rightarrow> int \<Rightarrow> int \<times> int \<times> int" where
  "civil_of_march y doy =
    (let mp = (5 * doy + 2) div 153;
         month = mp + (if mp < 10 then 3 else - 9)
     in (y + (if month \<le> 2 then 1 else 0), month, doy - (153 * mp + 2) div 5 + 1))"

lemma civil_from_days_march: "civil_from_days days = civil_of_march (march_year days) (march_day days)"
  unfolding civil_from_days_def civil_of_march_def march_year_def march_day_def Let_def
    year_of_era_def march_year_start_def minus_div_mult_eq_mod
  by (rule refl)

lemma march_day_bounds: "0 \<le> march_day days" "march_day days \<le> 365"
  using year_of_era_bounds(3,4) [of "(days + 719468) mod 146097"]
  by (simp_all add: march_day_def Let_def)

text \<open>The months from March on start at these days of the March year.\<close>

lemma month_prime_bounds:
  assumes "0 \<le> doy" "doy \<le> (365::int)"
  defines "mp \<equiv> (5 * doy + 2) div 153"
  shows "0 \<le> mp" "mp \<le> 11" "1 \<le> doy - (153 * mp + 2) div 5 + 1" "doy - (153 * mp + 2) div 5 + 1 \<le> 31"
proof -
  define m where "m = (153 * mp + 2) div 5"
  have mp: "153 * mp \<le> 5 * doy + 2" "5 * doy + 2 \<le> 153 * mp + 152" unfolding mp_def by linarith+
  have m: "5 * m \<le> 153 * mp + 2" "153 * mp + 2 \<le> 5 * m + 4" unfolding m_def by linarith+
  show "0 \<le> mp" "mp \<le> 11" using mp assms by linarith+
  have "doy - m \<le> 30" using mp m by linarith
  moreover have "0 \<le> doy - m" using mp m by linarith
  ultimately show "1 \<le> doy - (153 * mp + 2) div 5 + 1" "doy - (153 * mp + 2) div 5 + 1 \<le> 31"
    unfolding m_def by simp_all
qed

lemma civil_of_march_fields:
  assumes "0 \<le> doy" "doy \<le> 365" "civil_of_march y doy = (year, month, day)"
  shows "1 \<le> month" "month \<le> 12" "1 \<le> day" "day \<le> 31" "y \<le> year" "year \<le> y + 1"
proof -
  define mp where "mp = (5 * doy + 2) div 153"
  have b: "0 \<le> mp" "mp \<le> 11" "1 \<le> doy - (153 * mp + 2) div 5 + 1" "doy - (153 * mp + 2) div 5 + 1 \<le> 31"
    using month_prime_bounds [OF assms(1,2)] unfolding mp_def by blast+
  have e: "month = mp + (if mp < 10 then 3 else - 9)" "day = doy - (153 * mp + 2) div 5 + 1"
    "year = y + (if month \<le> 2 then 1 else 0)"
    using assms(3) by (auto simp: civil_of_march_def Let_def mp_def)
  show "1 \<le> month" "month \<le> 12" "1 \<le> day" "day \<le> 31" "y \<le> year" "year \<le> y + 1"
    using b e by (auto split: if_splits)
qed

lemma days_from_civil_march:
  assumes "0 \<le> doy" "doy \<le> 365" "civil_of_march y doy = (year, month, day)"
  shows "days_from_civil year month day =
    y div 400 * 146097 + (march_year_start (y mod 400) + doy) - 719468"
proof -
  define mp where "mp = (5 * doy + 2) div 153"
  have b: "0 \<le> mp" "mp \<le> 11"
    using month_prime_bounds [OF assms(1,2)] unfolding mp_def by blast+
  have e: "month = mp + (if mp < 10 then 3 else - 9)" "day = doy - (153 * mp + 2) div 5 + 1"
    "year = y + (if month \<le> 2 then 1 else 0)"
    using assms(3) by (auto simp: civil_of_march_def Let_def mp_def)
  have 1: "year - (if month \<le> 2 then 1 else 0) = y" using e(3) by simp
  have 2: "month + (if month > 2 then - 3 else 9) = mp" using e(1) b by (auto split: if_splits)
  have 3: "(153 * mp + 2) div 5 + day - 1 = doy" using e(2) by simp
  have 4: "y - y div 400 * 400 = y mod 400" by (simp add: minus_div_mult_eq_mod)
  show ?thesis
    unfolding days_from_civil_def Let_def 1 2 3 4 march_year_start_def by (simp only: mult.commute add.assoc)
qed

lemma march_year_div_mod:
  "march_year d div 400 = (d + 719468) div 146097"
  "march_year d mod 400 = year_of_era ((d + 719468) mod 146097)"
  using year_of_era_bounds(1,2) [of "(d + 719468) mod 146097"]
  by (simp_all add: march_year_def Let_def)

lemma days_from_civil_from_days:
  assumes "civil_from_days d = (year, month, day)"
  shows "days_from_civil year month day = d"
proof -
  have "days_from_civil year month day = march_year d div 400 * 146097 +
      (march_year_start (march_year d mod 400) + march_day d) - 719468"
    using days_from_civil_march [OF march_day_bounds] assms unfolding civil_from_days_march by blast
  also have "\<dots> = d"
    unfolding march_year_div_mod march_day_def Let_def
    using div_mult_mod_eq [of "d + 719468" 146097] by linarith
  finally show ?thesis .
qed

text \<open>Dates in calendar order.\<close>

fun date_less :: "int \<times> int \<times> int \<Rightarrow> int \<times> int \<times> int \<Rightarrow> bool" where
  "date_less (y, m, d) (y', m', d') \<longleftrightarrow> y < y' \<or> (y = y' \<and> (m < m' \<or> (m = m' \<and> d < d')))"

lemma march_less:
  assumes "d < e"
  shows "march_year d < march_year e \<or> (march_year d = march_year e \<and> march_day d < march_day e)"
proof -
  let ?z = "d + 719468" and ?w = "e + 719468"
  let ?zd = "?z mod 146097" and ?wd = "?w mod 146097"
  have y: "0 \<le> year_of_era ?zd" "year_of_era ?zd < 400" "0 \<le> year_of_era ?wd" "year_of_era ?wd < 400"
    using year_of_era_bounds(1,2) [of ?zd] year_of_era_bounds(1,2) [of ?wd] by simp_all
  have era: "?z div 146097 \<le> ?w div 146097" using assms by (intro zdiv_mono1) simp_all
  show ?thesis
  proof (cases "?z div 146097 = ?w div 146097")
    case True
    have "?zd < ?wd"
      unfolding minus_div_mult_eq_mod [symmetric] True using assms by simp
    then have "year_of_era ?zd \<le> year_of_era ?wd" by (intro year_of_era_mono) simp_all
    with True \<open>?zd < ?wd\<close> show ?thesis by (auto simp: march_year_def march_day_def Let_def)
  next
    case False
    with era have "?z div 146097 + 1 \<le> ?w div 146097" by simp
    then have "(?z div 146097 + 1) * 400 \<le> ?w div 146097 * 400" by (rule mult_right_mono) simp
    with y have "march_year d < march_year e" by (simp add: march_year_def Let_def)
    then show ?thesis ..
  qed
qed

lemma civil_of_march_less:
  assumes "0 \<le> doy" "doy \<le> 365" "0 \<le> doy'" "doy' \<le> 365"
    and less: "y < y' \<or> (y = y' \<and> doy < doy')"
  shows "date_less (civil_of_march y doy) (civil_of_march y' doy')"
proof -
  define mp mp' where mp: "mp = (5 * doy + 2) div 153" "mp' = (5 * doy' + 2) div 153"
  have b: "0 \<le> mp" "mp \<le> 11" "0 \<le> mp'" "mp' \<le> 11"
    using month_prime_bounds [OF assms(1,2)] month_prime_bounds [OF assms(3,4)] unfolding mp by blast+
  have le: "mp \<le> mp'" if "doy < doy'" unfolding mp using that by (intro zdiv_mono1) simp_all
  show ?thesis
    using less b le unfolding civil_of_march_def Let_def mp [symmetric] by auto
qed

lemma civil_from_days_less: "d < e \<Longrightarrow> date_less (civil_from_days d) (civil_from_days e)"
  unfolding civil_from_days_march
  by (intro civil_of_march_less march_day_bounds march_less)

lemma civil_from_days_fields:
  assumes "civil_from_days d = (year, month, day)"
  shows "1 \<le> month" "month \<le> 12" "1 \<le> day" "day \<le> 31"
  using civil_of_march_fields [OF march_day_bounds] assms unfolding civil_from_days_march by blast+

subsection \<open>Four-digit years\<close>

text \<open>
  The instants whose year has at most four digits: from the first second of year 0 to the
  last of year 9999. \<open>utc_now\<close> stays inside them for the next eight thousand years.
\<close>

definition four_digit_instant :: "int \<Rightarrow> bool" where
  "four_digit_instant t \<longleftrightarrow> - 62167219200 \<le> t \<and> t \<le> 253402300799"

lemma civil_from_days_first: "civil_from_days (- 719528) = (0, 1, 1)"
  by code_simp

lemma civil_from_days_last: "civil_from_days 2932896 = (9999, 12, 31)"
  by code_simp

lemma four_digit_year:
  assumes "four_digit_instant t" and c: "civil_from_days (t div 86400) = (year, month, day)"
  shows "0 \<le> year" "year \<le> 9999"
proof -
  let ?d = "t div 86400"
  have d: "- 719528 \<le> ?d" "?d \<le> 2932896"
    using assms(1) unfolding four_digit_instant_def by linarith+
  have "\<not> year < 0"
    using civil_from_days_less [of "- 719528" ?d] d c civil_from_days_first by fastforce
  moreover have "\<not> 9999 < year"
    using civil_from_days_less [of ?d 2932896] d c civil_from_days_last by fastforce
  ultimately show "0 \<le> year" "year \<le> 9999" by simp_all
qed

text \<open>The rendered fields, in the order they are written.\<close>

definition render_fields :: "nat \<Rightarrow> nat \<Rightarrow> nat \<Rightarrow> nat \<Rightarrow> nat \<Rightarrow> nat \<Rightarrow> string" where
  "render_fields y mo d h mi s =
    pad_nat 4 y @ ''-'' @ pad_nat 2 mo @ ''-'' @ pad_nat 2 d @ ''T'' @
    pad_nat 2 h @ '':'' @ pad_nat 2 mi @ '':'' @ pad_nat 2 s @ ''Z''"

lemma time_of_day_bounds:
  assumes "0 \<le> v" "v < (86400::int)"
  shows "0 \<le> v div 3600" "v div 3600 \<le> 23" "0 \<le> v mod 3600 div 60" "v mod 3600 div 60 \<le> 59"
    "0 \<le> v mod 60" "v mod 60 \<le> 59"
proof -
  have w: "0 \<le> v mod 3600" "v mod 3600 < 3600" "0 \<le> v mod 60" "v mod 60 < 60" by simp_all
  show "0 \<le> v div 3600" "v div 3600 \<le> 23" "0 \<le> v mod 3600 div 60" "v mod 3600 div 60 \<le> 59"
    "0 \<le> v mod 60" "v mod 60 \<le> 59"
    using assms w by linarith+
qed

lemma format_unix_seconds_fields:
  assumes "four_digit_instant t" and c: "civil_from_days (t div 86400) = (year, month, day)"
    and v: "v = t mod 86400"
  shows "format_unix_seconds t = render_fields (nat year) (nat month) (nat day)
    (nat (v div 3600)) (nat (v mod 3600 div 60)) (nat (v mod 60))"
proof -
  have v': "0 \<le> v" "v < 86400" by (simp_all add: v)
  have neg: "\<not> year < 0" "\<not> month < 0" "\<not> day < 0" "\<not> v div 3600 < 0" "\<not> v mod 3600 div 60 < 0" "\<not> v mod 60 < 0"
    using four_digit_year [OF assms(1,2)] civil_from_days_fields [OF c] time_of_day_bounds [OF v'] by linarith+
  show ?thesis
    unfolding format_unix_seconds_def Let_def v [symmetric] c case_prod_conv render_fields_def pad_int_def
    by (simp only: neg if_False)
qed

lemma parse_padded:
  "n < 100 \<Longrightarrow> parse_unsigned (pad_nat 2 n) = Some (int n)"
  "n < 100 \<Longrightarrow> parse_signed (pad_nat 2 n) = Some (int n)"
  "n < 10000 \<Longrightarrow> parse_signed (pad_nat 4 n) = Some (int n)"
proof -
  have "char_code CHR ''+'' = 43" "char_code CHR ''-'' = 45" by (simp_all add: char_code_def)
  then have nd: "digit_char k \<noteq> CHR ''+''" "digit_char k \<noteq> CHR ''-''" if "k < 10" for k
    using char_code_digit_char [OF that] by force+
  have u: "parse_unsigned (pad_nat w n) = Some (int n)"
    if "pad_nat w n = digit_char k # ds" "k < 10" for w n k ds
    using that nd [of k] pad_nat_digits [of w n] digits_value_pad_nat [of w n]
    by (simp add: parse_unsigned_def)
  have s: "parse_signed (pad_nat w n) = Some (int n)"
    if "pad_nat w n = digit_char k # ds" "k < 10" for w n k ds
    using that nd [of k] u [OF that] by (simp add: parse_signed_def)
  show "parse_unsigned (pad_nat 2 n) = Some (int n)" "parse_signed (pad_nat 2 n) = Some (int n)"
    if "n < 100" for n
    using u [OF pad_nat_2 [OF that]] s [OF pad_nat_2 [OF that]] that by auto
  show "parse_signed (pad_nat 4 n) = Some (int n)" if "n < 10000" for n
    using s [OF pad_nat_4 [OF that]] that by auto
qed

lemma pad_nat_length: "n < 100 \<Longrightarrow> length (pad_nat 2 n) = 2" "n < 10000 \<Longrightarrow> length (pad_nat 4 n) = 4"
  by (simp_all add: pad_nat_2 pad_nat_4)

lemma parse_render_fields:
  assumes "y < 10000" "1 \<le> mo" "mo \<le> 12" "1 \<le> d" "d \<le> 31" "h \<le> 23" "mi \<le> 59" "s \<le> 59"
  shows "parse_utc_seconds (render_fields y mo d h mi s) =
    Some (days_from_civil (int y) (int mo) (int d) * 86400 + int h * 3600 + int mi * 60 + int s)"
proof -
  have b: "mo < 100" "d < 100" "h < 100" "mi < 100" "s < 100" using assms by simp_all
  note len = pad_nat_length(2) [OF assms(1)] b [THEN pad_nat_length(1)]
  show ?thesis
    using assms b
    by (simp add: parse_utc_seconds_def render_fields_def slice_def len parse_padded fraction_suffix_def)
qed

text \<open>Hour, minute and second of a second of the day.\<close>

lemma time_of_day_split:
  assumes "0 \<le> v" "v < (86400::int)"
  obtains h mi s where "v div 3600 = h" "v mod 3600 div 60 = mi" "v mod 60 = s" "v = h * 3600 + mi * 60 + s"
    "0 \<le> h" "h \<le> 23" "0 \<le> mi" "mi \<le> 59" "0 \<le> s" "s \<le> 59"
proof -
  have 1: "v mod 3600 mod 60 = v mod 60" by (rule mod_mod_cancel) simp
  have 2: "v mod 3600 div 60 * 60 + v mod 60 = v mod 3600"
    using div_mult_mod_eq [of "v mod 3600" 60] unfolding 1 .
  have "v = v div 3600 * 3600 + v mod 3600 div 60 * 60 + v mod 60"
    using div_mult_mod_eq [of v 3600] unfolding add.assoc 2 by (rule sym)
  with that time_of_day_bounds [OF assms] show thesis by blast
qed

lemma parse_format_inverse:
  assumes "four_digit_instant t"
  shows "parse_utc_seconds (format_unix_seconds t) = Some t"
proof -
  obtain year month day where c: "civil_from_days (t div 86400) = (year, month, day)"
    by (cases "civil_from_days (t div 86400)")
  define v where v: "v = t mod 86400"
  have "0 \<le> v" "v < 86400" by (simp_all add: v)
  then obtain h mi s where hms: "v div 3600 = h" "v mod 3600 div 60 = mi" "v mod 60 = s"
    "v = h * 3600 + mi * 60 + s" "0 \<le> h" "h \<le> 23" "0 \<le> mi" "mi \<le> 59" "0 \<le> s" "s \<le> 59"
    by (rule time_of_day_split)
  have t: "t div 86400 * 86400 + v = t" unfolding v by (rule div_mult_mod_eq)
  note b = four_digit_year [OF assms c] civil_from_days_fields [OF c]
  have "parse_utc_seconds (format_unix_seconds t) =
    Some (days_from_civil year month day * 86400 + h * 3600 + mi * 60 + s)"
    unfolding format_unix_seconds_fields [OF assms c v] hms(1-3)
    by (subst parse_render_fields) (use b hms(5-) in \<open>simp_all add: nat_le_iff nat_less_iff\<close>)
  also have "\<dots> = Some t"
    using t unfolding days_from_civil_from_days [OF c] hms(4) by simp
  finally show ?thesis .
qed

subsection \<open>Text order is time order\<close>

lemma text_less_pad_2: "a < b \<Longrightarrow> b < 100 \<Longrightarrow> text_less (pad_nat 2 a @ xs) (pad_nat 2 b @ ys)"
proof (rule text_less_append_prefix)
  assume ab: "a < b" "b < 100"
  then have "a div 10 \<le> b div 10" by (simp add: div_le_mono)
  then consider "a div 10 < b div 10" | "a div 10 = b div 10" "a mod 10 < b mod 10"
    using ab div_mult_mod_eq [of a 10] div_mult_mod_eq [of b 10] by linarith
  then show "text_less (pad_nat 2 a) (pad_nat 2 b)"
    using ab by cases (auto simp: pad_nat_2 char_code_digit_char dest: arg_cong [where f = char_code])
  show "length (pad_nat 2 a) = length (pad_nat 2 b)" using ab by (simp add: pad_nat_2)
qed

lemma pad_nat_4_halves:
  assumes "n < 10000"
  shows "pad_nat 4 n = pad_nat 2 (n div 100) @ pad_nat 2 (n mod 100)"
proof -
  have 1: "n div 100 div 10 = n div 1000" using div_mult2_eq [of n 100 10] by simp
  have 2: "n mod 100 mod 10 = n mod 10" by (rule mod_mod_cancel) simp
  have 3: "n mod 100 div 10 = n div 10 mod 10" using mod_mult2_eq [of n 10 10] by simp
  have "n div 100 < 100" "n mod 100 < 100" using assms by simp_all
  from this [THEN pad_nat_2] show ?thesis unfolding pad_nat_4 [OF assms] 1 2 3 by simp
qed

lemma text_less_pad_4: "a < b \<Longrightarrow> b < 10000 \<Longrightarrow> text_less (pad_nat 4 a @ xs) (pad_nat 4 b @ ys)"
proof -
  assume ab: "a < b" "b < 10000"
  then have "a div 100 \<le> b div 100" by (simp add: div_le_mono)
  then consider "a div 100 < b div 100" | "a div 100 = b div 100" "a mod 100 < b mod 100"
    using ab div_mult_mod_eq [of a 100] div_mult_mod_eq [of b 100] by linarith
  then show ?thesis
    using ab by cases (simp_all add: pad_nat_4_halves text_less_pad_2)
qed

lemma render_fields_less:
  assumes "y' < 10000" "mo' < 100" "d' < 100" "h' < 100" "mi' < 100" "s' < 100"
    and "y < y' \<or> y = y' \<and> (mo < mo' \<or> mo = mo' \<and> (d < d' \<or> d = d' \<and>
      (h < h' \<or> h = h' \<and> (mi < mi' \<or> mi = mi' \<and> s < s'))))"
  shows "text_less (render_fields y mo d h mi s) (render_fields y' mo' d' h' mi' s')"
  using assms unfolding render_fields_def by (auto simp: text_less_pad_2 text_less_pad_4)

lemma format_less:
  assumes t: "four_digit_instant t" and u: "four_digit_instant u" and "t < u"
  shows "text_less (format_unix_seconds t) (format_unix_seconds u)"
proof -
  obtain y mo d where c: "civil_from_days (t div 86400) = (y, mo, d)" by (cases "civil_from_days (t div 86400)")
  obtain y' mo' d' where c': "civil_from_days (u div 86400) = (y', mo', d')" by (cases "civil_from_days (u div 86400)")
  define v where v: "v = t mod 86400"
  define w where w: "w = u mod 86400"
  have vw: "0 \<le> v" "v < 86400" "0 \<le> w" "w < 86400" by (simp_all add: v w)
  obtain h mi s where hms: "v div 3600 = h" "v mod 3600 div 60 = mi" "v mod 60 = s"
    "v = h * 3600 + mi * 60 + s" "0 \<le> h" "h \<le> 23" "0 \<le> mi" "mi \<le> 59" "0 \<le> s" "s \<le> 59"
    using vw(1,2) by (rule time_of_day_split)
  obtain h' mi' s' where hms': "w div 3600 = h'" "w mod 3600 div 60 = mi'" "w mod 60 = s'"
    "w = h' * 3600 + mi' * 60 + s'" "0 \<le> h'" "h' \<le> 23" "0 \<le> mi'" "mi' \<le> 59" "0 \<le> s'" "s' \<le> 59"
    using vw(3,4) by (rule time_of_day_split)
  have le: "t div 86400 \<le> u div 86400" using \<open>t < u\<close> by (intro zdiv_mono1) simp_all
  have date: "date_less (y, mo, d) (y', mo', d')" if "t div 86400 < u div 86400"
    using civil_from_days_less [OF that] unfolding c c' .
  have same: "y = y' \<and> mo = mo' \<and> d = d' \<and> v < w" if "t div 86400 = u div 86400"
    using that c c' \<open>t < u\<close> unfolding v w minus_div_mult_eq_mod [symmetric] by simp
  have time: "h < h' \<or> h = h' \<and> (mi < mi' \<or> mi = mi' \<and> s < s')" if "v < w"
    using that hms(4-) hms'(4-) by linarith
  have "y < y' \<or> y = y' \<and> (mo < mo' \<or> mo = mo' \<and> (d < d' \<or> d = d' \<and>
      (h < h' \<or> h = h' \<and> (mi < mi' \<or> mi = mi' \<and> s < s'))))"
    using date same le time by fastforce
  then show ?thesis
    unfolding format_unix_seconds_fields [OF t c v] format_unix_seconds_fields [OF u c' w] hms(1-3) hms'(1-3)
    by (intro render_fields_less)
      (use four_digit_year [OF t c] civil_from_days_fields [OF c] hms(5-)
         four_digit_year [OF u c'] civil_from_days_fields [OF c'] hms'(5-) in
        \<open>auto simp: nat_less_iff nat_less_eq_zless\<close>)
qed

lemma format_less_iff:
  assumes "four_digit_instant t" and "four_digit_instant u"
  shows "text_less (format_unix_seconds t) (format_unix_seconds u) \<longleftrightarrow> t < u"
proof (cases "t < u")
  case False
  then have "t = u \<or> u < t" by auto
  then show ?thesis using False format_less [OF assms(2,1)] text_less_asym by auto
qed (simp add: format_less assms)

end
