(* ===== verification/Contracts.thy ===== *)
theory Contracts
  imports Prelude
begin

text \<open>
  The wire contract of \<^verbatim>\<open>crates/sceneworks-core/src/contracts.rs\<close>: job statuses, job
  types and worker statuses. Each is a \<open>string_enum!\<close>: a closed list of wire values plus
  an \<open>Unknown\<close> constructor that keeps a value a newer version wrote. The database stores
  the wire value and every read parses it, which the rows of the jobs store model by the
  parsed value; the lemmas here show that nothing is lost in either direction.
  A worker capability is only ever compared by its wire value and is modelled by it.
\<close>

subsection \<open>Job statuses\<close>

datatype job_status =
    Queued
  | PendingCaption
  | PendingWorkflow
  | Preparing
  | Downloading
  | LoadingModel
  | Running
  | Saving
  | Completed
  | Failed
  | Canceled
  | Interrupted
  | UnknownStatus string

fun job_status_str :: "job_status \<Rightarrow> string" where
  "job_status_str Queued = ''queued''"
| "job_status_str PendingCaption = ''pending_caption''"
| "job_status_str PendingWorkflow = ''pending_workflow''"
| "job_status_str Preparing = ''preparing''"
| "job_status_str Downloading = ''downloading''"
| "job_status_str LoadingModel = ''loading_model''"
| "job_status_str Running = ''running''"
| "job_status_str Saving = ''saving''"
| "job_status_str Completed = ''completed''"
| "job_status_str Failed = ''failed''"
| "job_status_str Canceled = ''canceled''"
| "job_status_str Interrupted = ''interrupted''"
| "job_status_str (UnknownStatus value) = value"

definition known_job_status :: "job_status list" where
  "known_job_status = [Queued, PendingCaption, PendingWorkflow, Preparing, Downloading, LoadingModel, Running, Saving, Completed, Failed, Canceled, Interrupted]"

definition parse_job_status :: "string \<Rightarrow> job_status" where
  "parse_job_status value = (case find (\<lambda>v. job_status_str v = value) known_job_status of Some v \<Rightarrow> v | None \<Rightarrow> UnknownStatus value)"

text \<open>Worker-owned, finished, and not yet worker-owned statuses.\<close>

definition active_statuses :: "job_status list" where
  "active_statuses = [Preparing, Downloading, LoadingModel, Running, Saving]"

definition terminal_statuses :: "job_status list" where
  "terminal_statuses = [Completed, Failed, Canceled, Interrupted]"

definition pending_statuses :: "job_status list" where
  "pending_statuses = [Queued, PendingCaption, PendingWorkflow]"

definition is_active_status :: "job_status \<Rightarrow> bool" where
  "is_active_status s \<longleftrightarrow> s \<in> set active_statuses"

definition is_terminal_status :: "job_status \<Rightarrow> bool" where
  "is_terminal_status s \<longleftrightarrow> s \<in> set terminal_statuses"

definition is_pending_status :: "job_status \<Rightarrow> bool" where
  "is_pending_status s \<longleftrightarrow> s \<in> set pending_statuses"

lemmas status_class_defs = is_active_status_def is_terminal_status_def is_pending_status_def
  active_statuses_def terminal_statuses_def pending_statuses_def

lemma status_class_simps [simp]:
  "\<not> is_active_status Queued" "\<not> is_active_status PendingCaption" "\<not> is_active_status PendingWorkflow"
  "is_active_status Preparing"
  "\<not> is_active_status Completed" "\<not> is_active_status Failed" "\<not> is_active_status Canceled" "\<not> is_active_status Interrupted"
  "\<not> is_terminal_status Queued" "\<not> is_terminal_status PendingCaption" "\<not> is_terminal_status PendingWorkflow"
  "\<not> is_terminal_status Preparing"
  "is_terminal_status Completed" "is_terminal_status Failed" "is_terminal_status Canceled" "is_terminal_status Interrupted"
  "is_pending_status Queued" "is_pending_status PendingCaption" "is_pending_status PendingWorkflow"
  "\<not> is_pending_status Preparing"
  "\<not> is_pending_status Completed" "\<not> is_pending_status Failed" "\<not> is_pending_status Canceled" "\<not> is_pending_status Interrupted"
  by (simp_all add: status_class_defs)

lemma active_not_terminal: "is_active_status s \<Longrightarrow> \<not> is_terminal_status s"
  and pending_not_terminal: "is_pending_status s \<Longrightarrow> \<not> is_terminal_status s"
  and pending_not_active: "is_pending_status s \<Longrightarrow> \<not> is_active_status s"
  by (auto simp: status_class_defs)

subsection \<open>Job types\<close>

datatype job_type =
    Placeholder
  | ImageGenerate
  | ImageEdit
  | ImageVqa
  | ImageInterleave
  | VectorGenerate
  | VideoGenerate
  | VideoExtend
  | VideoBridge
  | PersonDetect
  | PersonTrack
  | PersonReplace
  | AudioGenerate
  | PoseDetect
  | KpsExtract
  | ImageUpscale
  | ImageDetail
  | ImageSegment
  | ImageDepth
  | VideoUpscale
  | FrameExtract
  | TimelineExport
  | ModelDownload
  | ModelImport
  | ModelConvert
  | LoraImport
  | LoraDownload
  | LoraTrain
  | ControlTraining
  | TrainingCaption
  | DatasetParquetImport
  | DatasetAnalysis
  | CatalogAnalysis
  | DatasetUpscale
  | DatasetFaceAnalysis
  | DatasetSubjectMask
  | FaceLikenessCompare
  | PromptRefine
  | UnknownJobType string

fun job_type_str :: "job_type \<Rightarrow> string" where
  "job_type_str Placeholder = ''placeholder''"
| "job_type_str ImageGenerate = ''image_generate''"
| "job_type_str ImageEdit = ''image_edit''"
| "job_type_str ImageVqa = ''image_vqa''"
| "job_type_str ImageInterleave = ''image_interleave''"
| "job_type_str VectorGenerate = ''vector_generate''"
| "job_type_str VideoGenerate = ''video_generate''"
| "job_type_str VideoExtend = ''video_extend''"
| "job_type_str VideoBridge = ''video_bridge''"
| "job_type_str PersonDetect = ''person_detect''"
| "job_type_str PersonTrack = ''person_track''"
| "job_type_str PersonReplace = ''person_replace''"
| "job_type_str AudioGenerate = ''audio_generate''"
| "job_type_str PoseDetect = ''pose_detect''"
| "job_type_str KpsExtract = ''kps_extract''"
| "job_type_str ImageUpscale = ''image_upscale''"
| "job_type_str ImageDetail = ''image_detail''"
| "job_type_str ImageSegment = ''image_segment''"
| "job_type_str ImageDepth = ''image_depth''"
| "job_type_str VideoUpscale = ''video_upscale''"
| "job_type_str FrameExtract = ''frame_extract''"
| "job_type_str TimelineExport = ''timeline_export''"
| "job_type_str ModelDownload = ''model_download''"
| "job_type_str ModelImport = ''model_import''"
| "job_type_str ModelConvert = ''model_convert''"
| "job_type_str LoraImport = ''lora_import''"
| "job_type_str LoraDownload = ''lora_download''"
| "job_type_str LoraTrain = ''lora_train''"
| "job_type_str ControlTraining = ''control_training''"
| "job_type_str TrainingCaption = ''training_caption''"
| "job_type_str DatasetParquetImport = ''dataset_parquet_import''"
| "job_type_str DatasetAnalysis = ''dataset_analysis''"
| "job_type_str CatalogAnalysis = ''catalog_analysis''"
| "job_type_str DatasetUpscale = ''dataset_upscale''"
| "job_type_str DatasetFaceAnalysis = ''dataset_face_analysis''"
| "job_type_str DatasetSubjectMask = ''dataset_subject_mask''"
| "job_type_str FaceLikenessCompare = ''face_likeness_compare''"
| "job_type_str PromptRefine = ''prompt_refine''"
| "job_type_str (UnknownJobType value) = value"

definition known_job_type :: "job_type list" where
  "known_job_type = [Placeholder, ImageGenerate, ImageEdit, ImageVqa, ImageInterleave, VectorGenerate, VideoGenerate, VideoExtend, VideoBridge, PersonDetect, PersonTrack, PersonReplace, AudioGenerate, PoseDetect, KpsExtract, ImageUpscale, ImageDetail, ImageSegment, ImageDepth, VideoUpscale, FrameExtract, TimelineExport, ModelDownload, ModelImport, ModelConvert, LoraImport, LoraDownload, LoraTrain, ControlTraining, TrainingCaption, DatasetParquetImport, DatasetAnalysis, CatalogAnalysis, DatasetUpscale, DatasetFaceAnalysis, DatasetSubjectMask, FaceLikenessCompare, PromptRefine]"

definition parse_job_type :: "string \<Rightarrow> job_type" where
  "parse_job_type value = (case find (\<lambda>v. job_type_str v = value) known_job_type of Some v \<Rightarrow> v | None \<Rightarrow> UnknownJobType value)"

subsection \<open>Worker statuses\<close>

datatype worker_status =
    Idle
  | Busy
  | Offline
  | Unhealthy
  | UnknownWorkerStatus string

fun worker_status_str :: "worker_status \<Rightarrow> string" where
  "worker_status_str Idle = ''idle''"
| "worker_status_str Busy = ''busy''"
| "worker_status_str Offline = ''offline''"
| "worker_status_str Unhealthy = ''unhealthy''"
| "worker_status_str (UnknownWorkerStatus value) = value"

definition known_worker_status :: "worker_status list" where
  "known_worker_status = [Idle, Busy, Offline, Unhealthy]"

definition parse_worker_status :: "string \<Rightarrow> worker_status" where
  "parse_worker_status value = (case find (\<lambda>v. worker_status_str v = value) known_worker_status of Some v \<Rightarrow> v | None \<Rightarrow> UnknownWorkerStatus value)"

subsection \<open>Wire values and parsing are inverse\<close>

lemma find_str_Some:
  "find (\<lambda>v. str v = value) vs = Some v \<Longrightarrow> str v = value"
  by (induction vs) (auto split: if_splits)

text \<open>Parsing keeps the text, whether the value is declared or not.\<close>

lemma job_status_str_parse: "job_status_str (parse_job_status value) = value"
  by (auto simp: parse_job_status_def dest: find_str_Some split: option.split)

lemma job_type_str_parse: "job_type_str (parse_job_type value) = value"
  by (auto simp: parse_job_type_def dest: find_str_Some split: option.split)

lemma worker_status_str_parse: "worker_status_str (parse_worker_status value) = value"
  by (auto simp: parse_worker_status_def dest: find_str_Some split: option.split)

text \<open>Every declared value reads back as itself: no two share a wire value.\<close>

lemma find_str_known:
  "distinct (map str vs) \<Longrightarrow> v \<in> set vs \<Longrightarrow> find (\<lambda>w. str w = str v) vs = Some v"
proof (induction vs)
  case (Cons w ws)
  then show ?case by (cases "w = v") (auto simp: rev_image_eqI)
qed simp

lemma distinct_job_status_str: "distinct (map job_status_str known_job_status)"
  by code_simp

lemma distinct_job_type_str: "distinct (map job_type_str known_job_type)"
  by code_simp

lemma distinct_worker_status_str: "distinct (map worker_status_str known_worker_status)"
  by code_simp

lemma parse_job_status_known: "s \<in> set known_job_status \<Longrightarrow> parse_job_status (job_status_str s) = s"
  by (simp add: parse_job_status_def find_str_known [OF distinct_job_status_str])

lemma parse_job_type_known: "t \<in> set known_job_type \<Longrightarrow> parse_job_type (job_type_str t) = t"
  by (simp add: parse_job_type_def find_str_known [OF distinct_job_type_str])

lemma parse_worker_status_known: "s \<in> set known_worker_status \<Longrightarrow> parse_worker_status (worker_status_str s) = s"
  by (simp add: parse_worker_status_def find_str_known [OF distinct_worker_status_str])

text \<open>The known statuses split into the three classes.\<close>

lemma known_job_status_classes:
  "s \<in> set known_job_status \<longleftrightarrow> is_pending_status s \<or> is_active_status s \<or> is_terminal_status s"
  by (auto simp: known_job_status_def status_class_defs)

end
