(* ===== verification/JobRows.thy ===== *)
theory JobRows
  imports Prelude Clock Contracts Json
begin

text \<open>
  The tables of \<^verbatim>\<open>crates/sceneworks-core/src/jobs_store.rs\<close>: the row of \<open>jobs\<close>, the row of
  \<open>workers\<close>, the update trigger that numbers every change of a job row, and one setter per
  \<open>update jobs set ...\<close> statement of the file. The relation \<open>job_sql\<close> has one rule per such
  statement with the guard under which the store runs it; the operations of the later
  theories are shown to move the table by these rules only, so an invariant of rows is
  proved once, over the rules.

  Status, type and worker status columns hold the parsed wire value; JSON columns hold the
  decoded object; timestamps are the stored text; SQL integers and \<open>real\<close>s are \<open>int\<close> and
  \<open>rat\<close>. \<open>NULL\<close> is \<open>None\<close>.
\<close>

subsection \<open>Errors\<close>

text \<open>I/O, locking and JSON codec failures roll the transaction back and are not modelled; the one
  SQLite error is a violated primary key.\<close>

datatype jobs_error =
    NotFound string
  | InvalidStatus string
  | InvalidNumber string
  | InvalidRequestedGpu string
  | RetryLimit int
  | TerminalJobImmutable string string
  | NotJobOwner string
  | StaleClaimRoutingFacts string int int int int
  | ClaimRoutingFactsMismatch string int
  | InvalidInitialStatus string
  | Sqlite string

type_synonym 'a jobs_result = "jobs_error + 'a"

definition result_bind :: "'e + 'a \<Rightarrow> ('a \<Rightarrow> 'e + 'b) \<Rightarrow> 'e + 'b" where
  "result_bind m f = (case m of Inl e \<Rightarrow> Inl e | Inr a \<Rightarrow> f a)"

lemma result_bind_simps [simp]:
  "result_bind (Inl e) f = Inl e" "result_bind (Inr a) f = f a"
  by (simp_all add: result_bind_def)

lemma result_bind_Inr: "result_bind m f = Inr b \<longleftrightarrow> (\<exists>a. m = Inr a \<and> f a = Inr b)"
  by (cases m) auto

definition ok_or :: "'e \<Rightarrow> 'a option \<Rightarrow> 'e + 'a" where
  "ok_or e v = (case v of None \<Rightarrow> Inl e | Some a \<Rightarrow> Inr a)"

lemma ok_or_simps [simp]: "ok_or e None = Inl e" "ok_or e (Some a) = Inr a"
  by (simp_all add: ok_or_def)

lemma ok_or_Inr: "ok_or e v = Inr a \<longleftrightarrow> v = Some a"
  by (cases v) auto

subsection \<open>The persisted claim projection\<close>

definition CLAIM_ROUTING_FACTS_VERSION :: int where
  "CLAIM_ROUTING_FACTS_VERSION = 3"

definition MAX_JOB_ATTEMPTS :: int where
  "MAX_JOB_ATTEMPTS = 5"

record claim_routing_facts =
  f_job_type :: job_type
  f_mlx_eligible :: bool
  f_candle_eligible :: bool
  f_candle_pose_reject :: bool
  f_training_mlx_only :: bool
  f_seedvr2_upscale :: bool
  f_required_capability :: string
  f_real_training :: bool
  f_model_keys :: "string list"

text \<open>The columns that persist them: the model keys in four nullable columns.\<close>

record claim_columns =
  c_mlx_eligible :: bool
  c_candle_eligible :: bool
  c_candle_pose_reject :: bool
  c_training_mlx_only :: bool
  c_seedvr2_upscale :: bool
  c_required_capability :: string
  c_real_training :: bool
  c_model_key_1 :: "string option"
  c_model_key_2 :: "string option"
  c_model_key_3 :: "string option"
  c_model_key_4 :: "string option"

definition model_key :: "claim_routing_facts \<Rightarrow> nat \<Rightarrow> string option" where
  "model_key facts index =
     (if index < length (f_model_keys facts) then Some (f_model_keys facts ! index) else None)"

definition facts_columns :: "claim_routing_facts \<Rightarrow> claim_columns" where
  "facts_columns facts = \<lparr>
     c_mlx_eligible = f_mlx_eligible facts,
     c_candle_eligible = f_candle_eligible facts,
     c_candle_pose_reject = f_candle_pose_reject facts,
     c_training_mlx_only = f_training_mlx_only facts,
     c_seedvr2_upscale = f_seedvr2_upscale facts,
     c_required_capability = f_required_capability facts,
     c_real_training = f_real_training facts,
     c_model_key_1 = model_key facts 0,
     c_model_key_2 = model_key facts 1,
     c_model_key_3 = model_key facts 2,
     c_model_key_4 = model_key facts 3 \<rparr>"

text \<open>The default values of the columns in a row no projection was written to.\<close>

definition default_columns :: claim_columns where
  "default_columns = \<lparr>
     c_mlx_eligible = False, c_candle_eligible = False, c_candle_pose_reject = False,
     c_training_mlx_only = False, c_seedvr2_upscale = False, c_required_capability = [],
     c_real_training = False, c_model_key_1 = None, c_model_key_2 = None,
     c_model_key_3 = None, c_model_key_4 = None \<rparr>"

definition columns_facts :: "job_type \<Rightarrow> claim_columns \<Rightarrow> claim_routing_facts" where
  "columns_facts t c = \<lparr>
     f_job_type = t,
     f_mlx_eligible = c_mlx_eligible c,
     f_candle_eligible = c_candle_eligible c,
     f_candle_pose_reject = c_candle_pose_reject c,
     f_training_mlx_only = c_training_mlx_only c,
     f_seedvr2_upscale = c_seedvr2_upscale c,
     f_required_capability = c_required_capability c,
     f_real_training = c_real_training c,
     f_model_keys = concat (map (\<lambda>k. case k of None \<Rightarrow> [] | Some key \<Rightarrow> [key])
       [c_model_key_1 c, c_model_key_2 c, c_model_key_3 c, c_model_key_4 c]) \<rparr>"

lemma columns_facts_inverse:
  assumes "length (f_model_keys facts) \<le> 4" and "f_job_type facts = t"
  shows "columns_facts t (facts_columns facts) = facts"
proof -
  obtain ks where ks: "f_model_keys facts = ks" by simp
  with assms(1) have "length ks \<le> 4" by simp
  then consider "ks = []" | k1 where "ks = [k1]" | k1 k2 where "ks = [k1, k2]"
    | k1 k2 k3 where "ks = [k1, k2, k3]" | k1 k2 k3 k4 where "ks = [k1, k2, k3, k4]"
    by (auto simp: numeral_eq_Suc le_Suc_eq length_Suc_conv)
  then show ?thesis
    by cases (use assms ks in \<open>auto simp: columns_facts_def facts_columns_def model_key_def numeral_eq_Suc\<close>)
qed

subsection \<open>Rows\<close>

record job_row =
  j_id :: string
  j_type :: job_type
  j_status :: job_status
  j_queue_rank :: int
  j_project_id :: "string option"
  j_project_name :: "string option"
  j_payload :: json_object
  j_result :: json_object
  j_requested_gpu :: string
  j_assigned_gpu :: "string option"
  j_worker_id :: "string option"
  j_progress :: rat
  j_stage :: string
  j_message :: string
  j_error :: "string option"
  j_eta_seconds :: "rat option"
  j_attempts :: int
  j_source_job_id :: "string option"
  j_duplicate_of_job_id :: "string option"
  j_cancel_requested :: bool
  j_created_at :: string
  j_updated_at :: string
  j_started_at :: "string option"
  j_completed_at :: "string option"
  j_canceled_at :: "string option"
  j_last_heartbeat_at :: "string option"
  j_model_provenance :: "json option"
  j_download_binding :: "json option"
  j_claim_facts_version :: int
  j_claim_payload_revision :: int
  j_claim :: claim_columns
  j_peak_gpu_memory_pct :: "rat option"
  j_peak_gpu_load_pct :: "rat option"
  j_backend :: "string option"
  j_revision :: int
  j_payload_revision :: int
  j_side_effects_pending :: bool
  j_side_effects_retry_count :: int
  j_side_effects_retry_at :: int
  j_cleared_at :: "string option"

record worker_utilization =
  memory_total_mb :: "nat option"
  memory_used_mb :: "nat option"
  memory_free_mb :: "nat option"
  gpu_load_percent :: "rat option"

record worker_row =
  w_id :: string
  w_gpu_id :: string
  w_gpu_name :: "string option"
  w_status :: worker_status
  w_current_job_id :: "string option"
  w_capabilities :: "string list"
  w_loaded_models :: "string list"
  w_utilization :: "worker_utilization option"
  w_status_reason :: "string option"
  w_registered_at :: string
  w_last_seen_at :: string

text \<open>
  The structured metrics of a run: every settings, timing and hardware column of
  \<open>generation_metrics\<close> is nullable, so a row maps each column to an optional value.
  A history row keeps the identity of the job it was taken from.
\<close>

datatype metric_column =
    MModel | MQuantLabel | MQuantBits | MSampler | MScheduler | MSchedulerShift | MSteps
  | MGuidanceScale | MTrueCfgScale | MGuidanceMethod | MUsePid | MPidTarget | MWidth | MHeight
  | MSeed | MLoras | MLoadMs | MSampleMs | MDecodeMs | MTotalMs | MPeakMemoryBytes
  | MPeakMemoryPct | MPeakGpuLoadPct | MBackend | MImageCount | MSourceCodec
  | MExecutionRepresentation | MVedaExecution

text \<open>A table of the columns is finite, so rows of metrics can be compared.\<close>

instantiation metric_column :: enum
begin

definition enum_metric_column :: "metric_column list" where
  "enum_metric_column =
     [MModel, MQuantLabel, MQuantBits, MSampler, MScheduler, MSchedulerShift, MSteps,
      MGuidanceScale, MTrueCfgScale, MGuidanceMethod, MUsePid, MPidTarget, MWidth, MHeight,
      MSeed, MLoras, MLoadMs, MSampleMs, MDecodeMs, MTotalMs, MPeakMemoryBytes,
      MPeakMemoryPct, MPeakGpuLoadPct, MBackend, MImageCount, MSourceCodec,
      MExecutionRepresentation, MVedaExecution]"

definition enum_all_metric_column :: "(metric_column \<Rightarrow> bool) \<Rightarrow> bool" where
  "enum_all_metric_column P = list_all P enum_class.enum"

definition enum_ex_metric_column :: "(metric_column \<Rightarrow> bool) \<Rightarrow> bool" where
  "enum_ex_metric_column P = list_ex P enum_class.enum"

instance
proof
  show all: "(UNIV :: metric_column set) = set enum_class.enum"
  proof (intro equalityI subsetI)
    fix c :: metric_column
    show "c \<in> set enum_class.enum" by (cases c) (simp_all add: enum_metric_column_def)
  qed simp
  show "distinct (enum_class.enum :: metric_column list)" by (simp add: enum_metric_column_def)
  show "enum_class.enum_all P = Ball UNIV P" for P :: "metric_column \<Rightarrow> bool"
    by (simp add: enum_all_metric_column_def list_all_iff all)
  show "enum_class.enum_ex P = Bex UNIV P" for P :: "metric_column \<Rightarrow> bool"
    by (simp add: enum_ex_metric_column_def list_ex_iff all)
qed

end

record metrics_row =
  m_job_id :: string
  m_values :: "metric_column \<Rightarrow> json option"
  m_updated_at :: string

record history_row =
  h_metrics :: metrics_row
  h_type :: job_type
  h_status :: job_status
  h_project_id :: "string option"
  h_created_at :: string

record jobs_store =
  s_jobs :: "job_row list"
  s_workers :: "worker_row list"
  s_metrics :: "metrics_row list"
  s_history :: "history_row list"
  s_session_started_at :: "string option"

abbreviation find_job :: "string \<Rightarrow> jobs_store \<Rightarrow> job_row option" where
  "find_job job_id s \<equiv> lookup_row j_id job_id (s_jobs s)"

abbreviation find_worker :: "string \<Rightarrow> jobs_store \<Rightarrow> worker_row option" where
  "find_worker worker_id s \<equiv> lookup_row w_id worker_id (s_workers s)"

definition get_job :: "string \<Rightarrow> jobs_store \<Rightarrow> job_row jobs_result" where
  "get_job job_id s = ok_or (NotFound job_id) (find_job job_id s)"

definition get_worker :: "string \<Rightarrow> jobs_store \<Rightarrow> worker_row jobs_result" where
  "get_worker worker_id s = ok_or (NotFound worker_id) (find_worker worker_id s)"

subsection \<open>The update trigger\<close>

text \<open>
  \<open>jobs_revision_after_update\<close>: after every update that left \<open>revision\<close> alone, which no
  statement of the store sets, the row gets the next revision, and the next payload
  revision when the payload text changed.
\<close>

definition after_update :: "job_row \<Rightarrow> job_row \<Rightarrow> job_row" where
  "after_update old new =
     (if j_revision new = j_revision old
      then new\<lparr> j_revision := j_revision old + 1,
                j_payload_revision :=
                  (if j_payload new \<noteq> j_payload old then j_payload_revision old + 1
                   else j_payload_revision new) \<rparr>
      else new)"

definition update_jobs :: "(job_row \<Rightarrow> bool) \<Rightarrow> (job_row \<Rightarrow> job_row) \<Rightarrow> jobs_store \<Rightarrow> jobs_store" where
  "update_jobs P f s = s\<lparr> s_jobs := sql_update P (\<lambda>r. after_update r (f r)) (s_jobs s) \<rparr>"

definition update_workers :: "(worker_row \<Rightarrow> bool) \<Rightarrow> (worker_row \<Rightarrow> worker_row) \<Rightarrow> jobs_store \<Rightarrow> jobs_store" where
  "update_workers P f s = s\<lparr> s_workers := sql_update P f (s_workers s) \<rparr>"

lemma update_jobs_sel [simp]:
  "s_jobs (update_jobs P f s) = sql_update P (\<lambda>r. after_update r (f r)) (s_jobs s)"
  "s_workers (update_jobs P f s) = s_workers s"
  "s_metrics (update_jobs P f s) = s_metrics s"
  "s_history (update_jobs P f s) = s_history s"
  "s_session_started_at (update_jobs P f s) = s_session_started_at s"
  by (simp_all add: update_jobs_def)

lemma update_workers_sel [simp]:
  "s_workers (update_workers P f s) = sql_update P f (s_workers s)"
  "s_jobs (update_workers P f s) = s_jobs s"
  "s_metrics (update_workers P f s) = s_metrics s"
  "s_history (update_workers P f s) = s_history s"
  "s_session_started_at (update_workers P f s) = s_session_started_at s"
  by (simp_all add: update_workers_def)

subsection \<open>Setters\<close>

text \<open>Text of the source that leaves ASCII, as its UTF-8 bytes.\<close>

definition arrow_bytes :: string where
  "arrow_bytes = [CHR 0xE2, CHR 0x86, CHR 0x92]"

definition dash_bytes :: string where
  "dash_bytes = [CHR 0xE2, CHR 0x80, CHR 0x94]"

text \<open>
  A terminal transition taken by the store itself rather than reported by the owner: status
  and stage, message and error, the completion time, and the owner released.
\<close>

definition set_released :: "job_status \<Rightarrow> string \<Rightarrow> string \<Rightarrow> string \<Rightarrow> job_row \<Rightarrow> job_row" where
  "set_released status now message error r = r\<lparr>
     j_status := status, j_stage := job_status_str status, j_message := message,
     j_error := Some error, j_completed_at := Some now, j_updated_at := now,
     j_worker_id := None \<rparr>"

definition set_queued :: "string \<Rightarrow> string \<Rightarrow> job_row \<Rightarrow> job_row" where
  "set_queued now message r = r\<lparr>
     j_status := Queued, j_stage := ''queued'', j_message := message, j_updated_at := now \<rparr>"

definition set_projection :: "claim_routing_facts \<Rightarrow> int \<Rightarrow> job_row \<Rightarrow> job_row" where
  "set_projection facts payload_revision r = r\<lparr>
     j_claim_facts_version := CLAIM_ROUTING_FACTS_VERSION,
     j_claim_payload_revision := payload_revision,
     j_claim := facts_columns facts \<rparr>"

definition set_payload :: "json_object \<Rightarrow> claim_routing_facts \<Rightarrow> string \<Rightarrow> job_row \<Rightarrow> job_row" where
  "set_payload payload facts now r =
     set_projection facts (j_payload_revision r + 1)
       (r\<lparr> j_payload := payload, j_updated_at := now \<rparr>)"

definition set_promoted :: "json_object \<Rightarrow> claim_routing_facts \<Rightarrow> string \<Rightarrow> job_row \<Rightarrow> job_row" where
  "set_promoted payload facts now r =
     set_queued now ''Waiting for an available worker.'' (set_payload payload facts now r)"

definition set_terminated :: "job_status \<Rightarrow> string \<Rightarrow> string option \<Rightarrow> string \<Rightarrow> job_row \<Rightarrow> job_row" where
  "set_terminated status message error now r = r\<lparr>
     j_status := status, j_stage := job_status_str status, j_progress := 1,
     j_message := message, j_error := error, j_completed_at := Some now,
     j_canceled_at := (if status = Canceled then Some now else j_canceled_at r),
     j_updated_at := now \<rparr>"

definition set_canceled :: "string \<Rightarrow> job_row \<Rightarrow> job_row" where
  "set_canceled now r = r\<lparr>
     j_status := Canceled, j_stage := ''canceled'', j_progress := 1,
     j_cancel_requested := True, j_message := ''Canceled before a worker started.'',
     j_canceled_at := Some now, j_completed_at := Some now, j_updated_at := now \<rparr>"

definition set_cancel_requested :: "string \<Rightarrow> job_row \<Rightarrow> job_row" where
  "set_cancel_requested now r = r\<lparr>
     j_cancel_requested := True,
     j_message := ''Cancellation requested. Waiting for worker acknowledgement.'',
     j_updated_at := now \<rparr>"

definition set_rank :: "int \<Rightarrow> string \<Rightarrow> job_row \<Rightarrow> job_row" where
  "set_rank rank now r = r\<lparr> j_queue_rank := rank, j_updated_at := now \<rparr>"

definition set_cleared :: "string \<Rightarrow> job_row \<Rightarrow> job_row" where
  "set_cleared now r = r\<lparr> j_cleared_at := Some now \<rparr>"

definition set_heartbeat :: "string \<Rightarrow> job_row \<Rightarrow> job_row" where
  "set_heartbeat now r = r\<lparr> j_last_heartbeat_at := Some now, j_updated_at := now \<rparr>"

definition set_binding :: "json \<Rightarrow> job_row \<Rightarrow> job_row" where
  "set_binding binding r = r\<lparr> j_download_binding := Some binding \<rparr>"

definition set_stamped :: "json_object \<Rightarrow> job_row \<Rightarrow> job_row" where
  "set_stamped payload r = r\<lparr>
     j_payload := payload, j_claim_payload_revision := j_payload_revision r + 1 \<rparr>"

text \<open>SQL's \<open>coalesce(a, b)\<close>\<close>

definition coalesce :: "'a option \<Rightarrow> 'a option \<Rightarrow> 'a option" where
  "coalesce a b = (case a of None \<Rightarrow> b | Some v \<Rightarrow> Some v)"

lemma coalesce_simps [simp]: "coalesce None b = b" "coalesce (Some a) b = Some a"
  by (simp_all add: coalesce_def)

lemma coalesce_set: "a \<noteq> None \<Longrightarrow> coalesce a b = a" "coalesce a (Some v) \<noteq> None"
  by (auto simp: coalesce_def split: option.split)

definition set_claimed :: "string \<Rightarrow> string \<Rightarrow> string \<Rightarrow> job_row \<Rightarrow> job_row" where
  "set_claimed assigned_gpu worker_id now r = r\<lparr>
     j_status := Preparing, j_assigned_gpu := Some assigned_gpu, j_worker_id := Some worker_id,
     j_stage := ''preparing'', j_message := ''Worker claimed job.'',
     j_started_at := coalesce (j_started_at r) (Some now),
     j_updated_at := now \<rparr>"

text \<open>\<open>case when ?p is null then peak else max(coalesce(peak, 0), ?p) end\<close>\<close>

fun running_peak :: "rat option \<Rightarrow> rat option \<Rightarrow> rat option" where
  "running_peak peak None = peak"
| "running_peak None (Some sample) = Some (max 0 sample)"
| "running_peak (Some peak) (Some sample) = Some (max peak sample)"

record progress_write =
  p_status :: job_status
  p_stage :: string
  p_progress :: rat
  p_message :: string
  p_error :: "string option"
  p_result :: "json_object option"
  p_eta_seconds :: "rat option"
  p_completed_at :: "string option"
  p_canceled_at :: "string option"
  p_now :: string
  p_peak_memory :: "rat option"
  p_peak_load :: "rat option"
  p_backend :: "string option"
  p_side_effects :: bool

definition set_progress :: "progress_write \<Rightarrow> job_row \<Rightarrow> job_row" where
  "set_progress p r = r\<lparr>
     j_status := p_status p, j_stage := p_stage p, j_progress := p_progress p,
     j_message := p_message p, j_error := p_error p,
     j_result := (case p_result p of None \<Rightarrow> j_result r | Some result \<Rightarrow> result),
     j_eta_seconds := p_eta_seconds p,
     j_completed_at := coalesce (p_completed_at p) (j_completed_at r),
     j_canceled_at := coalesce (p_canceled_at p) (j_canceled_at r),
     j_updated_at := p_now p,
     j_peak_gpu_memory_pct := running_peak (j_peak_gpu_memory_pct r) (p_peak_memory p),
     j_peak_gpu_load_pct := running_peak (j_peak_gpu_load_pct r) (p_peak_load p),
     j_backend := coalesce (j_backend r) (p_backend p),
     j_side_effects_pending := p_side_effects p,
     j_side_effects_retry_count := 0,
     j_side_effects_retry_at := 0 \<rparr>"

definition set_deferred :: "int \<Rightarrow> int \<Rightarrow> job_row \<Rightarrow> job_row" where
  "set_deferred retry_count retry_at r = r\<lparr>
     j_side_effects_retry_count := retry_count, j_side_effects_retry_at := retry_at \<rparr>"

definition set_result :: "json_object \<Rightarrow> string \<Rightarrow> bool \<Rightarrow> job_row \<Rightarrow> job_row" where
  "set_result result now clear r = r\<lparr>
     j_result := result, j_updated_at := now,
     j_side_effects_pending := (if clear then False else j_side_effects_pending r),
     j_side_effects_retry_count := (if clear then 0 else j_side_effects_retry_count r),
     j_side_effects_retry_at := (if clear then 0 else j_side_effects_retry_at r) \<rparr>"

lemmas setter_defs = set_released_def set_queued_def set_projection_def set_payload_def
  set_promoted_def set_terminated_def set_canceled_def set_cancel_requested_def set_rank_def
  set_cleared_def set_heartbeat_def set_binding_def set_stamped_def set_claimed_def
  set_progress_def set_deferred_def set_result_def

end
