(* ===== verification/Routing.thy ===== *)
theory Routing
  imports JobRows
begin

text \<open>
  Which worker may run which job: the payload-derived claim facts
  (\<open>ClaimRoutingFacts\<close>), the worker-compatibility policy, the capability a job requires,
  and the dispatch score. The eligibility predicates that only consult one payload field
  (captioning, upscaling, image detail, understanding, native-only training kernels) are
  translated; the ones that walk the model catalog under
  \<^verbatim>\<open>crates/sceneworks-core/src/jobs_store/routing\<close> are fields of \<open>routing_policy\<close>, functions
  of the job type and the payload, and every theorem holds for all of them.
\<close>

subsection \<open>Job classes\<close>

definition NON_GPU_JOB_TYPES :: "job_type list" where
  "NON_GPU_JOB_TYPES = [ModelDownload, ModelImport, ModelConvert, LoraImport, LoraDownload,
     DatasetParquetImport]"

definition is_non_gpu_job_type :: "job_type \<Rightarrow> bool" where
  "is_non_gpu_job_type t \<longleftrightarrow> t \<in> set NON_GPU_JOB_TYPES"

definition job_requires_gpu :: "job_type \<Rightarrow> bool" where
  "job_requires_gpu t \<longleftrightarrow> t \<in> {ImageGenerate, ImageEdit, ImageVqa, ImageInterleave, VectorGenerate,
     ImageUpscale, ImageDetail, ImageSegment, ImageDepth, VideoGenerate, VideoExtend, VideoBridge,
     VideoUpscale, PersonReplace, LoraTrain, ControlTraining, TrainingCaption, DatasetAnalysis,
     CatalogAnalysis, DatasetUpscale, DatasetFaceAnalysis, DatasetSubjectMask, FaceLikenessCompare}"

definition job_type_automatically_jumps_queue :: "job_type \<Rightarrow> bool" where
  "job_type_automatically_jumps_queue t \<longleftrightarrow> t = PromptRefine"

definition is_video_job_type :: "job_type \<Rightarrow> bool" where
  "is_video_job_type t \<longleftrightarrow> t \<in> {VideoGenerate, PersonReplace, VideoExtend, VideoBridge}"

lemma non_gpu_not_requires_gpu: "is_non_gpu_job_type t \<Longrightarrow> \<not> job_requires_gpu t"
  by (auto simp: is_non_gpu_job_type_def NON_GPU_JOB_TYPES_def job_requires_gpu_def)

definition normalize_requested_gpu :: "string \<Rightarrow> string" where
  "normalize_requested_gpu value =
     (let trimmed = trim value in
      if trimmed = [] then ''auto''
      else if eq_ignore_ascii_case trimmed ''auto'' \<or> eq_ignore_ascii_case trimmed ''cpu''
      then lowercase trimmed else trimmed)"

definition is_mlx_gpu :: "string \<Rightarrow> bool" where
  "is_mlx_gpu gpu_id \<longleftrightarrow> eq_ignore_ascii_case gpu_id ''mlx''"

definition is_apple_unified_gpu_id :: "string \<Rightarrow> bool" where
  "is_apple_unified_gpu_id gpu_id \<longleftrightarrow> eq_ignore_ascii_case gpu_id ''mlx'' \<or> eq_ignore_ascii_case gpu_id ''mps''"

definition worker_is_candle :: "worker_row \<Rightarrow> bool" where
  "worker_is_candle w \<longleftrightarrow> ''candle'' \<in> set (w_capabilities w)"

subsection \<open>The catalog predicates\<close>

type_synonym eligibility = "job_type \<Rightarrow> json_object \<Rightarrow> bool"

record routing_policy =
  image_job_is_mlx_eligible :: eligibility
  video_job_is_mlx_eligible :: eligibility
  training_job_is_mlx_eligible :: eligibility
  image_job_is_candle_eligible :: eligibility
  video_job_is_candle_eligible :: eligibility
  training_job_is_candle_eligible :: eligibility
  image_job_candle_pose_reject :: eligibility
  flux3_tier_capability :: "json_object \<Rightarrow> string option"
  is_minimax_h3_model :: "string \<Rightarrow> bool"
  mac_rust_unsupported :: "job_type \<Rightarrow> json_object \<Rightarrow> string option"
  candle_unsupported :: "job_type \<Rightarrow> json_object \<Rightarrow> string option"

definition engine_of :: "json_object \<Rightarrow> string \<Rightarrow> string" where
  "engine_of payload absent =
     (case get_str payload ''engine'' of None \<Rightarrow> absent | Some e \<Rightarrow> lowercase (trim e))"

definition is_iris_engine :: "string \<Rightarrow> bool" where
  "is_iris_engine engine \<longleftrightarrow> eq_ignore_ascii_case (trim engine) ''iris''"

definition nonempty_string_or :: "json_object \<Rightarrow> string \<Rightarrow> string \<Rightarrow> string" where
  "nonempty_string_or payload key absent =
     (case get_str payload key of
        None \<Rightarrow> absent
      | Some value \<Rightarrow> if trim value = [] then absent else trim value)"

definition image_detail_native_eligible :: eligibility where
  "image_detail_native_eligible t payload \<longleftrightarrow> t = ImageDetail \<and>
     nonempty_string_or payload ''model'' ''realvisxl''
       \<in> {''sdxl'', ''realvisxl'', ''illustrious_xl_v1'', ''illustrious_xl_v2''}"

definition job_is_mlx_eligible :: "routing_policy \<Rightarrow> eligibility" where
  "job_is_mlx_eligible pol t payload \<longleftrightarrow>
     image_job_is_mlx_eligible pol t payload \<or> image_detail_native_eligible t payload"

definition SENSENOVA_MODEL_IDS :: "string list" where
  "SENSENOVA_MODEL_IDS = [''sensenova_u1_8b'', ''sensenova_u1_8b_infographic_v2'',
     ''sensenova_u1_8b_infographic_v3'', ''sensenova_u1_8b_fast'',
     ''sensenova_u1_8b_infographic_v2_fast'', ''sensenova_u1_8b_infographic_v3_fast'']"

definition understanding_job_is_mlx_eligible :: eligibility where
  "understanding_job_is_mlx_eligible t payload \<longleftrightarrow> (t = ImageVqa \<or> t = ImageInterleave) \<and>
     nonempty_string_or payload ''model'' ''sensenova_u1_8b'' \<in> set SENSENOVA_MODEL_IDS"

definition caption_job_is_mlx_eligible :: eligibility where
  "caption_job_is_mlx_eligible t payload \<longleftrightarrow> t = TrainingCaption \<and>
     (case get_str payload ''captioner'' of None \<Rightarrow> False | Some c \<Rightarrow> trim c = ''joy_caption'')"

definition upscale_job_is_mlx_eligible :: eligibility where
  "upscale_job_is_mlx_eligible t payload \<longleftrightarrow> t = ImageUpscale \<and>
     (let engine = engine_of payload ''real-esrgan'' in
      engine \<in> {'''', ''real-esrgan'', ''realesrgan'', ''real_esrgan'', ''seedvr2''}
      \<or> is_iris_engine engine)"

definition video_upscale_job_is_mlx_eligible :: eligibility where
  "video_upscale_job_is_mlx_eligible t payload \<longleftrightarrow> t = VideoUpscale \<and>
     engine_of payload ''seedvr2'' \<in> {'''', ''seedvr2'', ''seedvr2_3b''}"

definition upscale_job_is_candle_eligible :: eligibility where
  "upscale_job_is_candle_eligible = upscale_job_is_mlx_eligible"

definition video_upscale_job_is_candle_eligible :: eligibility where
  "video_upscale_job_is_candle_eligible = video_upscale_job_is_mlx_eligible"

definition upscale_job_requests_seedvr2 :: eligibility where
  "upscale_job_requests_seedvr2 t payload \<longleftrightarrow> t = ImageUpscale \<and>
     (case get_str payload ''engine'' of None \<Rightarrow> False
      | Some e \<Rightarrow> eq_ignore_ascii_case (trim e) ''seedvr2'' \<or> is_iris_engine e)"

definition MLX_ONLY_TRAINING_KERNELS :: "string list" where
  "MLX_ONLY_TRAINING_KERNELS = [''moss_image_lora'', ''ltx_mlx_lora'', ''krea_lora'', ''sd3_lora'',
     ''anima_lora'', ''krea_control'', ''mage_flow_lora'', ''iris_train'', ''qwen_image_2_1_lora'',
     ''qwen_image_2_1_edit_lora'', ''flux3_klein_lora'', ''flux3_klein_edit_lora'']"

definition training_kernel_is_mlx_only :: eligibility where
  "training_kernel_is_mlx_only t payload \<longleftrightarrow> (t = LoraTrain \<or> t = ControlTraining) \<and>
     (case Option.bind (Option.bind (get_object payload ''plan'')
            (\<lambda>plan. get_object plan ''target'')) (\<lambda>target. get_str target ''kernel'') of
        None \<Rightarrow> False
      | Some kern \<Rightarrow> kern \<in> set MLX_ONLY_TRAINING_KERNELS)"

definition job_is_any_mlx_eligible :: "routing_policy \<Rightarrow> eligibility" where
  "job_is_any_mlx_eligible pol t payload \<longleftrightarrow>
     job_is_mlx_eligible pol t payload \<or> video_job_is_mlx_eligible pol t payload
     \<or> video_upscale_job_is_mlx_eligible t payload \<or> training_job_is_mlx_eligible pol t payload
     \<or> caption_job_is_mlx_eligible t payload \<or> understanding_job_is_mlx_eligible t payload"

definition job_is_any_candle_eligible :: "routing_policy \<Rightarrow> eligibility" where
  "job_is_any_candle_eligible pol t payload \<longleftrightarrow>
     image_job_is_candle_eligible pol t payload \<or> video_job_is_candle_eligible pol t payload
     \<or> upscale_job_is_candle_eligible t payload \<or> video_upscale_job_is_candle_eligible t payload
     \<or> caption_job_is_mlx_eligible t payload \<or> understanding_job_is_mlx_eligible t payload
     \<or> training_job_is_candle_eligible pol t payload"

definition video_request_is_claimable_on_platform :: "routing_policy \<Rightarrow> job_type \<Rightarrow> json_object \<Rightarrow> string \<Rightarrow> bool" where
  "video_request_is_claimable_on_platform pol t payload os \<longleftrightarrow>
     os \<in> {''macos'', ''darwin''} \<or> video_job_is_candle_eligible pol t payload"

definition video_job_is_platform_unreachable :: "routing_policy \<Rightarrow> job_row \<Rightarrow> string \<Rightarrow> bool" where
  "video_job_is_platform_unreachable pol job os \<longleftrightarrow> is_video_job_type (j_type job) \<and>
     \<not> video_request_is_claimable_on_platform pol (j_type job) (j_payload job) os"

subsection \<open>Claim facts\<close>

definition person_job_is_preview :: "job_type \<Rightarrow> json_object \<Rightarrow> bool" where
  "person_job_is_preview t payload \<longleftrightarrow>
     (t = PersonDetect \<or> t = PersonTrack) \<and> get_bool payload ''preview'' = Some True"

definition FLUX3_TIERED_MODEL_IDS :: "string list" where
  "FLUX3_TIERED_MODEL_IDS = [''flux3_klein'', ''flux3_klein_base'']"

definition flux3_required_worker_capability :: "routing_policy \<Rightarrow> json_object \<Rightarrow> string option" where
  "flux3_required_worker_capability pol payload =
     (case get_str payload ''model'' of
        None \<Rightarrow> None
      | Some model \<Rightarrow>
          if model \<in> set FLUX3_TIERED_MODEL_IDS then flux3_tier_capability pol payload else None)"

definition starts_with :: "string \<Rightarrow> string \<Rightarrow> bool" where
  "starts_with prefix s \<longleftrightarrow> take (length prefix) s = prefix"

definition FLUX3_CONVERSION_PREFIX :: string where
  "FLUX3_CONVERSION_PREFIX = ''flux3-''"

definition required_capability :: "routing_policy \<Rightarrow> job_type \<Rightarrow> json_object \<Rightarrow> string" where
  "required_capability pol t payload =
     (if t = VectorGenerate then
        (case get_str payload ''mode'' of
           Some mode \<Rightarrow> if mode = ''image_to_svg'' then ''vector_image_to_svg''
             else if mode = ''text_to_svg'' then ''vector_text_to_svg''
             else job_type_str VectorGenerate
         | None \<Rightarrow> job_type_str VectorGenerate)
      else if t = PersonDetect \<and> person_job_is_preview t payload then ''person_detect_preview''
      else if t = PersonTrack \<and> person_job_is_preview t payload then ''person_track_preview''
      else if t = ControlTraining then ''lora_train''
      else if t = DatasetSubjectMask then ''image_segment''
      else if t = ModelDownload \<and>
        (case Option.bind (Option.bind (fmlookup payload ''localDerivation'') (json_get ''conversion'')) as_str of
           None \<Rightarrow> False | Some conversion \<Rightarrow> starts_with FLUX3_CONVERSION_PREFIX conversion)
        then ''image_generate''
      else if t = ModelDownload \<and> contains_key payload ''localDerivation'' then ''audio_generate''
      else if t = ImageGenerate \<or> t = ImageEdit then
        (case flux3_required_worker_capability pol payload of
           None \<Rightarrow> job_type_str t | Some capability \<Rightarrow> capability)
      else job_type_str t)"

definition is_real_training_job :: "job_type \<Rightarrow> json_object \<Rightarrow> bool" where
  "is_real_training_job t payload \<longleftrightarrow>
     t = ControlTraining \<or> (t = LoraTrain \<and> get_bool payload ''dryRun'' = Some False)"

definition push_string_value :: "string list \<Rightarrow> json option \<Rightarrow> string list" where
  "push_string_value output value =
     (case Option.bind value as_str of
        None \<Rightarrow> output
      | Some s \<Rightarrow> if s = [] then output else output @ [s])"

definition desired_model_keys :: "json_object \<Rightarrow> string list" where
  "desired_model_keys payload =
     (let keys = push_string_value [] (fmlookup payload ''model'');
          keys = push_string_value keys (fmlookup payload ''repo'');
          keys = (case get_object payload ''advanced'' of
                    None \<Rightarrow> keys
                  | Some advanced \<Rightarrow>
                      push_string_value (push_string_value keys (fmlookup advanced ''modelRepo''))
                        (fmlookup advanced ''repo''))
      in remdups_adj (order_by text_less keys))"

definition mlx_eligible_fact :: "routing_policy \<Rightarrow> eligibility" where
  "mlx_eligible_fact pol t payload =
     (if t \<in> {ImageGenerate, ImageEdit, ImageDetail} then job_is_mlx_eligible pol t payload
      else if is_video_job_type t then video_job_is_mlx_eligible pol t payload
      else if t \<in> {LoraTrain, ControlTraining} then training_job_is_mlx_eligible pol t payload
      else if t = TrainingCaption then caption_job_is_mlx_eligible t payload
      else if t = ImageUpscale then upscale_job_is_mlx_eligible t payload
      else if t = VideoUpscale then video_upscale_job_is_mlx_eligible t payload
      else if t \<in> {ImageVqa, ImageInterleave} then understanding_job_is_mlx_eligible t payload
      else True)"

definition candle_eligible_fact :: "routing_policy \<Rightarrow> eligibility" where
  "candle_eligible_fact pol t payload =
     (if t \<in> {ImageGenerate, ImageEdit} then image_job_is_candle_eligible pol t payload
      else if t = ImageDetail then image_detail_native_eligible t payload
      else if is_video_job_type t then video_job_is_candle_eligible pol t payload
      else if t \<in> {LoraTrain, ControlTraining} then training_job_is_candle_eligible pol t payload
      else if t = TrainingCaption then caption_job_is_mlx_eligible t payload
      else if t \<in> {ImageVqa, ImageInterleave} then understanding_job_is_mlx_eligible t payload
      else if t = ImageUpscale then upscale_job_is_candle_eligible t payload
      else if t = VideoUpscale then video_upscale_job_is_candle_eligible t payload
      else True)"

definition facts_from_parts :: "routing_policy \<Rightarrow> job_type \<Rightarrow> json_object \<Rightarrow> claim_routing_facts" where
  "facts_from_parts pol t payload = \<lparr>
     f_job_type = t,
     f_mlx_eligible = mlx_eligible_fact pol t payload,
     f_candle_eligible = candle_eligible_fact pol t payload,
     f_candle_pose_reject = image_job_candle_pose_reject pol t payload,
     f_training_mlx_only = training_kernel_is_mlx_only t payload,
     f_seedvr2_upscale = upscale_job_requests_seedvr2 t payload,
     f_required_capability = required_capability pol t payload,
     f_real_training = is_real_training_job t payload,
     f_model_keys = desired_model_keys payload \<rparr>"

definition facts_from_job :: "routing_policy \<Rightarrow> job_row \<Rightarrow> claim_routing_facts" where
  "facts_from_job pol job = facts_from_parts pol (j_type job) (j_payload job)"

text \<open>At most four keys are pushed, so the four key columns hold them all.\<close>

lemma length_push_string_value: "length ks \<le> n \<Longrightarrow> length (push_string_value ks v) \<le> Suc n"
  by (auto simp: push_string_value_def split: option.split)

lemma length_sorted_keys: "length ks \<le> n \<Longrightarrow> length (remdups_adj (order_by text_less ks)) \<le> n"
  by (metis length_order_by order_trans remdups_adj_length)

lemma length_desired_model_keys: "length (desired_model_keys payload) \<le> 4"
proof -
  let ?two = "push_string_value (push_string_value [] (fmlookup payload ''model'')) (fmlookup payload ''repo'')"
  have two: "length ?two \<le> Suc (Suc 0)"
    by (intro length_push_string_value) simp
  then have "length (push_string_value (push_string_value ?two c) d) \<le> Suc (Suc (Suc (Suc 0)))" for c d
    by (intro length_push_string_value) simp
  with two show ?thesis
    unfolding desired_model_keys_def Let_def
    by (intro length_sorted_keys) (auto split: option.split simp: numeral_eq_Suc)
qed

lemma columns_facts_from_parts:
  "columns_facts t (facts_columns (facts_from_parts pol t payload)) = facts_from_parts pol t payload"
  by (rule columns_facts_inverse) (simp_all add: facts_from_parts_def length_desired_model_keys)

subsection \<open>Worker compatibility\<close>

definition advertises :: "worker_row \<Rightarrow> string \<Rightarrow> bool" where
  "advertises w capability \<longleftrightarrow> capability \<in> set (w_capabilities w)"

definition mlx_refuses :: "claim_routing_facts \<Rightarrow> bool" where
  "mlx_refuses job \<longleftrightarrow>
     (f_job_type job \<in> {ImageGenerate, ImageEdit, ImageDetail} \<and> \<not> f_mlx_eligible job)
     \<or> (is_video_job_type (f_job_type job) \<and> \<not> f_mlx_eligible job)
     \<or> (f_job_type job \<in> {LoraTrain, ControlTraining} \<and> \<not> f_mlx_eligible job)
     \<or> (f_job_type job = TrainingCaption \<and> \<not> f_mlx_eligible job)
     \<or> (f_job_type job = ImageUpscale \<and> \<not> f_mlx_eligible job)
     \<or> (f_job_type job = VideoUpscale \<and> \<not> f_mlx_eligible job)
     \<or> (f_job_type job \<in> {ImageVqa, ImageInterleave} \<and> \<not> f_mlx_eligible job)"

definition candle_refuses :: "claim_routing_facts \<Rightarrow> bool" where
  "candle_refuses job \<longleftrightarrow>
     (f_job_type job \<in> {ImageGenerate, ImageEdit} \<and> \<not> (f_candle_eligible job \<or> f_candle_pose_reject job))
     \<or> (f_job_type job = ImageDetail \<and> \<not> f_candle_eligible job)
     \<or> (is_video_job_type (f_job_type job) \<and> \<not> f_candle_eligible job)
     \<or> (f_job_type job \<in> {LoraTrain, ControlTraining} \<and> \<not> f_candle_eligible job)
     \<or> (f_job_type job = TrainingCaption \<and> \<not> f_candle_eligible job)
     \<or> (f_job_type job \<in> {ImageVqa, ImageInterleave} \<and> \<not> f_candle_eligible job)
     \<or> (f_job_type job = ImageUpscale \<and> \<not> f_candle_eligible job)
     \<or> (f_job_type job = VideoUpscale \<and> \<not> f_candle_eligible job)"

definition worker_supports_claim_routing_facts :: "worker_row \<Rightarrow> claim_routing_facts \<Rightarrow> bool" where
  "worker_supports_claim_routing_facts w job =
     (if w_status w = Unhealthy then False
      else if job_requires_gpu (f_job_type job) \<and> eq_ignore_ascii_case (w_gpu_id w) ''cpu'' then False
      else if \<not> is_mlx_gpu (w_gpu_id w) \<and> f_training_mlx_only job
              \<and> \<not> (worker_is_candle w \<and> f_candle_eligible job) then False
      else if is_mlx_gpu (w_gpu_id w) \<and> mlx_refuses job then False
      else if \<not> worker_is_candle w \<and> \<not> is_mlx_gpu (w_gpu_id w) \<and> f_candle_pose_reject job then False
      else if worker_is_candle w \<and> candle_refuses job then False
      else if \<not> is_mlx_gpu (w_gpu_id w) \<and> \<not> worker_is_candle w \<and> f_seedvr2_upscale job then False
      else if \<not> advertises w (f_required_capability job) then False
      else if f_real_training job then advertises w ''lora_train_execute''
      else True)"

definition worker_supports_job :: "routing_policy \<Rightarrow> worker_row \<Rightarrow> job_row \<Rightarrow> bool" where
  "worker_supports_job pol w job = worker_supports_claim_routing_facts w (facts_from_job pol job)"

lemma supports_capability:
  "worker_supports_claim_routing_facts w facts \<Longrightarrow> f_required_capability facts \<in> set (w_capabilities w)"
  by (auto simp: worker_supports_claim_routing_facts_def advertises_def split: if_splits)

lemma supports_healthy:
  "worker_supports_claim_routing_facts w facts \<Longrightarrow> w_status w \<noteq> Unhealthy"
  by (auto simp: worker_supports_claim_routing_facts_def)

lemma supports_gpu:
  "worker_supports_claim_routing_facts w facts \<Longrightarrow> job_requires_gpu (f_job_type facts) \<Longrightarrow>
   \<not> eq_ignore_ascii_case (w_gpu_id w) ''cpu''"
  by (auto simp: worker_supports_claim_routing_facts_def split: if_splits)

lemma supports_mlx_eligible:
  "worker_supports_claim_routing_facts w facts \<Longrightarrow> is_mlx_gpu (w_gpu_id w) \<Longrightarrow> \<not> mlx_refuses facts"
  and supports_candle_eligible:
  "worker_supports_claim_routing_facts w facts \<Longrightarrow> worker_is_candle w \<Longrightarrow> \<not> candle_refuses facts"
  by (auto simp: worker_supports_claim_routing_facts_def split: if_splits)

lemma supports_real_training:
  "worker_supports_claim_routing_facts w facts \<Longrightarrow> f_real_training facts \<Longrightarrow>
   ''lora_train_execute'' \<in> set (w_capabilities w)"
  by (auto simp: worker_supports_claim_routing_facts_def advertises_def split: if_splits)

subsection \<open>Warm models\<close>

definition routing_model_keys_match_loaded :: "string list \<Rightarrow> worker_row \<Rightarrow> bool" where
  "routing_model_keys_match_loaded keys w \<longleftrightarrow>
     list_ex (\<lambda>loaded. list_ex (\<lambda>key. key = loaded) keys) (w_loaded_models w)"

definition job_matches_loaded_model :: "job_row \<Rightarrow> worker_row \<Rightarrow> bool" where
  "job_matches_loaded_model job w =
     (if j_requested_gpu job \<noteq> ''auto'' \<or> is_non_gpu_job_type (j_type job) \<or> w_loaded_models w = []
      then False
      else routing_model_keys_match_loaded (desired_model_keys (j_payload job)) w)"

subsection \<open>Dispatch scores\<close>

record dispatch_score =
  has_utilization :: bool
  free_memory_mb :: rat
  memory_usage_percent :: rat
  score_gpu_load_percent :: rat
  warm_model :: bool

text \<open>\<open>u64::checked_sub\<close>\<close>

definition checked_sub :: "nat \<Rightarrow> nat \<Rightarrow> nat option" where
  "checked_sub a b = (if b \<le> a then Some (a - b) else None)"

definition dispatch_score_of :: "job_row \<Rightarrow> worker_row \<Rightarrow> dispatch_score" where
  "dispatch_score_of job w =
     (let total = Option.bind (w_utilization w) memory_total_mb;
          used = Option.bind (w_utilization w) memory_used_mb;
          gpu_load = Option.bind (w_utilization w) gpu_load_percent;
          free = (case Option.bind (w_utilization w) memory_free_mb of
                    Some f \<Rightarrow> Some f
                  | None \<Rightarrow> (case (total, used) of (Some t, Some u) \<Rightarrow> checked_sub t u | _ \<Rightarrow> None));
          usage = (case (total, used) of
                     (Some t, Some u) \<Rightarrow> if t > 0 then of_nat u / of_nat t * 100 else 0
                   | _ \<Rightarrow> 0)
      in \<lparr> has_utilization = (free \<noteq> None \<or> gpu_load \<noteq> None \<or> total \<noteq> None),
           free_memory_mb = of_nat (case free of None \<Rightarrow> 0 | Some f \<Rightarrow> f),
           memory_usage_percent = usage,
           score_gpu_load_percent = (case gpu_load of None \<Rightarrow> 0 | Some l \<Rightarrow> l),
           warm_model = job_matches_loaded_model job w \<rparr>)"

definition dispatch_not_worse :: "dispatch_score \<Rightarrow> dispatch_score \<Rightarrow> bool" where
  "dispatch_not_worse candidate current \<longleftrightarrow>
     free_memory_mb candidate + 512 \<ge> free_memory_mb current
     \<and> score_gpu_load_percent candidate \<le> score_gpu_load_percent current + 10
     \<and> memory_usage_percent candidate \<le> memory_usage_percent current + 10"

definition dispatch_relief :: "dispatch_score \<Rightarrow> dispatch_score \<Rightarrow> bool" where
  "dispatch_relief candidate current \<longleftrightarrow>
     free_memory_mb candidate - free_memory_mb current \<ge> 1024
     \<or> score_gpu_load_percent current - score_gpu_load_percent candidate \<ge> 15
     \<or> memory_usage_percent current - memory_usage_percent candidate \<ge> 10"

definition dispatch_rescue :: "dispatch_score \<Rightarrow> dispatch_score \<Rightarrow> bool" where
  "dispatch_rescue candidate current \<longleftrightarrow>
     (free_memory_mb current < 2048 \<and> free_memory_mb candidate \<ge> 4096)
     \<or> (score_gpu_load_percent current \<ge> 85 \<and> score_gpu_load_percent candidate \<le> 75)
     \<or> (memory_usage_percent current \<ge> 90 \<and> memory_usage_percent candidate \<le> 80)"

definition dispatch_score_is_better :: "dispatch_score \<Rightarrow> dispatch_score \<Rightarrow> bool" where
  "dispatch_score_is_better candidate current =
     (if \<not> has_utilization candidate \<or> \<not> has_utilization current then False
      else if dispatch_not_worse candidate current \<and> dispatch_relief candidate current then True
      else if dispatch_not_worse candidate current \<and> warm_model candidate \<and> \<not> warm_model current then True
      else dispatch_rescue candidate current)"

text \<open>
  The comparison never prefers a score to itself, and two scores that are both away from the
  low-memory, high-load and high-usage limits are never each preferred to the other for relief.
\<close>

lemma dispatch_score_irrefl: "\<not> dispatch_score_is_better a a"
  by (auto simp: dispatch_score_is_better_def dispatch_relief_def dispatch_rescue_def)

lemma dispatch_relief_one_way:
  assumes "dispatch_not_worse a b" and "dispatch_relief a b"
  shows "\<not> (dispatch_not_worse b a \<and> dispatch_relief b a)"
proof
  assume ba: "dispatch_not_worse b a \<and> dispatch_relief b a"
  with assms show False
    unfolding dispatch_not_worse_def dispatch_relief_def by linarith
qed

end
