(* ===== verification/JobRules.thy ===== *)
theory JobRules
  imports Routing
begin

text \<open>
  The one relation every write of the jobs table goes through. \<open>job_sql\<close> has a rule per
  \<open>update jobs\<close> statement with the guard under which the store runs it, \<open>fresh_row\<close> describes
  an inserted row, and \<open>table_step\<close> moves the whole table: an update of some rows, an insert
  under an unused id, or the retention purge. Two interfaces carry facts of rows over any
  sequence of such steps: \<open>row_invariant\<close> for predicates of one row and \<open>row_history\<close> for
  relations between a row and its later versions.
\<close>

subsection \<open>The claim-time stamp\<close>

definition payload_is_minimax_h3 :: "routing_policy \<Rightarrow> json_object \<Rightarrow> bool" where
  "payload_is_minimax_h3 pol payload \<longleftrightarrow>
     is_minimax_h3_model pol (nonempty_string_or payload ''model'' ''ltx_2_3'')
     \<or> Option.bind (Option.bind (fmlookup payload ''modelManifestEntry'') (json_get ''family'')) as_str
         = Some ''minimax-h3''"

text \<open>\<open>None\<close> where the function reports that it changed nothing.\<close>

definition stamp_claimed_reference_image_resize_mode :: "routing_policy \<Rightarrow> json_object \<Rightarrow> json_object option" where
  "stamp_claimed_reference_image_resize_mode pol payload =
     (if \<not> payload_is_minimax_h3 pol payload then None
      else case (case fmlookup payload ''advanced'' of None \<Rightarrow> JObj fmempty | Some v \<Rightarrow> v) of
             JObj advanced \<Rightarrow>
               if contains_key advanced ''referenceImageResizeMode'' then None
               else Some (fmupd ''advanced''
                      (JObj (fmupd ''referenceImageResizeMode'' (JStr ''match'') advanced)) payload)
           | _ \<Rightarrow> None)"

lemma stamp_changes_payload:
  assumes "stamp_claimed_reference_image_resize_mode pol payload = Some payload'"
  shows "payload' \<noteq> payload"
proof
  assume same: "payload' = payload"
  from assms obtain advanced where
    adv: "(case fmlookup payload ''advanced'' of None \<Rightarrow> JObj fmempty | Some v \<Rightarrow> v) = JObj advanced"
    and absent: "fmlookup advanced ''referenceImageResizeMode'' = None"
    and eq: "payload' = fmupd ''advanced''
      (JObj (fmupd ''referenceImageResizeMode'' (JStr ''match'') advanced)) payload"
    by (auto simp: stamp_claimed_reference_image_resize_mode_def contains_key_def
        split: if_splits json.splits)
  from eq same have "fmlookup payload ''advanced'' =
      Some (JObj (fmupd ''referenceImageResizeMode'' (JStr ''match'') advanced))"
    by (metis fmupd_lookup)
  with adv have "fmupd ''referenceImageResizeMode'' (JStr ''match'') advanced = advanced" by simp
  with absent show False by (metis fmupd_lookup option.distinct(1))
qed

subsection \<open>Statements\<close>

definition projection_stale :: "job_row \<Rightarrow> bool" where
  "projection_stale r \<longleftrightarrow> j_claim_facts_version r \<noteq> CLAIM_ROUTING_FACTS_VERSION
     \<or> j_claim_payload_revision r \<noteq> j_payload_revision r"

text \<open>What \<open>update_job_progress\<close> may write: it has clamped the readings and set the completion columns.\<close>

definition pct_ok :: "rat option \<Rightarrow> bool" where
  "pct_ok v \<longleftrightarrow> (case v of None \<Rightarrow> True | Some x \<Rightarrow> 0 \<le> x \<and> x \<le> 100)"

definition progress_write_ok :: "progress_write \<Rightarrow> bool" where
  "progress_write_ok p \<longleftrightarrow>
     p_status p \<in> set known_job_status
     \<and> 0 \<le> p_progress p \<and> p_progress p \<le> 1
     \<and> pct_ok (p_peak_memory p) \<and> pct_ok (p_peak_load p)
     \<and> (is_terminal_status (p_status p) \<longrightarrow> p_completed_at p = Some (p_now p))
     \<and> (\<not> is_terminal_status (p_status p) \<longrightarrow> p_completed_at p = None)
     \<and> (p_status p = Canceled \<longrightarrow> p_canceled_at p = Some (p_now p))
     \<and> (p_side_effects p \<longrightarrow> is_terminal_status (p_status p))"

text \<open>
  \<open>ww\<close> says which of the statements that a worker's own request runs, the claim and the
  progress report, are admitted: none, those of a worker that reports only worker-side and
  terminal statuses of the job it owns, or all the store accepts. The operations of every
  other caller are shown to need neither statement.
\<close>

datatype writers = ApiOnly | Disciplined | AnyWorker

inductive job_sql :: "routing_policy \<Rightarrow> writers \<Rightarrow> job_row \<Rightarrow> job_row \<Rightarrow> bool" for pol ww where
  fail_queued: "j_status r = Queued \<Longrightarrow>
    job_sql pol ww r (after_update r (set_released Failed now message error r))"
| interrupt_active: "is_active_status (j_status r) \<Longrightarrow>
    job_sql pol ww r (after_update r (set_released Interrupted now message error r))"
| fail_active: "is_active_status (j_status r) \<Longrightarrow>
    job_sql pol ww r (after_update r (set_released Failed now message error r))"
| enqueue: "j_status r = PendingCaption \<or> j_status r = PendingWorkflow \<Longrightarrow>
    job_sql pol ww r (after_update r (set_queued now message r))"
| promote: "j_status r = PendingCaption \<Longrightarrow>
    job_sql pol ww r (after_update r (set_promoted payload (facts_from_parts pol (j_type r) payload) now r))"
| workflow_payload: "j_status r = PendingWorkflow \<Longrightarrow>
    job_sql pol ww r (after_update r (set_payload payload (facts_from_parts pol (j_type r) payload) now r))"
| terminate_workflow: "j_status r = PendingWorkflow \<Longrightarrow> status \<in> {Failed, Canceled, Interrupted} \<Longrightarrow>
    job_sql pol ww r (after_update r (set_terminated status message error' now r))"
| cancel: "is_pending_status (j_status r) \<Longrightarrow>
    job_sql pol ww r (after_update r (set_canceled now r))"
| request_cancel: "\<not> is_terminal_status (j_status r) \<Longrightarrow> \<not> is_pending_status (j_status r) \<Longrightarrow>
    job_sql pol ww r (after_update r (set_cancel_requested now r))"
| prioritize: "is_pending_status (j_status r) \<Longrightarrow> 0 \<le> rank \<Longrightarrow>
    job_sql pol ww r (after_update r (set_rank rank now r))"
| clear: "is_terminal_status (j_status r) \<Longrightarrow> j_cleared_at r = None \<Longrightarrow>
    job_sql pol ww r (after_update r (set_cleared now r))"
| heartbeat: "j_worker_id r = Some worker \<Longrightarrow>
    job_sql pol ww r (after_update r (set_heartbeat now r))"
| bind_download: "is_pending_status (j_status r) \<Longrightarrow> j_download_binding r = None \<Longrightarrow>
    job_sql pol ww r (after_update r (set_binding binding r))"
| stamp: "j_status r = Queued \<Longrightarrow> \<not> projection_stale r \<Longrightarrow> is_video_job_type (j_type r) \<Longrightarrow>
    stamp_claimed_reference_image_resize_mode pol (j_payload r) = Some payload \<Longrightarrow>
    job_sql pol ww r (after_update r (set_stamped payload r))"
| claim: "ww \<noteq> ApiOnly \<Longrightarrow> j_status r = Queued \<Longrightarrow>
    job_sql pol ww r (after_update r (set_claimed gpu worker now r))"
| progress: "ww \<noteq> ApiOnly \<Longrightarrow> (ww = Disciplined \<Longrightarrow> \<not> is_pending_status (p_status p)) \<Longrightarrow>
     \<not> is_terminal_status (j_status r) \<Longrightarrow> j_worker_id r = Some worker \<Longrightarrow>
    progress_write_ok p \<Longrightarrow> job_sql pol ww r (after_update r (set_progress p r))"
| defer_retry: "j_side_effects_pending r \<Longrightarrow> 0 \<le> n \<Longrightarrow>
    job_sql pol ww r (after_update r (set_deferred n retry_at r))"
| replace_result: "job_sql pol ww r (after_update r (set_result result now done r))"
| reproject: "projection_stale r \<Longrightarrow>
    job_sql pol ww r (after_update r
      (set_projection (facts_from_parts pol (j_type r) (j_payload r)) (j_payload_revision r) r))"

inductive_cases job_sqlE: "job_sql pol ww r r'"

definition fresh_row :: "routing_policy \<Rightarrow> job_row \<Rightarrow> bool" where
  "fresh_row pol r \<longleftrightarrow>
     is_pending_status (j_status r) \<and> 0 \<le> j_queue_rank r
     \<and> j_stage r = job_status_str (j_status r)
     \<and> j_result r = fmempty \<and> j_assigned_gpu r = None \<and> j_worker_id r = None
     \<and> j_progress r = 0 \<and> j_error r = None \<and> j_eta_seconds r = None \<and> \<not> j_cancel_requested r
     \<and> j_updated_at r = j_created_at r \<and> j_started_at r = None \<and> j_completed_at r = None
     \<and> j_canceled_at r = None \<and> j_last_heartbeat_at r = None \<and> j_download_binding r = None
     \<and> j_claim_facts_version r = CLAIM_ROUTING_FACTS_VERSION
     \<and> j_claim_payload_revision r = 0 \<and> j_payload_revision r = 0 \<and> j_revision r = 0
     \<and> j_claim r = facts_columns (facts_from_parts pol (j_type r) (j_payload r))
     \<and> j_peak_gpu_memory_pct r = None \<and> j_peak_gpu_load_pct r = None \<and> j_backend r = None
     \<and> \<not> j_side_effects_pending r \<and> j_side_effects_retry_count r = 0
     \<and> j_side_effects_retry_at r = 0 \<and> j_cleared_at r = None
     \<and> (job_requires_gpu (j_type r) \<longrightarrow> j_requested_gpu r \<noteq> ''cpu'')"

subsection \<open>Steps of the table\<close>

inductive live_step :: "routing_policy \<Rightarrow> writers \<Rightarrow> job_row list \<Rightarrow> job_row list \<Rightarrow> bool" for pol ww where
  update: "list_all2 (\<lambda>r r'. r = r' \<or> job_sql pol ww r r') t t' \<Longrightarrow> live_step pol ww t t'"
| insert: "fresh_row pol r \<Longrightarrow> j_id r \<notin> j_id ` set t \<Longrightarrow> live_step pol ww t (t @ [r])"

inductive table_step :: "routing_policy \<Rightarrow> writers \<Rightarrow> job_row list \<Rightarrow> job_row list \<Rightarrow> bool" for pol ww where
  live: "live_step pol ww t t' \<Longrightarrow> table_step pol ww t t'"
| purge: "(\<forall>r \<in> set t. P r \<longrightarrow> is_terminal_status (j_status r)) \<Longrightarrow>
    table_step pol ww t (filter (\<lambda>r. \<not> P r) t)"

abbreviation live_steps :: "routing_policy \<Rightarrow> writers \<Rightarrow> job_row list \<Rightarrow> job_row list \<Rightarrow> bool" where
  "live_steps pol ww \<equiv> (live_step pol ww)\<^sup>*\<^sup>*"

abbreviation table_steps :: "routing_policy \<Rightarrow> writers \<Rightarrow> job_row list \<Rightarrow> job_row list \<Rightarrow> bool" where
  "table_steps pol ww \<equiv> (table_step pol ww)\<^sup>*\<^sup>*"

lemma live_steps_table_steps: "live_steps pol ww t t' \<Longrightarrow> table_steps pol ww t t'"
  by (induction rule: rtranclp_induct) (auto intro: table_step.live rtranclp.rtrancl_into_rtrancl)

text \<open>A guarded \<open>update\<close> is a live step when the guard gives the rule's.\<close>

lemma live_step_update_jobs:
  assumes "\<And>r. r \<in> set (s_jobs s) \<Longrightarrow> P r \<Longrightarrow> job_sql pol ww r (after_update r (f r))"
  shows "live_step pol ww (s_jobs s) (s_jobs (update_jobs P f s))"
  using assms by (auto intro!: live_step.update list_all2_sql_update)

lemma live_steps_update_jobs:
  assumes "\<And>r. r \<in> set (s_jobs s) \<Longrightarrow> P r \<Longrightarrow> job_sql pol ww r (after_update r (f r))"
  shows "live_steps pol ww (s_jobs s) (s_jobs (update_jobs P f s))"
  using live_step_update_jobs [OF assms] by blast

subsection \<open>Identity and numbering\<close>

text \<open>What no statement changes, and the two facts every statement gives.\<close>

definition same_identity :: "job_row \<Rightarrow> job_row \<Rightarrow> bool" where
  "same_identity r r' \<longleftrightarrow> j_id r' = j_id r \<and> j_type r' = j_type r
     \<and> j_project_id r' = j_project_id r \<and> j_project_name r' = j_project_name r
     \<and> j_requested_gpu r' = j_requested_gpu r \<and> j_attempts r' = j_attempts r
     \<and> j_source_job_id r' = j_source_job_id r
     \<and> j_duplicate_of_job_id r' = j_duplicate_of_job_id r
     \<and> j_created_at r' = j_created_at r \<and> j_model_provenance r' = j_model_provenance r"

lemma setter_revision [simp]:
  "j_revision (set_released st now m e r) = j_revision r"
  "j_revision (set_queued now m r) = j_revision r"
  "j_revision (set_projection facts v r) = j_revision r"
  "j_revision (set_payload pl facts now r) = j_revision r"
  "j_revision (set_promoted pl facts now r) = j_revision r"
  "j_revision (set_terminated st m e' now r) = j_revision r"
  "j_revision (set_canceled now r) = j_revision r"
  "j_revision (set_cancel_requested now r) = j_revision r"
  "j_revision (set_rank n now r) = j_revision r"
  "j_revision (set_cleared now r) = j_revision r"
  "j_revision (set_heartbeat now r) = j_revision r"
  "j_revision (set_binding b r) = j_revision r"
  "j_revision (set_stamped pl r) = j_revision r"
  "j_revision (set_claimed g w now r) = j_revision r"
  "j_revision (set_progress p r) = j_revision r"
  "j_revision (set_deferred k i r) = j_revision r"
  "j_revision (set_result res now c r) = j_revision r"
  by (simp_all add: setter_defs)

lemma after_update_eq:
  "j_revision new = j_revision old \<Longrightarrow>
   after_update old new = new\<lparr> j_revision := j_revision old + 1,
     j_payload_revision := (if j_payload new \<noteq> j_payload old then j_payload_revision old + 1
                            else j_payload_revision new) \<rparr>"
  by (simp add: after_update_def)

lemma job_sql_identity: "job_sql pol ww r r' \<Longrightarrow> same_identity r r'"
  by (induction rule: job_sql.induct) (simp_all add: same_identity_def after_update_eq, simp_all add: setter_defs)

lemma job_sql_id: "job_sql pol ww r r' \<Longrightarrow> j_id r' = j_id r"
  using job_sql_identity by (auto simp: same_identity_def)

lemma job_sql_revision: "job_sql pol ww r r' \<Longrightarrow> j_revision r' = j_revision r + 1"
  by (induction rule: job_sql.induct) (simp_all add: after_update_eq)

lemma job_sql_payload_revision:
  "job_sql pol ww r r' \<Longrightarrow>
   j_payload_revision r' = (if j_payload r' = j_payload r then j_payload_revision r else j_payload_revision r + 1)"
  by (induction rule: job_sql.induct) (simp_all add: after_update_eq, simp_all add: setter_defs)

subsection \<open>Invariants of rows\<close>

locale row_invariant =
  fixes pol :: routing_policy and ww :: writers and I :: "job_row \<Rightarrow> bool"
  assumes fresh: "fresh_row pol r \<Longrightarrow> I r"
    and step: "I r \<Longrightarrow> job_sql pol ww r r' \<Longrightarrow> I r'"
begin

lemma live_step_preserves:
  "live_step pol ww t t' \<Longrightarrow> \<forall>r \<in> set t. I r \<Longrightarrow> \<forall>r \<in> set t'. I r"
proof (induction rule: live_step.induct)
  case (update t t')
  then show ?case
    by (induction rule: list_all2_induct) (auto intro: step)
qed (auto intro: fresh)

lemma table_step_preserves:
  "table_step pol ww t t' \<Longrightarrow> \<forall>r \<in> set t. I r \<Longrightarrow> \<forall>r \<in> set t'. I r"
  by (induction rule: table_step.induct) (use live_step_preserves in auto)

lemma preserves:
  "table_steps pol ww t t' \<Longrightarrow> \<forall>r \<in> set t. I r \<Longrightarrow> \<forall>r \<in> set t'. I r"
  by (induction rule: rtranclp_induct) (use table_step_preserves in blast)+

end

text \<open>
  The well-formedness of a row: a known status; a terminal row is stamped with its completion,
  a canceled one with its cancellation; an owner implies a device and a start, and a
  worker-side status implies an owner; the readings stay in range; API side effects wait
  only on a finished job.
\<close>

definition row_stamped :: "job_row \<Rightarrow> bool" where
  "row_stamped r \<longleftrightarrow> j_status r \<in> set known_job_status
     \<and> (is_terminal_status (j_status r) \<longrightarrow> j_completed_at r \<noteq> None)
     \<and> (j_status r = Canceled \<longrightarrow> j_canceled_at r \<noteq> None)
     \<and> (j_cleared_at r \<noteq> None \<longrightarrow> is_terminal_status (j_status r))
     \<and> (j_side_effects_pending r \<longrightarrow> is_terminal_status (j_status r))"

definition row_owned :: "job_row \<Rightarrow> bool" where
  "row_owned r \<longleftrightarrow>
     (j_worker_id r \<noteq> None \<longrightarrow> j_assigned_gpu r \<noteq> None \<and> j_started_at r \<noteq> None)
     \<and> (is_active_status (j_status r) \<longrightarrow> j_worker_id r \<noteq> None)"

definition row_in_range :: "job_row \<Rightarrow> bool" where
  "row_in_range r \<longleftrightarrow> 0 \<le> j_progress r \<and> j_progress r \<le> 1
     \<and> pct_ok (j_peak_gpu_memory_pct r) \<and> pct_ok (j_peak_gpu_load_pct r)
     \<and> 0 \<le> j_queue_rank r \<and> 0 \<le> j_revision r \<and> 0 \<le> j_payload_revision r
     \<and> 0 \<le> j_side_effects_retry_count r"

definition row_ok :: "job_row \<Rightarrow> bool" where
  "row_ok r \<longleftrightarrow> row_stamped r \<and> row_owned r \<and> row_in_range r"

lemma pct_ok_None [simp]: "pct_ok None"
  by (simp add: pct_ok_def)

lemma pct_ok_running_peak: "pct_ok a \<Longrightarrow> pct_ok b \<Longrightarrow> pct_ok (running_peak a b)"
  by (cases "(a, b)" rule: running_peak.cases) (auto simp: pct_ok_def)

lemma known_status_simps [simp]:
  "Queued \<in> set known_job_status" "PendingCaption \<in> set known_job_status" "Preparing \<in> set known_job_status"
  "Completed \<in> set known_job_status" "Failed \<in> set known_job_status" "Canceled \<in> set known_job_status"
  "Interrupted \<in> set known_job_status" "PendingWorkflow \<in> set known_job_status"
  by (simp_all add: known_job_status_def)

lemma row_ok_fresh: "fresh_row pol r \<Longrightarrow> row_ok r"
  by (auto simp: fresh_row_def row_ok_def row_stamped_def row_owned_def row_in_range_def
      known_job_status_classes pending_not_active pending_not_terminal)

lemma row_stamped_step: "job_sql pol ww r r' \<Longrightarrow> row_stamped r \<Longrightarrow> row_stamped r'"
proof (induction rule: job_sql.induct)
  case (progress p r worker)
  then show ?case
    by (simp add: after_update_eq) (auto simp: row_stamped_def progress_write_ok_def set_progress_def)
qed (simp_all add: after_update_eq, auto simp: row_stamped_def setter_defs pending_not_terminal active_not_terminal)

lemma row_owned_step: "job_sql pol ww r r' \<Longrightarrow> row_owned r \<Longrightarrow> row_owned r'"
  by (induction rule: job_sql.induct)
    (simp_all add: after_update_eq, auto simp: row_owned_def setter_defs coalesce_set)

lemma row_in_range_step: "job_sql pol ww r r' \<Longrightarrow> row_in_range r \<Longrightarrow> row_in_range r'"
  by (induction rule: job_sql.induct)
    (simp_all add: after_update_eq,
     simp_all add: row_in_range_def setter_defs progress_write_ok_def pct_ok_running_peak)

lemma row_ok_step: "row_ok r \<Longrightarrow> job_sql pol ww r r' \<Longrightarrow> row_ok r'"
  using row_stamped_step row_owned_step row_in_range_step by (simp add: row_ok_def)

interpretation rows: row_invariant pol ww row_ok for pol ww
  by unfold_locales (fact row_ok_fresh, fact row_ok_step)

text \<open>
  Under disciplined workers a row that waits for a worker has no owner.
\<close>

definition waiting_unowned :: "job_row \<Rightarrow> bool" where
  "waiting_unowned r \<longleftrightarrow> (is_pending_status (j_status r) \<longrightarrow> j_worker_id r = None)"

lemma waiting_unowned_step: "job_sql pol Disciplined r r' \<Longrightarrow> waiting_unowned r \<Longrightarrow> waiting_unowned r'"
  by (induction rule: job_sql.induct)
    (simp_all add: after_update_eq, auto simp: waiting_unowned_def setter_defs progress_write_ok_def)

interpretation waiting: row_invariant pol Disciplined waiting_unowned for pol
  by unfold_locales (simp add: fresh_row_def waiting_unowned_def, rule waiting_unowned_step)

text \<open>
  The projection of a row that is not stale is the projection of its payload. The stamp a
  claim writes relies on the catalog predicates not looking at the stamped key.
\<close>

definition stamp_neutral :: "routing_policy \<Rightarrow> bool" where
  "stamp_neutral pol \<longleftrightarrow> (\<forall>t payload payload'. is_video_job_type t \<longrightarrow>
     stamp_claimed_reference_image_resize_mode pol payload = Some payload' \<longrightarrow>
     video_job_is_mlx_eligible pol t payload' = video_job_is_mlx_eligible pol t payload
     \<and> video_job_is_candle_eligible pol t payload' = video_job_is_candle_eligible pol t payload
     \<and> image_job_candle_pose_reject pol t payload' = image_job_candle_pose_reject pol t payload)"

lemma stamp_payload_shape:
  assumes "stamp_claimed_reference_image_resize_mode pol payload = Some payload'"
  obtains advanced where
    "(case fmlookup payload ''advanced'' of None \<Rightarrow> JObj fmempty | Some v \<Rightarrow> v) = JObj advanced"
    "payload' = fmupd ''advanced'' (JObj (fmupd ''referenceImageResizeMode'' (JStr ''match'') advanced)) payload"
  using assms
  by (auto simp: stamp_claimed_reference_image_resize_mode_def split: if_splits json.splits)

lemma stamp_model_keys:
  assumes "stamp_claimed_reference_image_resize_mode pol payload = Some payload'"
  shows "desired_model_keys payload' = desired_model_keys payload"
proof -
  from assms obtain advanced where
    adv: "(case fmlookup payload ''advanced'' of None \<Rightarrow> JObj fmempty | Some v \<Rightarrow> v) = JObj advanced"
    and p': "payload' = fmupd ''advanced'' (JObj (fmupd ''referenceImageResizeMode'' (JStr ''match'') advanced)) payload"
    by (rule stamp_payload_shape)
  show ?thesis
  proof (cases "fmlookup payload ''advanced''")
    case None
    with adv have "advanced = fmempty" by simp
    with None show ?thesis
      by (simp add: p' desired_model_keys_def json_access push_string_value_def)
  next
    case (Some v)
    with adv have "v = JObj advanced" by simp
    with Some show ?thesis by (simp add: p' desired_model_keys_def json_access)
  qed
qed

lemma stamp_facts:
  assumes "stamp_neutral pol" and "is_video_job_type t"
    and "stamp_claimed_reference_image_resize_mode pol payload = Some payload'"
  shows "facts_from_parts pol t payload' = facts_from_parts pol t payload"
proof -
  have keys: "desired_model_keys payload' = desired_model_keys payload"
    using assms(3) by (rule stamp_model_keys)
  have same: "video_job_is_mlx_eligible pol t payload' = video_job_is_mlx_eligible pol t payload"
    "video_job_is_candle_eligible pol t payload' = video_job_is_candle_eligible pol t payload"
    "image_job_candle_pose_reject pol t payload' = image_job_candle_pose_reject pol t payload"
    using assms by (auto simp: stamp_neutral_def)
  from assms(2) consider "t = VideoGenerate" | "t = PersonReplace" | "t = VideoExtend" | "t = VideoBridge"
    by (auto simp: is_video_job_type_def)
  then show ?thesis
    using same keys
    by cases (simp_all add: facts_from_parts_def mlx_eligible_fact_def candle_eligible_fact_def
        is_video_job_type_def training_kernel_is_mlx_only_def upscale_job_requests_seedvr2_def
        required_capability_def person_job_is_preview_def is_real_training_job_def)
qed

definition projection_faithful :: "routing_policy \<Rightarrow> job_row \<Rightarrow> bool" where
  "projection_faithful pol r \<longleftrightarrow>
     (\<not> projection_stale r \<longrightarrow> j_claim r = facts_columns (facts_from_job pol r))"

lemma projection_faithful_fresh: "fresh_row pol r \<Longrightarrow> projection_faithful pol r"
  by (simp add: fresh_row_def projection_faithful_def facts_from_job_def)

lemma projection_faithful_step:
  "job_sql pol ww r r' \<Longrightarrow> stamp_neutral pol \<Longrightarrow> projection_faithful pol r \<Longrightarrow> projection_faithful pol r'"
proof (induction rule: job_sql.induct)
  case (stamp r payload)
  then show ?case
    using stamp_facts [OF stamp.prems(1) stamp.hyps(3) stamp.hyps(4)]
    by (simp add: after_update_eq) (simp add: projection_faithful_def projection_stale_def facts_from_job_def setter_defs)
qed (simp_all add: after_update_eq,
  auto simp: projection_faithful_def projection_stale_def facts_from_job_def setter_defs split: if_splits)

interpretation projections: row_invariant pol ww "\<lambda>r. stamp_neutral pol \<longrightarrow> projection_faithful pol r" for pol ww
  by unfold_locales (auto intro: projection_faithful_fresh projection_faithful_step)

subsection \<open>Histories of rows\<close>

locale row_history =
  fixes pol :: routing_policy and ww :: writers and R :: "job_row \<Rightarrow> job_row \<Rightarrow> bool"
  assumes refl: "R r r"
    and trans: "R r r' \<Longrightarrow> R r' r'' \<Longrightarrow> R r r''"
    and step: "job_sql pol ww r r' \<Longrightarrow> R r r'"
begin

lemma update_relates:
  "list_all2 (\<lambda>r r'. r = r' \<or> job_sql pol ww r r') t t' \<Longrightarrow> lookup_row j_id k t = Some r \<Longrightarrow>
   \<exists>r'. lookup_row j_id k t' = Some r' \<and> R r r'"
proof (induction arbitrary: rule: list_all2_induct)
  case (Cons x xs y ys)
  then have "j_id y = j_id x" using job_sql_id by blast
  with Cons show ?case using refl step by auto
qed simp

lemma live_step_relates:
  "live_step pol ww t t' \<Longrightarrow> lookup_row j_id k t = Some r \<Longrightarrow>
   \<exists>r'. lookup_row j_id k t' = Some r' \<and> R r r'"
proof (induction rule: live_step.induct)
  case (update t t')
  then show ?case by (rule update_relates)
next
  case (insert x t)
  then show ?case by (simp add: lookup_row_append refl)
qed

lemma relates:
  assumes "live_steps pol ww t t'" and "lookup_row j_id k t = Some r"
  shows "\<exists>r'. lookup_row j_id k t' = Some r' \<and> R r r'"
  using assms(1)
proof (induction rule: rtranclp_induct)
  case base
  then show ?case using assms(2) refl by blast
next
  case (step t' t'')
  then show ?case using live_step_relates trans by meson
qed

end

interpretation identity: row_history pol ww same_identity for pol ww
  by unfold_locales (auto simp: same_identity_def dest: job_sql_identity)

text \<open>Every change is numbered: a version is the same row or a later revision.\<close>

definition numbered :: "job_row \<Rightarrow> job_row \<Rightarrow> bool" where
  "numbered r r' \<longleftrightarrow> r' = r \<or> j_revision r < j_revision r'"

interpretation numbering: row_history pol ww numbered for pol ww
  by unfold_locales (auto simp: numbered_def dest: job_sql_revision)

text \<open>A finished row never changes what it reported, who ran it or what it ran.\<close>

definition frozen :: "job_row \<Rightarrow> job_row \<Rightarrow> bool" where
  "frozen r r' \<longleftrightarrow> (is_terminal_status (j_status r) \<longrightarrow>
     j_status r' = j_status r \<and> j_stage r' = j_stage r \<and> j_progress r' = j_progress r
     \<and> j_message r' = j_message r \<and> j_error r' = j_error r \<and> j_eta_seconds r' = j_eta_seconds r
     \<and> j_completed_at r' = j_completed_at r \<and> j_canceled_at r' = j_canceled_at r
     \<and> j_started_at r' = j_started_at r \<and> j_worker_id r' = j_worker_id r
     \<and> j_assigned_gpu r' = j_assigned_gpu r \<and> j_payload r' = j_payload r
     \<and> j_queue_rank r' = j_queue_rank r \<and> j_cancel_requested r' = j_cancel_requested r
     \<and> j_peak_gpu_memory_pct r' = j_peak_gpu_memory_pct r
     \<and> j_peak_gpu_load_pct r' = j_peak_gpu_load_pct r \<and> j_backend r' = j_backend r)"

lemma frozen_step: "job_sql pol ww r r' \<Longrightarrow> frozen r r'"
  by (induction rule: job_sql.induct)
    (simp_all add: after_update_eq,
     auto simp: frozen_def setter_defs pending_not_terminal dest: active_not_terminal)

lemma frozen_trans: "frozen r r' \<Longrightarrow> frozen r' r'' \<Longrightarrow> frozen r r''"
  by (simp add: frozen_def)

interpretation finished: row_history pol ww frozen for pol ww
  by unfold_locales (simp add: frozen_def, fact frozen_trans, fact frozen_step)

text \<open>What is recorded once stays recorded; peaks only grow.\<close>

definition peak_le :: "rat option \<Rightarrow> rat option \<Rightarrow> bool" where
  "peak_le a b \<longleftrightarrow> (case a of None \<Rightarrow> True | Some x \<Rightarrow> (case b of None \<Rightarrow> False | Some y \<Rightarrow> x \<le> y))"

lemma peak_le_refl [simp]: "peak_le a a"
  by (simp add: peak_le_def split: option.split)

lemma peak_le_trans: "peak_le a b \<Longrightarrow> peak_le b c \<Longrightarrow> peak_le a c"
  by (auto simp: peak_le_def split: option.splits)

lemma peak_le_running_peak: "peak_le a (running_peak a b)"
  by (cases "(a, b)" rule: running_peak.cases) (simp_all add: peak_le_def)

definition latched :: "job_row \<Rightarrow> job_row \<Rightarrow> bool" where
  "latched r r' \<longleftrightarrow>
     (j_started_at r \<noteq> None \<longrightarrow> j_started_at r' = j_started_at r)
     \<and> (j_cleared_at r \<noteq> None \<longrightarrow> j_cleared_at r' = j_cleared_at r)
     \<and> (j_backend r \<noteq> None \<longrightarrow> j_backend r' = j_backend r)
     \<and> (j_download_binding r \<noteq> None \<longrightarrow> j_download_binding r' = j_download_binding r)
     \<and> (j_cancel_requested r \<longrightarrow> j_cancel_requested r')
     \<and> peak_le (j_peak_gpu_memory_pct r) (j_peak_gpu_memory_pct r')
     \<and> peak_le (j_peak_gpu_load_pct r) (j_peak_gpu_load_pct r')
     \<and> j_payload_revision r \<le> j_payload_revision r'"

lemma latched_step: "job_sql pol ww r r' \<Longrightarrow> latched r r'"
  by (induction rule: job_sql.induct)
    (simp_all add: after_update_eq,
     simp_all add: latched_def setter_defs peak_le_running_peak coalesce_set)

lemma latched_trans:
  assumes "latched r r'" and "latched r' r''"
  shows "latched r r''"
proof -
  have "peak_le (j_peak_gpu_memory_pct r) (j_peak_gpu_memory_pct r'')"
    and "peak_le (j_peak_gpu_load_pct r) (j_peak_gpu_load_pct r'')"
    using assms unfolding latched_def by (blast intro: peak_le_trans)+
  moreover have "j_payload_revision r \<le> j_payload_revision r''"
    using assms unfolding latched_def by linarith
  ultimately show ?thesis
    using assms unfolding latched_def by simp
qed

interpretation latches: row_history pol ww latched for pol ww
  by unfold_locales (simp add: latched_def, fact latched_trans, fact latched_step)

subsection \<open>The primary key\<close>

lemma live_step_ids: "live_step pol ww t t' \<Longrightarrow> distinct (map j_id t) \<Longrightarrow> distinct (map j_id t')"
proof (induction rule: live_step.induct)
  case (update t t')
  then have "map j_id t' = map j_id t"
    by (induction rule: list_all2_induct) (auto dest: job_sql_id)
  with update show ?case by simp
qed auto

lemma table_steps_ids:
  "table_steps pol ww t t' \<Longrightarrow> distinct (map j_id t) \<Longrightarrow> distinct (map j_id t')"
proof (induction rule: rtranclp_induct)
  case (step t' t'')
  then show ?case
    by (auto elim!: table_step.cases dest: live_step_ids simp: distinct_map_filter)
qed

end
