(* ===== verification/JobLifecycle.thy ===== *)
theory JobLifecycle
  imports JobRules
begin

text \<open>
  The queue-side operations of the jobs store: creating a job, the API-owned pending states
  and their promotion, cancellation, priority, retry and duplicate, clearing, and the
  retention-independent reads. An operation takes the wall clock and the random ids it would
  draw as arguments and returns either an error, which rolls its transaction back, or its
  result with the new store.
\<close>

subsection \<open>Reading rows\<close>

fun take_jobs :: "string list \<Rightarrow> job_row list \<Rightarrow> job_row list jobs_result" where
  "take_jobs [] pool = Inr []"
| "take_jobs (job_id # ids) pool =
     (case lookup_row j_id job_id pool of
        None \<Rightarrow> Inl (NotFound job_id)
      | Some job \<Rightarrow>
          result_bind (take_jobs ids (filter (\<lambda>r. j_id r \<noteq> job_id) pool)) (\<lambda>jobs. Inr (job # jobs)))"

definition jobs_by_ids :: "string list \<Rightarrow> jobs_store \<Rightarrow> job_row list jobs_result" where
  "jobs_by_ids ids s =
     (if ids = [] then Inr [] else take_jobs ids (filter (\<lambda>r. j_id r \<in> set ids) (s_jobs s)))"

lemma lookup_row_filter_key:
  "P k \<Longrightarrow> lookup_row key k (filter (\<lambda>r. P (key r)) t) = lookup_row key k t"
  by (induction t) auto

lemma key_in_filter:
  "k \<in> key ` set t \<Longrightarrow> P k \<Longrightarrow> k \<in> key ` set (filter (\<lambda>r. P (key r)) t)"
  by (metis lookup_row_None lookup_row_filter_key)

lemma take_jobs_ok:
  "distinct ids \<Longrightarrow> set ids \<subseteq> j_id ` set pool \<Longrightarrow>
   take_jobs ids pool = Inr (map (\<lambda>i. the (lookup_row j_id i pool)) ids)"
proof (induction ids arbitrary: pool)
  case (Cons i ids)
  from Cons.prems have "lookup_row j_id i pool \<noteq> None" by (auto simp: lookup_row_None)
  then obtain job where job: "lookup_row j_id i pool = Some job" by blast
  let ?rest = "filter (\<lambda>r. j_id r \<noteq> i) pool"
  have sub: "set ids \<subseteq> j_id ` set ?rest"
  proof
    fix k assume "k \<in> set ids"
    with Cons.prems show "k \<in> j_id ` set ?rest" by (intro key_in_filter) auto
  qed
  have "lookup_row j_id k ?rest = lookup_row j_id k pool" if "k \<in> set ids" for k
    using that Cons.prems lookup_row_filter_key [of "\<lambda>x. x \<noteq> i" k j_id pool] by auto
  with Cons.IH [OF _ sub] Cons.prems job show ?case by (auto simp: o_def)
qed simp

lemma jobs_by_ids_ok:
  assumes "distinct ids" and "set ids \<subseteq> j_id ` set (s_jobs s)"
  shows "jobs_by_ids ids s = Inr (map (\<lambda>i. the (find_job i s)) ids)"
proof -
  have "lookup_row j_id i (filter (\<lambda>r. j_id r \<in> set ids) (s_jobs s)) = find_job i s" if "i \<in> set ids" for i
    using that lookup_row_filter_key [of "\<lambda>x. x \<in> set ids" i j_id "s_jobs s"] by simp
  moreover have "set ids \<subseteq> j_id ` set (filter (\<lambda>r. j_id r \<in> set ids) (s_jobs s))"
  proof
    fix k assume "k \<in> set ids"
    with assms show "k \<in> j_id ` set (filter (\<lambda>r. j_id r \<in> set ids) (s_jobs s))"
      by (intro key_in_filter) auto
  qed
  ultimately show ?thesis
    using take_jobs_ok [OF assms(1)] by (simp add: jobs_by_ids_def cong: map_cong)
qed

subsection \<open>Creating a job\<close>

record create_job_request =
  cr_job_type :: job_type
  cr_project_id :: "string option"
  cr_project_name :: "string option"
  cr_payload :: json_object
  cr_requested_gpu :: string
  cr_source_job_id :: "string option"
  cr_duplicate_of_job_id :: "string option"
  cr_attempts :: int
  cr_initial_status :: "job_status option"

definition initial_status :: "create_job_request \<Rightarrow> job_status jobs_result" where
  "initial_status request =
     (case cr_initial_status request of
        None \<Rightarrow> Inr Queued
      | Some status \<Rightarrow>
          if status \<in> {Queued, PendingCaption, PendingWorkflow} then Inr status
          else Inl (InvalidInitialStatus (job_status_str status)))"

definition initial_message :: "job_status \<Rightarrow> string" where
  "initial_message status =
     (if status = PendingCaption then ''Preparing the prompt before dispatch.''
      else if status = PendingWorkflow then ''Creating the source image before vectorization.''
      else ''Waiting for an available worker.'')"

text \<open>\<open>select coalesce(max(queue_rank), 0) from jobs\<close>\<close>

fun max_queue_rank :: "job_row list \<Rightarrow> int" where
  "max_queue_rank [] = 0"
| "max_queue_rank [r] = j_queue_rank r"
| "max_queue_rank (r # t) = max (j_queue_rank r) (max_queue_rank t)"

lemma max_queue_rank_ge: "r \<in> set t \<Longrightarrow> j_queue_rank r \<le> max_queue_rank t"
  by (induction t rule: max_queue_rank.induct) auto

lemma max_queue_rank_nonneg: "\<forall>r \<in> set t. 0 \<le> j_queue_rank r \<Longrightarrow> 0 \<le> max_queue_rank t"
  by (induction t rule: max_queue_rank.induct) auto

definition new_job_row ::
  "routing_policy \<Rightarrow> string \<Rightarrow> string \<Rightarrow> int \<Rightarrow> job_status \<Rightarrow> create_job_request \<Rightarrow> json option \<Rightarrow> job_row" where
  "new_job_row pol now job_id rank status request provenance = \<lparr>
     j_id = job_id, j_type = cr_job_type request, j_status = status, j_queue_rank = rank,
     j_project_id = cr_project_id request, j_project_name = cr_project_name request,
     j_payload = cr_payload request, j_result = fmempty,
     j_requested_gpu = normalize_requested_gpu (cr_requested_gpu request),
     j_assigned_gpu = None, j_worker_id = None, j_progress = 0, j_stage = job_status_str status,
     j_message = initial_message status, j_error = None, j_eta_seconds = None,
     j_attempts = cr_attempts request, j_source_job_id = cr_source_job_id request,
     j_duplicate_of_job_id = cr_duplicate_of_job_id request, j_cancel_requested = False,
     j_created_at = now, j_updated_at = now, j_started_at = None, j_completed_at = None,
     j_canceled_at = None, j_last_heartbeat_at = None, j_model_provenance = provenance,
     j_download_binding = None, j_claim_facts_version = CLAIM_ROUTING_FACTS_VERSION,
     j_claim_payload_revision = 0,
     j_claim = facts_columns (facts_from_parts pol (cr_job_type request) (cr_payload request)),
     j_peak_gpu_memory_pct = None, j_peak_gpu_load_pct = None, j_backend = None,
     j_revision = 0, j_payload_revision = 0, j_side_effects_pending = False,
     j_side_effects_retry_count = 0, j_side_effects_retry_at = 0, j_cleared_at = None \<rparr>"

definition insert_job :: "job_row \<Rightarrow> jobs_store \<Rightarrow> jobs_store jobs_result" where
  "insert_job r s =
     (if find_job (j_id r) s \<noteq> None then Inl (Sqlite ''UNIQUE constraint failed: jobs.id'')
      else Inr (s\<lparr> s_jobs := s_jobs s @ [r] \<rparr>))"

definition create_job_on_connection ::
  "routing_policy \<Rightarrow> string \<Rightarrow> string \<Rightarrow> create_job_request \<Rightarrow> string option \<Rightarrow> json option \<Rightarrow> jobs_store
    \<Rightarrow> (job_row \<times> jobs_store) jobs_result" where
  "create_job_on_connection pol now job_hex request job_id provenance s =
     (if job_requires_gpu (cr_job_type request) \<and> normalize_requested_gpu (cr_requested_gpu request) = ''cpu''
      then Inl (InvalidRequestedGpu (job_type_str (cr_job_type request) @
             '' jobs cannot target CPU workers. Choose auto or a GPU id.''))
      else
        let new_id = (case job_id of Some i \<Rightarrow> i | None \<Rightarrow> ''job_'' @ job_hex) in
        result_bind (initial_status request) (\<lambda>status.
          let rank = (if job_type_automatically_jumps_queue (cr_job_type request)
                      then max_queue_rank (s_jobs s) + 1 else 0) in
          result_bind (insert_job (new_job_row pol now new_id rank status request provenance) s) (\<lambda>s'.
            result_bind (get_job new_id s') (\<lambda>job. Inr (job, s')))))"

definition write_download_binding :: "string \<Rightarrow> json option \<Rightarrow> jobs_store \<Rightarrow> jobs_store" where
  "write_download_binding job_id binding s =
     (case binding of
        None \<Rightarrow> s
      | Some b \<Rightarrow> update_jobs (\<lambda>r. j_id r = job_id) (set_binding b) s)"

definition create_job_with_download_binding ::
  "routing_policy \<Rightarrow> string \<Rightarrow> string \<Rightarrow> create_job_request \<Rightarrow> json option \<Rightarrow> json option \<Rightarrow> jobs_store
    \<Rightarrow> (job_row \<times> jobs_store) jobs_result" where
  "create_job_with_download_binding pol now job_hex request provenance binding s =
     result_bind (create_job_on_connection pol now job_hex request None provenance s) (\<lambda>(job, s').
       Inr (job, write_download_binding (j_id job) binding s'))"

definition create_job_with_model_provenance ::
  "routing_policy \<Rightarrow> string \<Rightarrow> string \<Rightarrow> create_job_request \<Rightarrow> json option \<Rightarrow> jobs_store
    \<Rightarrow> (job_row \<times> jobs_store) jobs_result" where
  "create_job_with_model_provenance pol now job_hex request provenance s =
     create_job_with_download_binding pol now job_hex request provenance None s"

definition create_job ::
  "routing_policy \<Rightarrow> string \<Rightarrow> string \<Rightarrow> create_job_request \<Rightarrow> jobs_store \<Rightarrow> (job_row \<times> jobs_store) jobs_result" where
  "create_job pol now job_hex request s = create_job_with_model_provenance pol now job_hex request None s"

definition create_job_with_id ::
  "routing_policy \<Rightarrow> string \<Rightarrow> string \<Rightarrow> create_job_request \<Rightarrow> jobs_store \<Rightarrow> (job_row \<times> jobs_store) jobs_result" where
  "create_job_with_id pol now job_id request s =
     create_job_on_connection pol now [] request (Some job_id) None s"

definition download_binding :: "string \<Rightarrow> jobs_store \<Rightarrow> json option jobs_result" where
  "download_binding job_id s = result_bind (get_job job_id s) (\<lambda>r. Inr (j_download_binding r))"

definition model_provenance :: "string \<Rightarrow> jobs_store \<Rightarrow> json option jobs_result" where
  "model_provenance job_id s = result_bind (get_job job_id s) (\<lambda>r. Inr (j_model_provenance r))"

subsection \<open>API-owned pending jobs\<close>

text \<open>The number of rows a guarded update touches.\<close>

definition affected :: "(job_row \<Rightarrow> bool) \<Rightarrow> jobs_store \<Rightarrow> nat" where
  "affected P s = length (filter P (s_jobs s))"

definition promote_pending_caption_job ::
  "routing_policy \<Rightarrow> string \<Rightarrow> string \<Rightarrow> json_object option \<Rightarrow> jobs_store
    \<Rightarrow> ((bool \<times> job_row) \<times> jobs_store) jobs_result" where
  "promote_pending_caption_job pol now job_id new_payload s =
     (let guard = (\<lambda>r. j_id r = job_id \<and> j_status r = PendingCaption) in
      result_bind
        (case new_payload of
           Some payload \<Rightarrow>
             result_bind (get_job job_id s) (\<lambda>job.
               Inr (update_jobs guard
                 (set_promoted payload (facts_from_parts pol (j_type job) payload) now) s))
         | None \<Rightarrow> Inr (update_jobs guard (set_queued now ''Waiting for an available worker.'') s))
        (\<lambda>s'. result_bind (get_job job_id s') (\<lambda>job. Inr ((affected guard s > 0, job), s'))))"

definition update_pending_workflow_payload ::
  "routing_policy \<Rightarrow> string \<Rightarrow> string \<Rightarrow> json_object \<Rightarrow> jobs_store
    \<Rightarrow> ((bool \<times> job_row) \<times> jobs_store) jobs_result" where
  "update_pending_workflow_payload pol now job_id payload s =
     (let guard = (\<lambda>r. j_id r = job_id \<and> j_status r = PendingWorkflow) in
      result_bind (get_job job_id s) (\<lambda>typed.
        let s' = update_jobs guard
          (set_payload payload (facts_from_parts pol (j_type typed) payload) now) s in
        result_bind (get_job job_id s') (\<lambda>job. Inr ((affected guard s > 0, job), s'))))"

text \<open>The second transaction of \<open>promote_pending_workflow_job\<close>.\<close>

definition enqueue_pending_workflow_job ::
  "string \<Rightarrow> string \<Rightarrow> jobs_store \<Rightarrow> ((bool \<times> job_row) \<times> jobs_store) jobs_result" where
  "enqueue_pending_workflow_job now job_id s =
     (let guard = (\<lambda>r. j_id r = job_id \<and> j_status r = PendingWorkflow);
          s' = update_jobs guard
            (set_queued now ''Source image ready. Waiting for an available vector worker.'') s
      in result_bind (get_job job_id s') (\<lambda>job. Inr ((affected guard s > 0, job), s')))"

text \<open>
  Two transactions under two acquisitions of the lock: other writers may run between them.
  The model runs them back to back; \<open>update_pending_workflow_payload\<close> and
  \<open>enqueue_pending_workflow_job\<close> are also steps of their own in the machine.
\<close>

definition promote_pending_workflow_job ::
  "routing_policy \<Rightarrow> string \<Rightarrow> string \<Rightarrow> string \<Rightarrow> json_object \<Rightarrow> jobs_store
    \<Rightarrow> ((bool \<times> job_row) \<times> jobs_store) jobs_result" where
  "promote_pending_workflow_job pol now now' job_id payload s =
     result_bind (update_pending_workflow_payload pol now job_id payload s) (\<lambda>((changed, job), s').
       if \<not> changed then Inr ((changed, job), s')
       else enqueue_pending_workflow_job now' job_id s')"

definition terminate_pending_workflow_job ::
  "string \<Rightarrow> string \<Rightarrow> job_status \<Rightarrow> string \<Rightarrow> string option \<Rightarrow> jobs_store
    \<Rightarrow> ((bool \<times> job_row) \<times> jobs_store) jobs_result" where
  "terminate_pending_workflow_job now job_id status message error s =
     (if status \<notin> {Failed, Canceled, Interrupted} then Inl (InvalidStatus (job_status_str status))
      else
        let guard = (\<lambda>r. j_id r = job_id \<and> j_status r = PendingWorkflow);
            s' = update_jobs guard (set_terminated status message error now) s
        in result_bind (get_job job_id s') (\<lambda>job. Inr ((affected guard s > 0, job), s')))"

subsection \<open>Cancellation\<close>

definition cancel_job :: "string \<Rightarrow> string \<Rightarrow> jobs_store \<Rightarrow> (job_row \<times> jobs_store) jobs_result" where
  "cancel_job now job_id s =
     result_bind (get_job job_id s) (\<lambda>job.
       if is_terminal_status (j_status job) then Inr (job, s)
       else
         let s' = update_jobs (\<lambda>r. j_id r = job_id)
           (if j_status job \<in> {Queued, PendingCaption, PendingWorkflow}
            then set_canceled now else set_cancel_requested now) s
         in result_bind (get_job job_id s') (\<lambda>job'. Inr (job', s')))"

definition in_project :: "string option \<Rightarrow> job_row \<Rightarrow> bool" where
  "in_project project_id r \<longleftrightarrow> (case project_id of None \<Rightarrow> True | Some p \<Rightarrow> j_project_id r = Some p)"

definition newest_first :: "job_row \<Rightarrow> job_row \<Rightarrow> bool" where
  "newest_first a b \<longleftrightarrow> text_less (j_created_at b) (j_created_at a)"

definition oldest_first :: "job_row \<Rightarrow> job_row \<Rightarrow> bool" where
  "oldest_first a b \<longleftrightarrow> text_less (j_created_at a) (j_created_at b)"

definition cancel_pending_jobs :: "string \<Rightarrow> string option \<Rightarrow> jobs_store \<Rightarrow> (job_row list \<times> jobs_store) jobs_result" where
  "cancel_pending_jobs now project_id s =
     (let guard = (\<lambda>r. is_pending_status (j_status r) \<and> in_project project_id r);
          pending_ids = map j_id (order_by newest_first (filter guard (s_jobs s)));
          s' = (if pending_ids \<noteq> [] then update_jobs guard (set_canceled now) s else s)
      in result_bind (jobs_by_ids pending_ids s') (\<lambda>canceled. Inr (canceled, s')))"

subsection \<open>Priority\<close>

text \<open>The scheduling order of the claim path and its refinement by id.\<close>

definition higher_rank :: "job_row \<Rightarrow> job_row \<Rightarrow> bool" where
  "higher_rank a b \<longleftrightarrow> j_queue_rank b < j_queue_rank a"

definition claim_order :: "job_row \<Rightarrow> job_row \<Rightarrow> bool" where
  "claim_order = then_by higher_rank oldest_first"

definition priority_order :: "job_row \<Rightarrow> job_row \<Rightarrow> bool" where
  "priority_order = then_by claim_order (\<lambda>a b. text_less (j_id a) (j_id b))"

text \<open>The comparisons of the queries are strict weak orders, so the results are sorted.\<close>

lemma row_order_higher_rank: "row_order higher_rank"
  unfolding higher_rank_def by (rule row_order_flip) (rule row_order_linorder)

lemma row_order_oldest_first: "row_order oldest_first"
  unfolding oldest_first_def by (rule row_order_text)

interpretation newest: row_order newest_first
  unfolding newest_first_def by (rule row_order_flip) (rule row_order_text)

interpretation scheduling: row_order claim_order
  unfolding claim_order_def by (rule row_order_then_by [OF row_order_higher_rank row_order_oldest_first])

interpretation prioritizing: row_order priority_order
  unfolding priority_order_def
  by (rule row_order_then_by [OF scheduling.row_order_axioms row_order_text])

fun assign_ranks :: "string \<Rightarrow> int \<Rightarrow> nat \<Rightarrow> nat \<Rightarrow> string list \<Rightarrow> jobs_store \<Rightarrow> jobs_store" where
  "assign_ranks now current_max selected_count index [] s = s"
| "assign_ranks now current_max selected_count index (job_id # ids) s =
     (let offset = saturating_sub (i64_of_nat selected_count) (i64_of_nat index);
          rank = saturating_add current_max offset
      in assign_ranks now current_max selected_count (Suc index) ids
           (update_jobs (\<lambda>r. j_id r = job_id \<and> is_pending_status (j_status r)) (set_rank rank now) s))"

definition prioritize_jobs :: "string \<Rightarrow> string list \<Rightarrow> jobs_store \<Rightarrow> (job_row list \<times> jobs_store) jobs_result" where
  "prioritize_jobs now job_ids s =
     (if job_ids = [] then Inr ([], s)
      else
        let selected = order_by priority_order
              (filter (\<lambda>r. j_id r \<in> set job_ids \<and> is_pending_status (j_status r)) (s_jobs s))
        in if selected = [] then Inr ([], s)
           else
             let ids = map j_id selected;
                 s' = assign_ranks now (max_queue_rank (s_jobs s)) (length selected) 0 ids s
             in result_bind (jobs_by_ids ids s') (\<lambda>prioritized. Inr (prioritized, s')))"

subsection \<open>Retry and duplicate\<close>

definition download_binding_matches_payload :: "json \<Rightarrow> json_object \<Rightarrow> bool" where
  "download_binding_matches_payload binding payload =
     (case Option.bind (json_get ''payload'' binding) as_object of
        None \<Rightarrow> False
      | Some saved \<Rightarrow> fmdrop ''downloadAction'' saved = fmdrop ''downloadAction'' payload)"

definition binding_ok :: "json option \<Rightarrow> json_object \<Rightarrow> bool" where
  "binding_ok binding payload \<longleftrightarrow>
     (case binding of None \<Rightarrow> True | Some b \<Rightarrow> download_binding_matches_payload b payload)"

definition replay_provenance :: "json option \<Rightarrow> json_object \<Rightarrow> job_row \<Rightarrow> json option" where
  "replay_provenance provenance payload_changes job =
     coalesce provenance
       (if \<not> contains_key payload_changes ''model'' \<and> \<not> contains_key payload_changes ''modelManifestEntry''
        then j_model_provenance job else None)"

definition retry_job_with_download_binding ::
  "routing_policy \<Rightarrow> string \<Rightarrow> string \<Rightarrow> string \<Rightarrow> json_object \<Rightarrow> json option \<Rightarrow> json option \<Rightarrow> jobs_store
    \<Rightarrow> (job_row \<times> jobs_store) jobs_result" where
  "retry_job_with_download_binding pol now job_hex job_id payload_changes provenance binding s =
     result_bind (get_job job_id s) (\<lambda>job.
       if j_attempts job \<ge> MAX_JOB_ATTEMPTS then Inl (RetryLimit MAX_JOB_ATTEMPTS)
       else
         let payload = extend_map (j_payload job) payload_changes in
         if \<not> binding_ok binding payload
         then Inl (InvalidStatus ''Download binding changed during replay'')
         else
           result_bind (create_job_on_connection pol now job_hex
             \<lparr> cr_job_type = j_type job, cr_project_id = j_project_id job,
               cr_project_name = j_project_name job, cr_payload = payload,
               cr_requested_gpu = j_requested_gpu job, cr_source_job_id = Some (j_id job),
               cr_duplicate_of_job_id = None, cr_attempts = j_attempts job + 1,
               cr_initial_status = None \<rparr>
             None (replay_provenance provenance payload_changes job) s) (\<lambda>(new, s').
               Inr (new, write_download_binding (j_id new) binding s')))"

definition retry_job ::
  "routing_policy \<Rightarrow> string \<Rightarrow> string \<Rightarrow> string \<Rightarrow> json_object \<Rightarrow> jobs_store \<Rightarrow> (job_row \<times> jobs_store) jobs_result" where
  "retry_job pol now job_hex job_id payload_changes s =
     retry_job_with_download_binding pol now job_hex job_id payload_changes None None s"

text \<open>A duplicated YuE2 job is a new take with its own run directory.\<close>

definition refresh_block_for_duplicate :: "string \<Rightarrow> json_object \<Rightarrow> json_object" where
  "refresh_block_for_duplicate run_hex payload =
     (case get_object payload ''yue2'' of
        None \<Rightarrow> payload
      | Some block \<Rightarrow>
          fmupd ''yue2'' (JObj (fmdrop ''batch'' (fmupd ''runId'' (JStr (''yue2run_'' @ run_hex)) block))) payload)"

definition duplicate_job_with_download_binding ::
  "routing_policy \<Rightarrow> string \<Rightarrow> string \<Rightarrow> string \<Rightarrow> string option \<Rightarrow> string \<Rightarrow> json_object \<Rightarrow> string option
    \<Rightarrow> json option \<Rightarrow> json option \<Rightarrow> jobs_store \<Rightarrow> (job_row \<times> jobs_store) jobs_result" where
  "duplicate_job_with_download_binding pol now job_hex run_hex new_id job_id payload_changes requested_gpu
     provenance binding s =
     result_bind (get_job job_id s) (\<lambda>job.
       let payload = extend_map (j_payload job) payload_changes in
       if \<not> binding_ok binding payload
       then Inl (InvalidStatus ''Download binding changed during replay'')
       else
         result_bind (create_job_on_connection pol now job_hex
           \<lparr> cr_job_type = j_type job, cr_project_id = j_project_id job,
             cr_project_name = j_project_name job,
             cr_payload = refresh_block_for_duplicate run_hex payload,
             cr_requested_gpu = (case requested_gpu of None \<Rightarrow> j_requested_gpu job | Some g \<Rightarrow> g),
             cr_source_job_id = None, cr_duplicate_of_job_id = Some (j_id job), cr_attempts = 1,
             cr_initial_status = None \<rparr>
           new_id (replay_provenance provenance payload_changes job) s) (\<lambda>(new, s').
             Inr (new, write_download_binding (j_id new) binding s')))"

definition duplicate_job ::
  "routing_policy \<Rightarrow> string \<Rightarrow> string \<Rightarrow> string \<Rightarrow> string \<Rightarrow> json_object \<Rightarrow> string option \<Rightarrow> jobs_store
    \<Rightarrow> (job_row \<times> jobs_store) jobs_result" where
  "duplicate_job pol now job_hex run_hex job_id payload_changes requested_gpu s =
     duplicate_job_with_download_binding pol now job_hex run_hex None job_id payload_changes
       requested_gpu None None s"

subsection \<open>Clearing\<close>

definition clear_terminal_jobs :: "string \<Rightarrow> string option \<Rightarrow> jobs_store \<Rightarrow> (string list \<times> jobs_store) jobs_result" where
  "clear_terminal_jobs now project_id s =
     (let guard = (\<lambda>r. is_terminal_status (j_status r) \<and> j_cleared_at r = None \<and> in_project project_id r);
          cleared_ids = map j_id (order_by newest_first (filter guard (s_jobs s)));
          s' = (if cleared_ids \<noteq> [] then update_jobs guard (set_cleared now) s else s)
      in Inr (cleared_ids, s'))"

definition clear_job :: "string \<Rightarrow> string \<Rightarrow> jobs_store \<Rightarrow> (job_row \<times> jobs_store) jobs_result" where
  "clear_job now job_id s =
     result_bind (get_job job_id s) (\<lambda>job.
       if \<not> is_terminal_status (j_status job) then
         Inl (InvalidStatus (''job '' @ job_id @ '' is '' @ job_status_str (j_status job) @ '' '' @
           dash_bytes @ '' only completed, failed, canceled, or interrupted jobs can be cleared''))
       else
         let s' = update_jobs (\<lambda>r. j_id r = job_id \<and> j_cleared_at r = None) (set_cleared now) s
         in result_bind (get_job job_id s') (\<lambda>job'. Inr (job', s')))"

text \<open>The initialize-time repair of stale projections.\<close>

definition persist_claim_routing_facts :: "string \<Rightarrow> claim_routing_facts \<Rightarrow> jobs_store \<Rightarrow> jobs_store" where
  "persist_claim_routing_facts job_id facts s =
     update_jobs (\<lambda>r. j_id r = job_id) (\<lambda>r. set_projection facts (j_payload_revision r) r) s"

definition backfill_claim_routing_facts :: "routing_policy \<Rightarrow> jobs_store \<Rightarrow> jobs_store" where
  "backfill_claim_routing_facts pol s =
     fold (\<lambda>(job_id, facts). persist_claim_routing_facts job_id facts)
       (map (\<lambda>r. (j_id r, facts_from_parts pol (j_type r) (j_payload r)))
          (order_by oldest_first (filter projection_stale (s_jobs s)))) s"

subsection \<open>Every operation moves the table by its statements\<close>

abbreviation jobs_ok :: "jobs_store \<Rightarrow> bool" where
  "jobs_ok s \<equiv> \<forall>r \<in> set (s_jobs s). row_ok r"

lemma find_keyed_row:
  "distinct (map key t) \<Longrightarrow> r \<in> set t \<Longrightarrow> P r \<Longrightarrow> find (\<lambda>x. key x = key r \<and> P x) t = Some r"
proof (induction t)
  case (Cons x t)
  then show ?case by (cases "x = r") (auto simp: image_iff)
qed simp

lemma filter_keyed_row:
  "distinct (map key t) \<Longrightarrow> r \<in> set t \<Longrightarrow> P r \<Longrightarrow> filter (\<lambda>x. key x = key r \<and> P x) t = [r]"
proof (induction t)
  case (Cons x t)
  then show ?case by (cases "x = r") (auto simp: image_iff filter_empty_conv)
qed simp

lemma get_job_Inr: "get_job i s = Inr job \<longleftrightarrow> find_job i s = Some job"
  by (simp add: get_job_def ok_or_Inr)

lemma get_job_Inl: "get_job i s = Inl e \<longleftrightarrow> find_job i s = None \<and> e = NotFound i"
  by (cases "find_job i s") (auto simp: get_job_def)

lemma find_job_SomeD: "find_job i s = Some job \<Longrightarrow> job \<in> set (s_jobs s) \<and> j_id job = i"
  by (rule lookup_row_SomeD)

lemma find_job_unique:
  "distinct (map j_id (s_jobs s)) \<Longrightarrow> find_job i s = Some job \<Longrightarrow> r \<in> set (s_jobs s) \<Longrightarrow> j_id r = i \<Longrightarrow> r = job"
  using lookup_row_member [of j_id "s_jobs s" r] by simp

lemma after_update_id [simp]:
  "j_id (after_update r r') = j_id r'"
  by (simp add: after_update_def)

text \<open>Looking a job up after an update that keeps the ids.\<close>

lemma find_job_update_jobs:
  assumes "\<And>r. P r \<Longrightarrow> j_id (f r) = j_id r"
  shows "find_job i (update_jobs P f s) =
    map_option (\<lambda>r. if P r then after_update r (f r) else r) (find_job i s)"
  using assms by (simp add: lookup_row_sql_update)

lemma setter_id [simp]:
  "j_id (set_released st now m e r) = j_id r"
  "j_id (set_queued now m r) = j_id r"
  "j_id (set_projection facts v r) = j_id r"
  "j_id (set_payload pl facts now r) = j_id r"
  "j_id (set_promoted pl facts now r) = j_id r"
  "j_id (set_terminated st m e' now r) = j_id r"
  "j_id (set_canceled now r) = j_id r"
  "j_id (set_cancel_requested now r) = j_id r"
  "j_id (set_rank n now r) = j_id r"
  "j_id (set_cleared now r) = j_id r"
  "j_id (set_heartbeat now r) = j_id r"
  "j_id (set_binding b r) = j_id r"
  "j_id (set_stamped pl r) = j_id r"
  "j_id (set_claimed g w now r) = j_id r"
  "j_id (set_progress p r) = j_id r"
  "j_id (set_deferred k i r) = j_id r"
  "j_id (set_result res now c r) = j_id r"
  by (simp_all add: setter_defs)

lemma initial_status_pending: "initial_status request = Inr status \<Longrightarrow> is_pending_status status"
  by (auto simp: initial_status_def split: option.splits if_splits)

lemma create_on_connection_Inr:
  assumes "create_job_on_connection pol now job_hex request job_id provenance s = Inr (job, s')"
  obtains rank status where
    "initial_status request = Inr status"
    "rank = (if job_type_automatically_jumps_queue (cr_job_type request) then max_queue_rank (s_jobs s) + 1 else 0)"
    "job = new_job_row pol now (case job_id of Some i \<Rightarrow> i | None \<Rightarrow> ''job_'' @ job_hex) rank status request provenance"
    "find_job (j_id job) s = None" "s' = s\<lparr> s_jobs := s_jobs s @ [job] \<rparr>"
    "job_requires_gpu (cr_job_type request) \<longrightarrow> normalize_requested_gpu (cr_requested_gpu request) \<noteq> ''cpu''"
  using assms
  by (auto simp: create_job_on_connection_def Let_def result_bind_Inr insert_job_def get_job_Inr
      lookup_row_append new_job_row_def split: if_splits)

lemma new_job_row_fresh:
  assumes "is_pending_status status" "0 \<le> rank"
    and "job_requires_gpu (cr_job_type request) \<Longrightarrow> normalize_requested_gpu (cr_requested_gpu request) \<noteq> ''cpu''"
  shows "fresh_row pol (new_job_row pol now i rank status request provenance)"
  using assms by (auto simp: fresh_row_def new_job_row_def)

lemma create_on_connection_live:
  assumes "create_job_on_connection pol now job_hex request job_id provenance s = Inr (job, s')" and "jobs_ok s"
  shows "live_step pol ww (s_jobs s) (s_jobs s')" and "fresh_row pol job" and "find_job (j_id job) s' = Some job"
proof -
  from assms(1) obtain rank status where
    status: "initial_status request = Inr status"
    and rank: "rank = (if job_type_automatically_jumps_queue (cr_job_type request) then max_queue_rank (s_jobs s) + 1 else 0)"
    and job: "job = new_job_row pol now (case job_id of Some i \<Rightarrow> i | None \<Rightarrow> ''job_'' @ job_hex) rank status request provenance"
    and none: "find_job (j_id job) s = None" and s': "s' = s\<lparr> s_jobs := s_jobs s @ [job] \<rparr>"
    and gpu: "job_requires_gpu (cr_job_type request) \<longrightarrow> normalize_requested_gpu (cr_requested_gpu request) \<noteq> ''cpu''"
    by (rule create_on_connection_Inr)
  have "0 \<le> max_queue_rank (s_jobs s)"
    using assms(2) by (intro max_queue_rank_nonneg) (simp add: row_ok_def row_in_range_def)
  then have "0 \<le> rank" by (simp add: rank)
  then show fresh: "fresh_row pol job"
    unfolding job using initial_status_pending [OF status] gpu by (intro new_job_row_fresh) auto
  from none have "j_id job \<notin> j_id ` set (s_jobs s)" by (simp add: lookup_row_None)
  with fresh show "live_step pol ww (s_jobs s) (s_jobs s')"
    unfolding s' by (simp add: live_step.insert)
  from none show "find_job (j_id job) s' = Some job" by (simp add: s' lookup_row_append)
qed

text \<open>A binding is written to the row just inserted, the only one with its id.\<close>

lemma binding_live:
  assumes "distinct (map j_id (s_jobs s))" "find_job i s = Some job" "fresh_row pol job"
  shows "live_steps pol ww (s_jobs s) (s_jobs (write_download_binding i binding s))"
proof (cases binding)
  case (Some b)
  have "job_sql pol ww r (after_update r (set_binding b r))" if "r \<in> set (s_jobs s)" "j_id r = i" for r
  proof -
    have "r = job" using find_job_unique [OF assms(1,2)] that by simp
    with assms(3) show ?thesis by (auto simp: fresh_row_def intro: job_sql.bind_download)
  qed
  then show ?thesis
    unfolding write_download_binding_def Some option.case by (rule live_steps_update_jobs)
qed (simp add: write_download_binding_def)

lemma create_and_bind_live:
  assumes "create_job_on_connection pol now job_hex request job_id provenance s = Inr (job, s')"
    and "jobs_ok s" and "distinct (map j_id (s_jobs s))"
  shows "live_steps pol ww (s_jobs s) (s_jobs (write_download_binding (j_id job) binding s'))"
proof -
  note live = create_on_connection_live [OF assms(1,2)]
  have "distinct (map j_id (s_jobs s'))" using live_step_ids [OF live(1) assms(3)] .
  from binding_live [OF this live(3,2)] live(1) show ?thesis
    by (meson converse_rtranclp_into_rtranclp)
qed

lemma create_job_live:
  assumes "create_job_with_download_binding pol now job_hex request provenance binding s = Inr (job, s')"
    and "jobs_ok s" and "distinct (map j_id (s_jobs s))"
  shows "live_steps pol ww (s_jobs s) (s_jobs s')"
  using assms(1) create_and_bind_live [OF _ assms(2,3)]
  by (auto simp: create_job_with_download_binding_def result_bind_Inr)

lemma create_job_with_id_live:
  assumes "create_job_with_id pol now job_id request s = Inr (job, s')" and "jobs_ok s"
  shows "live_steps pol ww (s_jobs s) (s_jobs s')"
  using assms create_on_connection_live(1) by (force simp: create_job_with_id_def)

lemma retry_job_live:
  assumes "retry_job_with_download_binding pol now job_hex job_id changes provenance binding s = Inr (job, s')"
    and "jobs_ok s" and "distinct (map j_id (s_jobs s))"
  shows "live_steps pol ww (s_jobs s) (s_jobs s')"
  using assms(1) create_and_bind_live [OF _ assms(2,3)]
  by (auto simp: retry_job_with_download_binding_def Let_def result_bind_Inr split: if_splits)

lemma duplicate_job_live:
  assumes "duplicate_job_with_download_binding pol now job_hex run_hex new_id job_id changes gpu provenance binding s
      = Inr (job, s')"
    and "jobs_ok s" and "distinct (map j_id (s_jobs s))"
  shows "live_steps pol ww (s_jobs s) (s_jobs s')"
  using assms(1) create_and_bind_live [OF _ assms(2,3)]
  by (auto simp: duplicate_job_with_download_binding_def Let_def result_bind_Inr split: if_splits)

lemma promote_pending_caption_live:
  assumes "promote_pending_caption_job pol now job_id new_payload s = Inr (out, s')"
    and "distinct (map j_id (s_jobs s))"
  shows "live_steps pol ww (s_jobs s) (s_jobs s')"
proof (cases new_payload)
  case None
  with assms(1) have "s' = update_jobs (\<lambda>r. j_id r = job_id \<and> j_status r = PendingCaption)
      (set_queued now ''Waiting for an available worker.'') s"
    by (auto simp: promote_pending_caption_job_def Let_def result_bind_Inr)
  then show ?thesis
    by (auto simp del: update_jobs_sel intro!: live_steps_update_jobs job_sql.enqueue)
next
  case (Some payload)
  with assms(1) obtain job where job: "find_job job_id s = Some job"
    and s': "s' = update_jobs (\<lambda>r. j_id r = job_id \<and> j_status r = PendingCaption)
      (set_promoted payload (facts_from_parts pol (j_type job) payload) now) s"
    by (auto simp: promote_pending_caption_job_def Let_def result_bind_Inr get_job_Inr)
  show ?thesis unfolding s'
    using find_job_unique [OF assms(2) job]
    by (intro live_steps_update_jobs) (auto intro: job_sql.promote)
qed

lemma update_pending_workflow_payload_live:
  assumes "update_pending_workflow_payload pol now job_id payload s = Inr (out, s')"
    and "distinct (map j_id (s_jobs s))"
  shows "live_steps pol ww (s_jobs s) (s_jobs s')"
proof -
  from assms(1) obtain job where job: "find_job job_id s = Some job"
    and s': "s' = update_jobs (\<lambda>r. j_id r = job_id \<and> j_status r = PendingWorkflow)
      (set_payload payload (facts_from_parts pol (j_type job) payload) now) s"
    by (auto simp: update_pending_workflow_payload_def Let_def result_bind_Inr get_job_Inr)
  show ?thesis unfolding s'
    using find_job_unique [OF assms(2) job]
    by (intro live_steps_update_jobs) (auto intro: job_sql.workflow_payload)
qed

lemma enqueue_pending_workflow_live:
  assumes "enqueue_pending_workflow_job now job_id s = Inr (out, s')"
  shows "live_steps pol ww (s_jobs s) (s_jobs s')"
  using assms
  by (auto simp: enqueue_pending_workflow_job_def Let_def result_bind_Inr
      intro!: live_steps_update_jobs [simplified] job_sql.enqueue)

lemma promote_pending_workflow_live:
  assumes "promote_pending_workflow_job pol now now' job_id payload s = Inr (out, s')"
    and "distinct (map j_id (s_jobs s))"
  shows "live_steps pol ww (s_jobs s) (s_jobs s')"
proof -
  from assms(1) obtain changed job mid where
    mid: "update_pending_workflow_payload pol now job_id payload s = Inr ((changed, job), mid)"
    and rest: "s' = mid \<or> enqueue_pending_workflow_job now' job_id mid = Inr (out, s')"
    by (auto simp: promote_pending_workflow_job_def result_bind_Inr split: if_splits)
  note first = update_pending_workflow_payload_live [OF mid assms(2)]
  from rest show ?thesis
  proof
    assume "enqueue_pending_workflow_job now' job_id mid = Inr (out, s')"
    from first enqueue_pending_workflow_live [OF this] show ?thesis by (rule rtranclp_trans)
  qed (use first in simp)
qed

lemma terminate_pending_workflow_live:
  assumes "terminate_pending_workflow_job now job_id status message error s = Inr (out, s')"
  shows "live_steps pol ww (s_jobs s) (s_jobs s')"
proof -
  from assms have s': "s' = update_jobs (\<lambda>r. j_id r = job_id \<and> j_status r = PendingWorkflow)
      (set_terminated status message error now) s" and "status \<in> {Failed, Canceled, Interrupted}"
    by (auto simp: terminate_pending_workflow_job_def Let_def result_bind_Inr split: if_splits)
  then show ?thesis unfolding s'
    by (intro live_steps_update_jobs) (auto intro: job_sql.terminate_workflow)
qed

lemma pending_status_cases: "is_pending_status st \<longleftrightarrow> st \<in> {Queued, PendingCaption, PendingWorkflow}"
  by (simp add: status_class_defs)

lemma cancel_job_live:
  assumes "cancel_job now job_id s = Inr (job, s')" and "distinct (map j_id (s_jobs s))"
  shows "live_steps pol ww (s_jobs s) (s_jobs s')"
proof -
  from assms(1) obtain cur where cur: "find_job job_id s = Some cur"
    and cases: "s' = s \<or> (\<not> is_terminal_status (j_status cur) \<and>
      s' = update_jobs (\<lambda>r. j_id r = job_id)
        (if is_pending_status (j_status cur) then set_canceled now else set_cancel_requested now) s)"
    by (auto simp: cancel_job_def Let_def result_bind_Inr get_job_Inr pending_status_cases split: if_splits)
  then show ?thesis
    using find_job_unique [OF assms(2) cur]
    by (auto simp del: update_jobs_sel intro!: live_steps_update_jobs intro: job_sql.cancel job_sql.request_cancel)
qed

lemma cancel_pending_live:
  assumes "cancel_pending_jobs now project_id s = Inr (out, s')"
  shows "live_steps pol ww (s_jobs s) (s_jobs s')"
proof -
  from assms have "s' = s \<or> s' = update_jobs
      (\<lambda>r. is_pending_status (j_status r) \<and> in_project project_id r) (set_canceled now) s"
    by (auto simp: cancel_pending_jobs_def Let_def result_bind_Inr split: if_splits)
  then show ?thesis
    by (auto simp del: update_jobs_sel intro!: live_steps_update_jobs job_sql.cancel)
qed

lemma clear_terminal_live:
  assumes "clear_terminal_jobs now project_id s = Inr (out, s')"
  shows "live_steps pol ww (s_jobs s) (s_jobs s')"
proof -
  from assms have "s' = s \<or> s' = update_jobs
      (\<lambda>r. is_terminal_status (j_status r) \<and> j_cleared_at r = None \<and> in_project project_id r) (set_cleared now) s"
    by (auto simp: clear_terminal_jobs_def Let_def split: if_splits)
  then show ?thesis
    by (auto simp del: update_jobs_sel intro!: live_steps_update_jobs job_sql.clear)
qed

lemma clear_job_live:
  assumes "clear_job now job_id s = Inr (job, s')" and "distinct (map j_id (s_jobs s))"
  shows "live_steps pol ww (s_jobs s) (s_jobs s')"
proof -
  from assms(1) obtain cur where cur: "find_job job_id s = Some cur" "is_terminal_status (j_status cur)"
    and s': "s' = update_jobs (\<lambda>r. j_id r = job_id \<and> j_cleared_at r = None) (set_cleared now) s"
    by (auto simp: clear_job_def Let_def result_bind_Inr get_job_Inr split: if_splits)
  then show ?thesis unfolding s'
    using find_job_unique [OF assms(2) cur(1)]
    by (intro live_steps_update_jobs) (auto intro: job_sql.clear)
qed

lemma i64_of_nat_mono: "m \<le> n \<Longrightarrow> i64_of_nat m \<le> i64_of_nat n"
  by (auto simp: i64_of_nat_def)

lemma saturating_nonneg:
  "b \<le> a \<Longrightarrow> 0 \<le> saturating_sub a b" "0 \<le> a \<Longrightarrow> 0 \<le> b \<Longrightarrow> 0 \<le> saturating_add a b"
  by (simp_all add: saturating_sub_def saturating_add_def sat_i64_def i64_max_def i64_min_def)

lemma assign_ranks_live:
  "0 \<le> current_max \<Longrightarrow> index + length ids \<le> n \<Longrightarrow>
   live_steps pol ww (s_jobs s) (s_jobs (assign_ranks now current_max n index ids s))"
proof (induction ids arbitrary: index s)
  case (Cons i ids)
  let ?rank = "saturating_add current_max (saturating_sub (i64_of_nat n) (i64_of_nat index))"
  let ?s = "update_jobs (\<lambda>r. j_id r = i \<and> is_pending_status (j_status r)) (set_rank ?rank now) s"
  have "0 \<le> ?rank" using Cons.prems by (intro saturating_nonneg i64_of_nat_mono) auto
  then have "live_steps pol ww (s_jobs s) (s_jobs ?s)"
    by (intro live_steps_update_jobs) (auto intro: job_sql.prioritize)
  moreover have "live_steps pol ww (s_jobs ?s) (s_jobs (assign_ranks now current_max n (Suc index) ids ?s))"
    using Cons.prems by (intro Cons.IH) auto
  ultimately show ?case by (simp add: Let_def del: update_jobs_sel)
qed simp

lemma jobs_ok_max_rank: "jobs_ok s \<Longrightarrow> 0 \<le> max_queue_rank (s_jobs s)"
  by (intro max_queue_rank_nonneg) (simp add: row_ok_def row_in_range_def)

lemma prioritize_live:
  assumes "prioritize_jobs now job_ids s = Inr (out, s')" and "jobs_ok s"
  shows "live_steps pol ww (s_jobs s) (s_jobs s')"
  using assms assign_ranks_live [OF jobs_ok_max_rank [OF assms(2)]]
  by (auto simp: prioritize_jobs_def Let_def result_bind_Inr split: if_splits)

text \<open>
  The repair runs over the ids read before its first write, so it needs that a row keeps its
  type and payload while other rows are repaired.
\<close>

lemma persist_jobs:
  "s_jobs (persist_claim_routing_facts i facts s) =
   sql_update (\<lambda>r. j_id r = i)
     (\<lambda>r. after_update r (set_projection facts (j_payload_revision r) r)) (s_jobs s)"
  by (simp add: persist_claim_routing_facts_def)

lemma backfill_fold_live:
  assumes "distinct (map j_id (s_jobs s))" and "distinct (map j_id rows)"
    and "set rows \<subseteq> set (s_jobs s)" and "\<forall>r \<in> set rows. projection_stale r"
  shows "live_steps pol ww (s_jobs s) (s_jobs
    (fold (\<lambda>(i, facts). persist_claim_routing_facts i facts)
      (map (\<lambda>r. (j_id r, facts_from_parts pol (j_type r) (j_payload r))) rows) s))"
  using assms
proof (induction rows arbitrary: s)
  case (Cons r rows)
  let ?s = "persist_claim_routing_facts (j_id r) (facts_from_parts pol (j_type r) (j_payload r)) s"
  have r: "r \<in> set (s_jobs s)" using Cons.prems by simp
  have same: "x = r" if "x \<in> set (s_jobs s)" "j_id x = j_id r" for x
    using that r Cons.prems(1) by (metis lookup_row_member option.inject)
  have live: "live_step pol ww (s_jobs s) (s_jobs ?s)"
    unfolding persist_claim_routing_facts_def
    using same Cons.prems(4) by (intro live_step_update_jobs) (auto intro: job_sql.reproject)
  have "x \<in> set (s_jobs ?s)" if "x \<in> set rows" for x
  proof -
    from that Cons.prems have "x \<in> set (s_jobs s)" "j_id x \<noteq> j_id r"
      by (auto simp: image_iff)
    then show ?thesis by (auto simp: persist_jobs set_sql_update intro: rev_image_eqI)
  qed
  then have "live_steps pol ww (s_jobs ?s) (s_jobs
    (fold (\<lambda>(i, facts). persist_claim_routing_facts i facts)
      (map (\<lambda>r. (j_id r, facts_from_parts pol (j_type r) (j_payload r))) rows) ?s))"
    using Cons.prems live_step_ids [OF live Cons.prems(1)] by (intro Cons.IH) auto
  with live show ?case by (simp add: converse_rtranclp_into_rtranclp)
qed simp

lemma distinct_order_by_map:
  "distinct (map key t) \<Longrightarrow> distinct (map key (order_by before t))"
  by (metis mset_map mset_order_by mset_eq_imp_distinct_iff)

lemma backfill_live:
  assumes "distinct (map j_id (s_jobs s))"
  shows "live_steps pol ww (s_jobs s) (s_jobs (backfill_claim_routing_facts pol s))"
  unfolding backfill_claim_routing_facts_def
  by (intro backfill_fold_live assms distinct_order_by_map) (auto simp: assms distinct_map_filter)

subsection \<open>What the operations compute\<close>

lemma find_job_update_other:
  assumes "\<And>r. P r \<Longrightarrow> j_id (f r) = j_id r" and "\<And>r. P r \<Longrightarrow> j_id r \<noteq> k"
  shows "find_job k (update_jobs P f s) = find_job k s"
proof -
  have "find_job k (update_jobs P f s) =
      map_option (\<lambda>r. if P r then after_update r (f r) else r) (find_job k s)"
    by (rule find_job_update_jobs) (rule assms(1))
  moreover have "\<not> P r" if "find_job k s = Some r" for r
    using assms(2) lookup_row_SomeD [OF that] by blast
  ultimately show ?thesis by (cases "find_job k s") simp_all
qed

lemma find_job_update_self:
  assumes "find_job i s = Some r" and "\<And>x. j_id (f x) = j_id x"
  shows "find_job i (update_jobs (\<lambda>x. j_id x = i) f s) = Some (after_update r (f r))"
  using assms by (subst find_job_update_jobs) (auto dest: lookup_row_SomeD)

lemma cancel_job_terminal:
  "find_job i s = Some r \<Longrightarrow> is_terminal_status (j_status r) \<Longrightarrow> cancel_job now i s = Inr (r, s)"
  by (simp add: cancel_job_def get_job_def)

lemma cancel_job_pending:
  assumes "find_job i s = Some r" "is_pending_status (j_status r)"
  shows "cancel_job now i s =
    Inr (after_update r (set_canceled now r), update_jobs (\<lambda>x. j_id x = i) (set_canceled now) s)"
proof -
  have "j_status r \<in> {Queued, PendingCaption, PendingWorkflow}" "\<not> is_terminal_status (j_status r)"
    using assms(2) by (auto simp: pending_status_cases)
  then show ?thesis
    using assms(1) find_job_update_self [OF assms(1), of "set_canceled now"]
    by (simp add: cancel_job_def get_job_def del: update_jobs_sel)
qed

lemma cancel_job_active:
  assumes "find_job i s = Some r" "\<not> is_pending_status (j_status r)" "\<not> is_terminal_status (j_status r)"
  shows "cancel_job now i s =
    Inr (after_update r (set_cancel_requested now r), update_jobs (\<lambda>x. j_id x = i) (set_cancel_requested now) s)"
proof -
  have "j_status r \<notin> {Queued, PendingCaption, PendingWorkflow}"
    using assms(2) by (simp add: pending_status_cases)
  then show ?thesis
    using assms find_job_update_self [OF assms(1), of "set_cancel_requested now"]
    by (simp add: cancel_job_def get_job_def del: update_jobs_sel)
qed

lemma create_with_id_Inl:
  assumes "create_job_with_id pol now i request s = Inl e"
  shows "job_requires_gpu (cr_job_type request) \<and> normalize_requested_gpu (cr_requested_gpu request) = ''cpu''
    \<or> isl (initial_status request) \<or> (\<exists>r. find_job i s = Some r)"
proof (rule ccontr)
  assume no: "\<not> ?thesis"
  then obtain status where st: "initial_status request = Inr status" by (cases "initial_status request") auto
  from no have free: "find_job i s = None" by (cases "find_job i s") auto
  let ?row = "\<lambda>rank. new_job_row pol now i rank status request None"
  have "find_job i (s\<lparr> s_jobs := s_jobs s @ [?row rank] \<rparr>) = Some (?row rank)" for rank
    using free by (simp add: lookup_row_append new_job_row_def)
  then show False
    using assms no st free
    by (auto simp: create_job_with_id_def create_job_on_connection_def insert_job_def get_job_def Let_def new_job_row_def)
qed

lemma create_with_id_Inr:
  assumes "create_job_with_id pol now i request s = Inr (job, s')"
  shows "find_job i s = None \<and> s_jobs s' = s_jobs s @ [job] \<and> s_workers s' = s_workers s
    \<and> j_id job = i \<and> initial_status request = Inr (j_status job) \<and> is_pending_status (j_status job)
    \<and> j_worker_id job = None \<and> j_payload job = cr_payload request \<and> j_attempts job = cr_attempts request
    \<and> \<not> projection_stale job \<and> projection_faithful pol job
    \<and> list_all (\<lambda>r. if job_type_automatically_jumps_queue (j_type job)
         then j_queue_rank r < j_queue_rank job else j_queue_rank job = 0) (s_jobs s)"
proof -
  from assms obtain rank status where
    st: "initial_status request = Inr status"
    and rank: "rank = (if job_type_automatically_jumps_queue (cr_job_type request) then max_queue_rank (s_jobs s) + 1 else 0)"
    and job: "job = new_job_row pol now i rank status request None"
    and free: "find_job i s = None" and s': "s' = s\<lparr> s_jobs := s_jobs s @ [job] \<rparr>"
    unfolding create_job_with_id_def by (rule create_on_connection_Inr) (auto simp: new_job_row_def)
  have above: "j_queue_rank r < max_queue_rank (s_jobs s) + 1" if "r \<in> set (s_jobs s)" for r
    using max_queue_rank_ge [OF that] by simp
  have "\<not> projection_stale job" "projection_faithful pol job"
    by (simp_all add: job new_job_row_def projection_stale_def projection_faithful_def facts_from_job_def)
  moreover have "list_all (\<lambda>r. if job_type_automatically_jumps_queue (j_type job)
         then j_queue_rank r < j_queue_rank job else j_queue_rank job = 0) (s_jobs s)"
    using above by (simp add: list_all_iff job new_job_row_def rank)
  ultimately show ?thesis
    using st free initial_status_pending [OF st] unfolding s' by (simp add: job new_job_row_def)
qed

text \<open>A retry is a queued copy under the next attempt; the retried row is not touched.\<close>

lemma retry_job_Inr:
  assumes "retry_job_with_download_binding pol now job_hex i changes provenance binding s = Inr (new, s')"
    and "find_job i s = Some old"
  shows "j_attempts new = j_attempts old + 1 \<and> j_attempts new \<le> MAX_JOB_ATTEMPTS \<and> j_status new = Queued
    \<and> j_source_job_id new = Some i \<and> j_type new = j_type old
    \<and> j_payload new = extend_map (j_payload old) changes
    \<and> find_job (j_id new) s = None
    \<and> j_model_provenance new = replay_provenance provenance changes old
    \<and> (\<forall>k. k \<noteq> j_id new \<longrightarrow> find_job k s' = find_job k s)"
proof -
  let ?request = "\<lparr> cr_job_type = j_type old, cr_project_id = j_project_id old,
    cr_project_name = j_project_name old, cr_payload = extend_map (j_payload old) changes,
    cr_requested_gpu = j_requested_gpu old, cr_source_job_id = Some (j_id old),
    cr_duplicate_of_job_id = None, cr_attempts = j_attempts old + 1, cr_initial_status = None \<rparr>"
  from assms obtain mid where
    limit: "j_attempts old < MAX_JOB_ATTEMPTS"
    and mid: "create_job_on_connection pol now job_hex ?request None (replay_provenance provenance changes old) s
      = Inr (new, mid)"
    and s': "s' = write_download_binding (j_id new) binding mid"
    by (auto simp: retry_job_with_download_binding_def get_job_def Let_def result_bind_Inr split: if_splits)
  from mid obtain rank status where
    "initial_status ?request = Inr status"
    and new: "new = new_job_row pol now (''job_'' @ job_hex) rank status ?request (replay_provenance provenance changes old)"
    and none: "find_job (j_id new) s = None" and mid_eq: "mid = s\<lparr> s_jobs := s_jobs s @ [new] \<rparr>"
    by (rule create_on_connection_Inr) simp
  then have status: "status = Queued" by (simp add: initial_status_def)
  have "find_job k s' = find_job k s" if "k \<noteq> j_id new" for k
  proof -
    have "find_job k s' = find_job k mid"
      unfolding s' write_download_binding_def
      using that by (cases binding) (auto simp del: update_jobs_sel intro: find_job_update_other)
    then show ?thesis using that by (simp add: mid_eq lookup_row_append split: option.split)
  qed
  moreover have "j_attempts new = j_attempts old + 1" "j_status new = Queued" "j_source_job_id new = Some i"
    "j_type new = j_type old" "j_payload new = extend_map (j_payload old) changes"
    "j_model_provenance new = replay_provenance provenance changes old"
    unfolding new new_job_row_def using status lookup_row_SomeD [OF assms(2)] by simp_all
  ultimately show ?thesis using limit none by simp
qed

text \<open>Projections after a promotion.\<close>

lemma promote_payload_Inr:
  assumes "distinct (map j_id (s_jobs s))" "find_job i s = Some r" "j_status r = PendingCaption"
  shows "promote_pending_caption_job pol now i (Some payload) s =
    Inr ((True, after_update r (set_promoted payload (facts_from_parts pol (j_type r) payload) now r)),
      update_jobs (\<lambda>x. j_id x = i \<and> j_status x = PendingCaption)
        (set_promoted payload (facts_from_parts pol (j_type r) payload) now) s)"
proof -
  have "r \<in> set (s_jobs s)" "j_id r = i" using assms(2) by (auto dest: lookup_row_SomeD)
  then have "affected (\<lambda>x. j_id x = i \<and> j_status x = PendingCaption) s > 0"
    using assms(3) by (auto simp: affected_def filter_empty_conv)
  moreover have "find_job i (update_jobs (\<lambda>x. j_id x = i \<and> j_status x = PendingCaption)
      (set_promoted payload (facts_from_parts pol (j_type r) payload) now) s) =
    Some (after_update r (set_promoted payload (facts_from_parts pol (j_type r) payload) now r))"
    using assms \<open>j_id r = i\<close> by (subst find_job_update_jobs) auto
  ultimately show ?thesis
    using assms by (simp add: promote_pending_caption_job_def get_job_def del: update_jobs_sel)
qed

lemma promoted_stale_iff:
  "projection_stale (after_update r (set_promoted payload (facts_from_parts pol (j_type r) payload) now r))
   \<longleftrightarrow> payload = j_payload r"
  by (simp add: after_update_eq) (auto simp: projection_stale_def setter_defs)

lemma workflow_payload_stale_iff:
  "projection_stale (after_update r (set_payload payload (facts_from_parts pol (j_type r) payload) now r))
   \<longleftrightarrow> payload = j_payload r"
  by (simp add: after_update_eq) (auto simp: projection_stale_def setter_defs)

text \<open>The repair leaves no stale projection.\<close>

lemma projected_not_stale: "\<not> projection_stale (after_update r (set_projection facts (j_payload_revision r) r))"
  by (simp add: after_update_eq) (simp add: projection_stale_def set_projection_def)

lemma persist_fold_rows:
  "r' \<in> set (s_jobs (fold (\<lambda>(i, facts). persist_claim_routing_facts i facts) js s)) \<Longrightarrow>
   \<not> projection_stale r' \<or> r' \<in> set (s_jobs s) \<and> j_id r' \<notin> fst ` set js"
proof (induction js arbitrary: s)
  case (Cons x js)
  obtain i facts where x: "x = (i, facts)" by force
  let ?s = "persist_claim_routing_facts i facts s"
  have "\<not> projection_stale r' \<or> r' \<in> set (s_jobs ?s) \<and> j_id r' \<notin> fst ` set js"
    using Cons.IH [of ?s] Cons.prems by (simp add: x)
  moreover have "\<not> projection_stale r' \<or> r' \<in> set (s_jobs s) \<and> j_id r' \<noteq> i" if "r' \<in> set (s_jobs ?s)"
    using that projected_not_stale by (auto simp: persist_jobs set_sql_update)
  ultimately show ?case by (auto simp: x)
qed simp

lemma backfill_no_stale:
  "r \<in> set (s_jobs (backfill_claim_routing_facts pol s)) \<Longrightarrow> \<not> projection_stale r"
  unfolding backfill_claim_routing_facts_def
  by (drule persist_fold_rows) (auto simp: image_iff)

lemma backfill_workers: "s_workers (backfill_claim_routing_facts pol s) = s_workers s"
proof -
  have "s_workers (fold (\<lambda>(i, facts). persist_claim_routing_facts i facts) js s) = s_workers s" for js
    by (induction js arbitrary: s) (auto simp: persist_claim_routing_facts_def)
  then show ?thesis by (simp add: backfill_claim_routing_facts_def)
qed

subsection \<open>Jumping the queue\<close>

abbreviation prioritized_rank :: "int \<Rightarrow> nat \<Rightarrow> nat \<Rightarrow> int" where
  "prioritized_rank current_max n index \<equiv>
     saturating_add current_max (saturating_sub (i64_of_nat n) (i64_of_nat index))"

lemma prioritized_rank_exact:
  assumes "0 \<le> current_max" "current_max + int n \<le> i64_max" "index \<le> n"
  shows "prioritized_rank current_max n index = current_max + int (n - index)"
  using assms
  by (simp add: saturating_add_def saturating_sub_def i64_of_nat_def sat_i64_def i64_max_def i64_min_def of_nat_diff)

lemma assign_ranks_other:
  "k \<notin> set ids \<Longrightarrow> find_job k (assign_ranks now m n index ids s) = find_job k s"
proof (induction ids arbitrary: index s)
  case (Cons i ids)
  then have "find_job k (assign_ranks now m n index (i # ids) s) =
      find_job k (update_jobs (\<lambda>r. j_id r = i \<and> is_pending_status (j_status r))
        (set_rank (prioritized_rank m n index) now) s)"
    by (simp add: Let_def del: update_jobs_sel)
  also have "\<dots> = find_job k s" using Cons.prems by (intro find_job_update_other) auto
  finally show ?case .
qed simp

lemma assign_ranks_nth:
  "distinct ids \<Longrightarrow> p < length ids \<Longrightarrow> find_job (ids ! p) s = Some r \<Longrightarrow> is_pending_status (j_status r) \<Longrightarrow>
   find_job (ids ! p) (assign_ranks now m n index ids s) =
     Some (after_update r (set_rank (prioritized_rank m n (index + p)) now r))"
proof (induction ids arbitrary: index s p)
  case (Cons i ids)
  let ?s = "update_jobs (\<lambda>r. j_id r = i \<and> is_pending_status (j_status r))
    (set_rank (prioritized_rank m n index) now) s"
  have unfold: "assign_ranks now m n index (i # ids) s = assign_ranks now m n (Suc index) ids ?s"
    by (simp add: Let_def)
  show ?case
  proof (cases p)
    case 0
    then have r: "find_job i s = Some r" using Cons.prems by simp
    then have "find_job i ?s = Some (after_update r (set_rank (prioritized_rank m n index) now r))"
      using Cons.prems lookup_row_SomeD [OF r] by (subst find_job_update_jobs) auto
    then show ?thesis using 0 Cons.prems assign_ranks_other [of i ids] by (simp add: unfold del: update_jobs_sel assign_ranks.simps)
  next
    case (Suc q)
    with Cons.prems have other: "ids ! q \<noteq> i" by auto
    have "find_job (ids ! q) ?s = find_job (ids ! q) s" using other by (intro find_job_update_other) auto
    then show ?thesis
      using Suc Cons.prems Cons.IH [of q ?s "Suc index"]
      by (simp add: unfold del: update_jobs_sel assign_ranks.simps)
  qed
qed simp

lemma assign_ranks_ids: "map j_id (s_jobs (assign_ranks now m n index ids s)) = map j_id (s_jobs s)"
proof (induction ids arbitrary: index s)
  case (Cons i ids)
  then show ?case by (simp add: Let_def map_sql_update_same)
qed simp

abbreviation prioritize_selection :: "string list \<Rightarrow> jobs_store \<Rightarrow> job_row list" where
  "prioritize_selection job_ids s \<equiv> order_by priority_order
     (filter (\<lambda>r. j_id r \<in> set job_ids \<and> is_pending_status (j_status r)) (s_jobs s))"

lemma prioritize_jobs_Inr:
  assumes ids: "distinct (map j_id (s_jobs s))"
    and sel: "sel = prioritize_selection job_ids s" and ne: "job_ids \<noteq> []"
  shows "\<exists>out s'. prioritize_jobs now job_ids s = Inr (out, s') \<and> length out = length sel
    \<and> (\<forall>p < length sel. out ! p =
         after_update (sel ! p) (set_rank (prioritized_rank (max_queue_rank (s_jobs s)) (length sel) p) now (sel ! p)))
    \<and> (\<forall>k. k \<notin> j_id ` set sel \<longrightarrow> find_job k s' = find_job k s)"
proof (cases "sel = []")
  case True
  with sel ne show ?thesis by (simp add: prioritize_jobs_def)
next
  case False
  let ?m = "max_queue_rank (s_jobs s)" and ?n = "length sel"
  let ?ids = "map j_id sel"
  let ?s = "assign_ranks now ?m ?n 0 ?ids s"
  have dist: "distinct ?ids" unfolding sel
    by (intro distinct_order_by_map) (simp add: ids distinct_map_filter)
  have sub: "set sel \<subseteq> set (s_jobs s)" and pend: "\<forall>r \<in> set sel. is_pending_status (j_status r)"
    by (auto simp: sel)
  have "j_id ` set (s_jobs ?s) = j_id ` set (s_jobs s)"
    using assign_ranks_ids [of now ?m ?n 0 ?ids s] by (metis list.set_map)
  then have "jobs_by_ids ?ids ?s = Inr (map (\<lambda>i. the (find_job i ?s)) ?ids)"
    using sub by (intro jobs_by_ids_ok dist) auto
  then have eq: "prioritize_jobs now job_ids s = Inr (map (\<lambda>i. the (find_job i ?s)) ?ids, ?s)"
    using False sel ne by (simp add: prioritize_jobs_def Let_def)
  have nth: "map (\<lambda>i. the (find_job i ?s)) ?ids ! p =
      after_update (sel ! p) (set_rank (prioritized_rank ?m ?n p) now (sel ! p))" if "p < ?n" for p
  proof -
    have "sel ! p \<in> set (s_jobs s)" using that sub nth_mem by blast
    then have "find_job (?ids ! p) s = Some (sel ! p)"
      using that lookup_row_member [OF ids] by simp
    then show ?thesis
      using that pend assign_ranks_nth [OF dist, of p s "sel ! p" now ?m ?n 0] by simp
  qed
  have "find_job k ?s = find_job k s" if "k \<notin> j_id ` set sel" for k
    using that by (intro assign_ranks_other) simp
  with eq nth show ?thesis by (intro exI [of _ "map (\<lambda>i. the (find_job i ?s)) ?ids"] exI [of _ ?s]) simp
qed

end
