(* ===== verification/JobWorkers.thy ===== *)
theory JobWorkers
  imports JobLifecycle
begin

text \<open>
  The worker side of the store and its recovery paths: registration, heartbeats, the stale
  sweep, the supervisor's report of a dead worker, the restart recovery, and the five
  sweeps that fail queued jobs no worker will ever claim.
\<close>

subsection \<open>Registration and heartbeats\<close>

record register_worker_request =
  rw_worker_id :: string
  rw_gpu_id :: string
  rw_gpu_name :: "string option"
  rw_capabilities :: "string list"
  rw_loaded_models :: "string list"
  rw_utilization :: "worker_utilization option"

definition new_worker_row :: "string \<Rightarrow> register_worker_request \<Rightarrow> worker_row" where
  "new_worker_row now request = \<lparr>
     w_id = rw_worker_id request, w_gpu_id = rw_gpu_id request, w_gpu_name = rw_gpu_name request,
     w_status = Idle, w_current_job_id = None, w_capabilities = rw_capabilities request,
     w_loaded_models = rw_loaded_models request, w_utilization = rw_utilization request,
     w_status_reason = None, w_registered_at = now, w_last_seen_at = now \<rparr>"

definition set_registered :: "string \<Rightarrow> register_worker_request \<Rightarrow> worker_row \<Rightarrow> worker_row" where
  "set_registered now request w = w\<lparr>
     w_gpu_id := rw_gpu_id request, w_gpu_name := rw_gpu_name request,
     w_status := (if w_current_job_id w = None then Idle else w_status w),
     w_status_reason := None, w_capabilities := rw_capabilities request,
     w_loaded_models := rw_loaded_models request, w_utilization := rw_utilization request,
     w_last_seen_at := now \<rparr>"

definition register_worker :: "string \<Rightarrow> register_worker_request \<Rightarrow> jobs_store \<Rightarrow> (worker_row \<times> jobs_store) jobs_result" where
  "register_worker now request s =
     (let i = rw_worker_id request;
          s' = (case find_worker i s of
                  None \<Rightarrow> s\<lparr> s_workers := s_workers s @ [new_worker_row now request] \<rparr>
                | Some _ \<Rightarrow> update_workers (\<lambda>w. w_id w = i) (set_registered now request) s)
      in result_bind (get_worker i s') (\<lambda>w. Inr (w, s')))"

record worker_heartbeat =
  hb_worker_id :: string
  hb_status :: worker_status
  hb_current_job_id :: "string option"
  hb_loaded_models :: "string list"
  hb_utilization :: "worker_utilization option"
  hb_status_reason :: "string option"

definition set_heartbeat_worker :: "string \<Rightarrow> worker_heartbeat \<Rightarrow> worker_row \<Rightarrow> worker_row" where
  "set_heartbeat_worker now request w = w\<lparr>
     w_status := hb_status request, w_current_job_id := hb_current_job_id request,
     w_loaded_models := hb_loaded_models request, w_utilization := hb_utilization request,
     w_status_reason := hb_status_reason request, w_last_seen_at := now \<rparr>"

text \<open>An idle heartbeat orphans the job the worker's row still names.\<close>

definition orphan_previous_job ::
  "string \<Rightarrow> worker_row \<Rightarrow> jobs_store \<Rightarrow> (job_row option \<times> jobs_store) jobs_result" where
  "orphan_previous_job now worker s =
     (case w_current_job_id worker of
        None \<Rightarrow> Inr (None, s)
      | Some previous_job_id \<Rightarrow>
          result_bind (get_job previous_job_id s) (\<lambda>previous_job.
            if is_active_status (j_status previous_job) \<and> j_last_heartbeat_at previous_job \<noteq> None then
              let s' = update_jobs (\<lambda>r. j_id r = previous_job_id)
                (set_released Interrupted now ''Job was interrupted after its worker restarted.''
                  ''Worker heartbeat no longer referenced the active job.'') s
              in result_bind (get_job previous_job_id s') (\<lambda>job. Inr (Some job, s'))
            else Inr (None, s)))"

definition heartbeat_worker ::
  "string \<Rightarrow> worker_heartbeat \<Rightarrow> jobs_store \<Rightarrow> ((worker_row \<times> job_row option) \<times> jobs_store) jobs_result" where
  "heartbeat_worker now request s =
     result_bind (get_worker (hb_worker_id request) s) (\<lambda>worker.
       result_bind (if hb_current_job_id request = None then orphan_previous_job now worker s else Inr (None, s))
         (\<lambda>(interrupted, s1).
           let s2 = update_workers (\<lambda>w. w_id w = hb_worker_id request) (set_heartbeat_worker now request) s1;
               s3 = (case hb_current_job_id request of
                       None \<Rightarrow> s2
                     | Some job_id \<Rightarrow>
                         update_jobs (\<lambda>r. j_id r = job_id \<and> j_worker_id r = Some (hb_worker_id request))
                           (set_heartbeat now) s2)
           in result_bind (get_worker (hb_worker_id request) s3) (\<lambda>w. Inr ((w, interrupted), s3))))"

subsection \<open>Recovery\<close>

text \<open>The instant \<open>timeout_seconds\<close> before now: \<open>i64::try_from(timeout.max(1))\<close>, saturating.\<close>

definition cutoff_instant :: "int \<Rightarrow> nat \<Rightarrow> string" where
  "cutoff_instant now_seconds timeout_seconds =
     format_unix_seconds (saturating_sub now_seconds (i64_of_nat (max timeout_seconds 1)))"

definition set_offline :: "worker_row \<Rightarrow> worker_row" where
  "set_offline w = w\<lparr> w_status := Offline, w_current_job_id := None, w_status_reason := None \<rparr>"

definition set_offline_at :: "string \<Rightarrow> worker_row \<Rightarrow> worker_row" where
  "set_offline_at now w = (set_offline w)\<lparr> w_last_seen_at := now \<rparr>"

definition worker_order :: "worker_row \<Rightarrow> worker_row \<Rightarrow> bool" where
  "worker_order = then_by (\<lambda>a b. text_less (w_gpu_id a) (w_gpu_id b)) (\<lambda>a b. text_less (w_id a) (w_id b))"

definition workers_by_ids :: "string list \<Rightarrow> jobs_store \<Rightarrow> worker_row list" where
  "workers_by_ids ids s = order_by worker_order (filter (\<lambda>w. w_id w \<in> set ids) (s_workers s))"

definition owned_by :: "string list \<Rightarrow> job_row \<Rightarrow> bool" where
  "owned_by ids r \<longleftrightarrow> (case j_worker_id r of None \<Rightarrow> False | Some w \<Rightarrow> w \<in> set ids)"

definition active_jobs_for_workers :: "string list \<Rightarrow> jobs_store \<Rightarrow> job_row list" where
  "active_jobs_for_workers ids s =
     filter (\<lambda>r. owned_by ids r \<and> is_active_status (j_status r)) (s_jobs s)"

text \<open>
  The wording of a stale job depends on whether its worker was ever seen by this process;
  the subquery is null, hence not less, for a worker that has no row.
\<close>

definition worker_last_seen :: "job_row \<Rightarrow> jobs_store \<Rightarrow> string option" where
  "worker_last_seen r s = Option.bind (j_worker_id r) (\<lambda>w. map_option w_last_seen_at (find_worker w s))"

definition seen_before_session :: "job_row \<Rightarrow> jobs_store \<Rightarrow> bool" where
  "seen_before_session r s =
     (case worker_last_seen r s of
        None \<Rightarrow> False
      | Some seen \<Rightarrow> text_less seen (case s_session_started_at s of None \<Rightarrow> [] | Some t \<Rightarrow> t))"

definition stale_message :: "job_row \<Rightarrow> jobs_store \<Rightarrow> string" where
  "stale_message r s =
     (if seen_before_session r s then ''SceneWorks stopped while this job was running.''
      else ''Lost contact with the worker.'')"

definition stale_error :: "nat \<Rightarrow> job_row \<Rightarrow> jobs_store \<Rightarrow> string" where
  "stale_error timeout_seconds r s =
     (if seen_before_session r s then
        ''SceneWorks stopped or restarted while this job was running, and its worker never reconnected. The last heartbeat was at '' @
        (case worker_last_seen r s of None \<Rightarrow> [] | Some seen \<Rightarrow> seen) @
        '' (UTC). The app, the worker, or the GPU driver may have crashed, or the app was closed; the app logs usually end at that moment, so check the operating system'' @ [CHR 0x27] @ ''s logs from that time. You can retry the job.''
      else ''No heartbeat from the worker for '' @ show_nat timeout_seconds @
        ''s. The worker may have crashed, hung, or lost its connection to the app. If it reconnects you can retry the job; if this keeps happening, check System '' @
        arrow_bytes @ '' Logs.'')"

definition stale_workers :: "string \<Rightarrow> jobs_store \<Rightarrow> worker_row list" where
  "stale_workers cutoff s =
     filter (\<lambda>w. w_status w \<noteq> Offline \<and> text_less (w_last_seen_at w) cutoff) (s_workers s)"

definition interrupt_stale_jobs :: "string \<Rightarrow> nat \<Rightarrow> string list \<Rightarrow> jobs_store \<Rightarrow> jobs_store" where
  "interrupt_stale_jobs now timeout_seconds ids s =
     update_jobs (\<lambda>r. owned_by ids r \<and> is_active_status (j_status r))
       (\<lambda>r. set_released Interrupted now (stale_message r s) (stale_error timeout_seconds r s) r) s"

definition release_workers :: "string \<Rightarrow> string list \<Rightarrow> jobs_store \<Rightarrow> jobs_store" where
  "release_workers now ids s = update_workers (\<lambda>w. w_id w \<in> set ids) (set_offline_at now) s"

definition mark_stale_workers_interrupted ::
  "int \<Rightarrow> nat \<Rightarrow> jobs_store \<Rightarrow> ((worker_row list \<times> job_row list) \<times> jobs_store) jobs_result" where
  "mark_stale_workers_interrupted now_seconds timeout_seconds s =
     (let ids = map w_id (stale_workers (cutoff_instant now_seconds timeout_seconds) s);
          now = format_unix_seconds now_seconds
      in if ids = [] then Inr (([], []), s)
         else
           let active = active_jobs_for_workers ids s;
               s' = release_workers now ids (interrupt_stale_jobs now timeout_seconds ids s)
           in result_bind (jobs_by_ids (map j_id active) s') (\<lambda>jobs.
                Inr ((workers_by_ids ids s', jobs), s')))"

text \<open>The busy worker whose row still names the job keeps it over an API restart.\<close>

definition held_by_busy_worker :: "jobs_store \<Rightarrow> job_row \<Rightarrow> bool" where
  "held_by_busy_worker s r \<longleftrightarrow> list_ex (\<lambda>w. j_worker_id r = Some (w_id w)
     \<and> w_status w = Busy \<and> w_current_job_id w = Some (j_id r)) (s_workers s)"

definition holds_active_job :: "jobs_store \<Rightarrow> worker_row \<Rightarrow> bool" where
  "holds_active_job s w \<longleftrightarrow> list_ex (\<lambda>r. j_worker_id r = Some (w_id w)
     \<and> w_current_job_id w = Some (j_id r) \<and> is_active_status (j_status r)) (s_jobs s)"

definition list_startup_stranded_active_jobs :: "jobs_store \<Rightarrow> job_row list" where
  "list_startup_stranded_active_jobs s =
     order_by newest_first
       (filter (\<lambda>r. is_active_status (j_status r) \<and> \<not> held_by_busy_worker s r) (s_jobs s))"

definition list_jobs_by_status :: "job_status list \<Rightarrow> jobs_store \<Rightarrow> job_row list" where
  "list_jobs_by_status statuses s =
     (if statuses = [] then []
      else order_by newest_first (filter (\<lambda>r. j_status r \<in> set statuses) (s_jobs s)))"

definition mark_interrupted_on_startup :: "string \<Rightarrow> jobs_store \<Rightarrow> (job_row list \<times> jobs_store) jobs_result" where
  "mark_interrupted_on_startup now s =
     (let interrupted = list_startup_stranded_active_jobs s;
          stranded_pending = list_jobs_by_status [PendingCaption] s;
          s1 = update_jobs (\<lambda>r. is_active_status (j_status r) \<and> \<not> held_by_busy_worker s r)
                 (set_released Interrupted now ''Job was interrupted by a backend restart.''
                    ''The backend restarted before this job finished.'') s;
          s2 = update_jobs (\<lambda>r. j_status r = PendingCaption)
                 (set_queued now ''Waiting for an available worker.'') s1;
          s3 = update_workers (\<lambda>w. w_status w \<noteq> Offline \<and> \<not> holds_active_job s2 w) set_offline s2
      in result_bind (jobs_by_ids (map j_id interrupted @ map j_id stranded_pending) s3) (\<lambda>jobs.
           Inr (jobs, s3)))"

subsection \<open>A dead worker\<close>

definition signal_name :: "int \<Rightarrow> string option" where
  "signal_name signal =
     (if signal = 1 then Some ''SIGHUP'' else if signal = 2 then Some ''SIGINT''
      else if signal = 6 then Some ''SIGABRT'' else if signal = 9 then Some ''SIGKILL''
      else if signal = 11 then Some ''SIGSEGV'' else if signal = 15 then Some ''SIGTERM'' else None)"

definition oom_remediation_hint :: "job_type option \<Rightarrow> string" where
  "oom_remediation_hint job_type =
     (case job_type of
        None \<Rightarrow> '', likely out-of-memory '' @ dash_bytes @ '' reduce the resolution or batch count''
      | Some t \<Rightarrow>
          if t \<in> {LoraTrain, ControlTraining} then
            '', likely out-of-memory during the first training step '' @ dash_bytes @
            '' enable Gradient Checkpointing or reduce resolution''
          else if t \<in> {VideoGenerate, VideoExtend, VideoBridge, VideoUpscale, PersonReplace} then
            '', likely out-of-memory '' @ dash_bytes @ '' reduce the resolution, frame count, or batch count''
          else if t \<in> {ImageGenerate, ImageEdit, ImageUpscale, ImageDetail, ImageSegment, ImageDepth,
                       ImageVqa, ImageInterleave} then
            '', likely out-of-memory '' @ dash_bytes @ '' reduce the image count or resolution''
          else '', likely out-of-memory '' @ dash_bytes @ '' reduce the resolution or batch count'')"

definition termination_failure_error :: "int option \<Rightarrow> int option \<Rightarrow> job_type option \<Rightarrow> string" where
  "termination_failure_error signal exit_code job_type =
     (case signal of
        Some sig \<Rightarrow>
          let hint = (if sig = 9 then oom_remediation_hint job_type
                      else if sig = 6 then '', likely a GPU/Metal command-buffer abort or assertion''
                      else if sig = 11 then '' (segmentation fault)'' else [])
          in (case signal_name sig of
                Some name \<Rightarrow> ''Worker terminated by signal '' @ show_int sig @ '' ('' @ name @ '')'' @ hint @ ''.''
              | None \<Rightarrow> ''Worker terminated by signal '' @ show_int sig @ hint @ ''.'')
      | None \<Rightarrow>
          (case exit_code of
             Some code \<Rightarrow>
               if code = 101 then
                 ''Worker process panicked and exited (code 101). Check System '' @ arrow_bytes @
                 '' Logs for the panic message.''
               else ''Worker process exited unexpectedly (code '' @ show_int code @ ''). Check System '' @
                 arrow_bytes @ '' Logs for the cause.''
           | None \<Rightarrow> ''Worker process terminated unexpectedly. Check System '' @ arrow_bytes @
               '' Logs for the cause.''))"

definition fail_worker_job_terminated ::
  "string \<Rightarrow> string \<Rightarrow> int option \<Rightarrow> int option \<Rightarrow> jobs_store \<Rightarrow> (job_row option \<times> jobs_store) jobs_result" where
  "fail_worker_job_terminated now worker_id signal exit_code s =
     result_bind
       (case active_jobs_for_workers [worker_id] s of
          [] \<Rightarrow> Inr (None, s)
        | job # _ \<Rightarrow>
            let s' = update_jobs (\<lambda>r. j_id r = j_id job \<and> is_active_status (j_status r))
              (set_released Failed now ''Worker process terminated unexpectedly.''
                 (termination_failure_error signal exit_code (Some (j_type job)))) s
            in result_bind (get_job (j_id job) s') (\<lambda>failed. Inr (Some failed, s')))
       (\<lambda>(failed, s').
          Inr (failed, update_workers (\<lambda>w. w_id w = worker_id) (set_offline_at now) s'))"

subsection \<open>Failing queued jobs\<close>

fun fail_queued_jobs :: "string \<Rightarrow> (string \<times> string \<times> string) list \<Rightarrow> jobs_store \<Rightarrow> string list \<times> jobs_store" where
  "fail_queued_jobs now [] s = ([], s)"
| "fail_queued_jobs now ((job_id, message, error) # candidates) s =
     (let guard = (\<lambda>r. j_id r = job_id \<and> j_status r = Queued);
          changed = affected guard s;
          (failed_ids, s') = fail_queued_jobs now candidates
            (update_jobs guard (set_released Failed now message error) s)
      in (if changed \<noteq> 0 then job_id # failed_ids else failed_ids, s'))"

definition model_or_unknown :: "json_object \<Rightarrow> string" where
  "model_or_unknown payload = (case get_str payload ''model'' of None \<Rightarrow> ''(unknown)'' | Some m \<Rightarrow> m)"

definition mlx_unavailable_error :: "job_row \<Rightarrow> nat \<Rightarrow> string" where
  "mlx_unavailable_error job grace_seconds =
     ''mlx_unavailable: the MLX GPU worker is required on macOS but no live worker claimed this job within '' @
     show_nat grace_seconds @ ''s (model='' @ model_or_unknown (j_payload job) @ '', type='' @
     job_type_str (j_type job) @ ''). There is no fallback worker on Mac '' @ dash_bytes @ '' check System '' @
     arrow_bytes @ '' Logs and confirm the MLX worker is running.''"

definition candle_unavailable_error :: "job_row \<Rightarrow> nat \<Rightarrow> string" where
  "candle_unavailable_error job grace_seconds =
     ''candle_unavailable: the candle GPU worker is required off-Mac but no live worker claimed this job within '' @
     show_nat grace_seconds @ ''s (model='' @ model_or_unknown (j_payload job) @ '', type='' @
     job_type_str (j_type job) @ ''). There is no fallback worker on this deployment '' @ dash_bytes @
     '' check System '' @ arrow_bytes @ '' Logs and confirm the candle worker is running.''"

definition platform_unreachable_error :: "job_row \<Rightarrow> string \<Rightarrow> string" where
  "platform_unreachable_error job os =
     (let model = model_or_unknown (j_payload job);
          mode = (case get_str (j_payload job) ''mode'' of None \<Rightarrow> job_type_str (j_type job) | Some m \<Rightarrow> m)
      in ''platform_unreachable: '' @ model @ '' cannot render the '' @ [CHR 0x22] @ mode @ [CHR 0x22] @
         '' mode on '' @ os @ '' '' @ dash_bytes @
         '' that combination runs only on the macOS MLX backend, and no worker that will ever claim it can register on this host (model='' @
         model @ '', type='' @ job_type_str (j_type job) @
         ''). Choose a mode this model serves here, or a model that serves this mode on Windows/Linux.'')"

definition run_fail_sweep ::
  "string \<Rightarrow> (string \<times> string \<times> string) list \<Rightarrow> jobs_store \<Rightarrow> (job_row list \<times> jobs_store) jobs_result" where
  "run_fail_sweep now candidates s =
     (case fail_queued_jobs now candidates s of (failed_ids, s') \<Rightarrow>
        result_bind (jobs_by_ids failed_ids s') (\<lambda>failed. Inr (failed, s')))"

definition queued_before :: "string \<Rightarrow> jobs_store \<Rightarrow> job_row list" where
  "queued_before cutoff s =
     order_by oldest_first
       (filter (\<lambda>r. j_status r = Queued \<and> text_less (j_created_at r) cutoff) (s_jobs s))"

definition queued_jobs :: "jobs_store \<Rightarrow> job_row list" where
  "queued_jobs s = order_by oldest_first (filter (\<lambda>r. j_status r = Queued) (s_jobs s))"

text \<open>\<open>last_seen_at >= cutoff\<close>\<close>

definition live_since :: "string \<Rightarrow> worker_row \<Rightarrow> bool" where
  "live_since cutoff w \<longleftrightarrow> w_status w \<noteq> Offline \<and> \<not> text_less (w_last_seen_at w) cutoff"

definition fail_stranded_mlx_jobs ::
  "routing_policy \<Rightarrow> int \<Rightarrow> bool \<Rightarrow> nat \<Rightarrow> jobs_store \<Rightarrow> (job_row list \<times> jobs_store) jobs_result" where
  "fail_stranded_mlx_jobs pol now_seconds mlx_required grace_seconds s =
     (if \<not> mlx_required then Inr ([], s)
      else
        let cutoff = cutoff_instant now_seconds grace_seconds in
        if list_ex (\<lambda>w. w_gpu_id w = ''mlx'' \<and> live_since cutoff w) (s_workers s) then Inr ([], s)
        else run_fail_sweep (format_unix_seconds now_seconds)
          (map (\<lambda>job. (j_id job, ''MLX worker unavailable.'', mlx_unavailable_error job grace_seconds))
            (filter (\<lambda>job. job_is_any_mlx_eligible pol (j_type job) (j_payload job)) (queued_before cutoff s))) s)"

definition fail_unsupported_mlx_jobs ::
  "routing_policy \<Rightarrow> int \<Rightarrow> bool \<Rightarrow> bool \<Rightarrow> jobs_store \<Rightarrow> ((job_row \<times> string) list \<times> jobs_store) jobs_result" where
  "fail_unsupported_mlx_jobs pol now_seconds mlx_required enforce s =
     (if \<not> mlx_required \<or> \<not> enforce then Inr ([], s)
      else
        let failed = concat (map (\<lambda>job. case mac_rust_unsupported pol (j_type job) (j_payload job) of
              None \<Rightarrow> [] | Some reason \<Rightarrow> [(j_id job, reason)]) (queued_jobs s))
        in result_bind (run_fail_sweep (format_unix_seconds now_seconds)
             (map (\<lambda>(job_id, reason). (job_id, ''Not supported by the MLX flow on macOS.'', reason)) failed) s)
             (\<lambda>(updated, s'). Inr (zip updated (map snd failed), s')))"

definition fail_stranded_candle_jobs ::
  "routing_policy \<Rightarrow> int \<Rightarrow> bool \<Rightarrow> nat \<Rightarrow> jobs_store \<Rightarrow> (job_row list \<times> jobs_store) jobs_result" where
  "fail_stranded_candle_jobs pol now_seconds candle_required grace_seconds s =
     (if \<not> candle_required then Inr ([], s)
      else
        let cutoff = cutoff_instant now_seconds grace_seconds in
        if list_ex (\<lambda>w. live_since cutoff w \<and> ''candle'' \<in> set (w_capabilities w)) (s_workers s) then Inr ([], s)
        else run_fail_sweep (format_unix_seconds now_seconds)
          (map (\<lambda>job. (j_id job, ''Candle worker unavailable.'', candle_unavailable_error job grace_seconds))
            (filter (\<lambda>job. job_is_any_candle_eligible pol (j_type job) (j_payload job)) (queued_before cutoff s))) s)"

definition fail_platform_unreachable_jobs ::
  "routing_policy \<Rightarrow> int \<Rightarrow> string \<Rightarrow> jobs_store \<Rightarrow> (job_row list \<times> jobs_store) jobs_result" where
  "fail_platform_unreachable_jobs pol now_seconds host_os s =
     (if host_os \<in> {''macos'', ''darwin''} then Inr ([], s)
      else
        let candidates = order_by oldest_first (filter (\<lambda>r. j_status r = Queued \<and> is_video_job_type (j_type r)
              \<and> \<not> c_candle_eligible (j_claim r) \<and> \<not> projection_stale r) (s_jobs s))
        in run_fail_sweep (format_unix_seconds now_seconds)
             (map (\<lambda>job. (j_id job, ''This mode has no backend on this platform.'',
                          platform_unreachable_error job host_os))
               (filter (\<lambda>job. video_job_is_platform_unreachable pol job host_os) candidates)) s)"

definition fail_unsupported_candle_jobs ::
  "routing_policy \<Rightarrow> int \<Rightarrow> bool \<Rightarrow> bool \<Rightarrow> jobs_store \<Rightarrow> ((job_row \<times> string) list \<times> jobs_store) jobs_result" where
  "fail_unsupported_candle_jobs pol now_seconds candle_required enforce s =
     (if \<not> candle_required \<or> \<not> enforce then Inr ([], s)
      else
        let failed = concat (map (\<lambda>job. case candle_unsupported pol (j_type job) (j_payload job) of
              None \<Rightarrow> [] | Some reason \<Rightarrow> [(j_id job, reason)]) (queued_jobs s))
        in result_bind (run_fail_sweep (format_unix_seconds now_seconds)
             (map (\<lambda>(job_id, reason). (job_id, ''Not supported by the candle/CUDA flow off-Mac.'', reason)) failed) s)
             (\<lambda>(updated, s'). Inr (zip updated (map snd failed), s')))"

subsection \<open>Every operation moves the table by its statements\<close>

lemma fail_queued_jobs_live:
  "fail_queued_jobs now candidates s = (ids, s') \<Longrightarrow> live_steps pol ww (s_jobs s) (s_jobs s')"
proof (induction candidates arbitrary: s ids)
  case (Cons c candidates)
  obtain job_id message error where c: "c = (job_id, message, error)" by (cases c)
  let ?s = "update_jobs (\<lambda>r. j_id r = job_id \<and> j_status r = Queued) (set_released Failed now message error) s"
  obtain ids' where rest: "fail_queued_jobs now candidates ?s = (ids', s')"
    using Cons.prems by (auto simp: c Let_def split: prod.splits)
  have "live_steps pol ww (s_jobs s) (s_jobs ?s)"
    by (intro live_steps_update_jobs) (auto intro: job_sql.fail_queued)
  with Cons.IH [OF rest] show ?case by (meson rtranclp_trans)
qed simp

lemma run_fail_sweep_live:
  "run_fail_sweep now candidates s = Inr (out, s') \<Longrightarrow> live_steps pol ww (s_jobs s) (s_jobs s')"
  by (auto simp: run_fail_sweep_def result_bind_Inr split: prod.splits intro: fail_queued_jobs_live)

lemmas fail_sweep_defs = fail_stranded_mlx_jobs_def fail_unsupported_mlx_jobs_def
  fail_stranded_candle_jobs_def fail_platform_unreachable_jobs_def fail_unsupported_candle_jobs_def

lemma fail_sweeps_live:
  "fail_stranded_mlx_jobs pol n req grace s = Inr (out, s') \<Longrightarrow> live_steps pol' ww (s_jobs s) (s_jobs s')"
  "fail_stranded_candle_jobs pol n req grace s = Inr (out, s') \<Longrightarrow> live_steps pol' ww (s_jobs s) (s_jobs s')"
  "fail_platform_unreachable_jobs pol n os s = Inr (out, s') \<Longrightarrow> live_steps pol' ww (s_jobs s) (s_jobs s')"
  "fail_unsupported_mlx_jobs pol n req enf s = Inr (pairs, s') \<Longrightarrow> live_steps pol' ww (s_jobs s) (s_jobs s')"
  "fail_unsupported_candle_jobs pol n req enf s = Inr (pairs, s') \<Longrightarrow> live_steps pol' ww (s_jobs s) (s_jobs s')"
  by (auto simp: fail_sweep_defs Let_def result_bind_Inr split: if_splits intro: run_fail_sweep_live)

lemma register_worker_jobs:
  "register_worker now request s = Inr (w, s') \<Longrightarrow> s_jobs s' = s_jobs s"
  by (auto simp: register_worker_def Let_def result_bind_Inr split: option.splits)

lemma orphan_previous_live:
  assumes "orphan_previous_job now worker s = Inr (out, s')" and "distinct (map j_id (s_jobs s))"
  shows "live_steps pol ww (s_jobs s) (s_jobs s')"
proof (cases "s' = s")
  case False
  with assms(1) obtain i job where job: "find_job i s = Some job" "is_active_status (j_status job)"
    and s': "s' = update_jobs (\<lambda>r. j_id r = i)
      (set_released Interrupted now ''Job was interrupted after its worker restarted.''
        ''Worker heartbeat no longer referenced the active job.'') s"
    by (auto simp: orphan_previous_job_def Let_def result_bind_Inr get_job_Inr split: option.splits if_splits)
  show ?thesis unfolding s'
    using find_job_unique [OF assms(2) job(1)] job(2)
    by (intro live_steps_update_jobs) (auto intro: job_sql.interrupt_active)
qed simp

lemma heartbeat_live:
  assumes "heartbeat_worker now request s = Inr (out, s')" and "distinct (map j_id (s_jobs s))"
  shows "live_steps pol ww (s_jobs s) (s_jobs s')"
proof (cases "hb_current_job_id request")
  case None
  with assms(1) obtain worker interrupted s1 where
    o: "orphan_previous_job now worker s = Inr (interrupted, s1)" and "s_jobs s' = s_jobs s1"
    by (auto simp: heartbeat_worker_def Let_def result_bind_Inr)
  with orphan_previous_live [OF o assms(2)] show ?thesis by simp
next
  case (Some job_id)
  with assms(1) have "s_jobs s' = s_jobs (update_jobs
      (\<lambda>r. j_id r = job_id \<and> j_worker_id r = Some (hb_worker_id request)) (set_heartbeat now) s)"
    by (auto simp: heartbeat_worker_def Let_def result_bind_Inr)
  then show ?thesis
    by (simp del: update_jobs_sel) (auto simp del: update_jobs_sel intro!: live_steps_update_jobs job_sql.heartbeat)
qed

lemma interrupt_stale_live:
  "live_steps pol ww (s_jobs s) (s_jobs (interrupt_stale_jobs now timeout ids s))"
  unfolding interrupt_stale_jobs_def by (intro live_steps_update_jobs job_sql.interrupt_active) simp

lemma release_workers_jobs [simp]: "s_jobs (release_workers now ids s) = s_jobs s"
  by (simp add: release_workers_def)

lemma mark_stale_live:
  assumes "mark_stale_workers_interrupted n timeout s = Inr (out, s')"
  shows "live_steps pol ww (s_jobs s) (s_jobs s')"
  using assms interrupt_stale_live
  by (auto simp: mark_stale_workers_interrupted_def Let_def result_bind_Inr split: if_splits)

lemma startup_live:
  assumes "mark_interrupted_on_startup now s = Inr (out, s')"
  shows "live_steps pol ww (s_jobs s) (s_jobs s')"
proof -
  let ?s1 = "update_jobs (\<lambda>r. is_active_status (j_status r) \<and> \<not> held_by_busy_worker s r)
    (set_released Interrupted now ''Job was interrupted by a backend restart.''
      ''The backend restarted before this job finished.'') s"
  let ?s2 = "update_jobs (\<lambda>r. j_status r = PendingCaption)
    (set_queued now ''Waiting for an available worker.'') ?s1"
  have "live_steps pol ww (s_jobs s) (s_jobs ?s1)"
    by (intro live_steps_update_jobs) (auto intro: job_sql.interrupt_active)
  moreover have "live_steps pol ww (s_jobs ?s1) (s_jobs ?s2)"
    by (intro live_steps_update_jobs) (auto intro: job_sql.enqueue)
  ultimately have "live_steps pol ww (s_jobs s) (s_jobs ?s2)" by (rule rtranclp_trans)
  moreover from assms have "s_jobs s' = s_jobs ?s2"
    by (auto simp: mark_interrupted_on_startup_def Let_def result_bind_Inr)
  ultimately show ?thesis by (simp only:)
qed

lemma fail_terminated_live:
  assumes "fail_worker_job_terminated now worker_id signal exit_code s = Inr (out, s')"
  shows "live_steps pol ww (s_jobs s) (s_jobs s')"
proof (cases "active_jobs_for_workers [worker_id] s")
  case Nil
  with assms show ?thesis by (auto simp: fail_worker_job_terminated_def)
next
  case (Cons job rest)
  with assms have "s_jobs s' = s_jobs (update_jobs (\<lambda>r. j_id r = j_id job \<and> is_active_status (j_status r))
      (set_released Failed now ''Worker process terminated unexpectedly.''
        (termination_failure_error signal exit_code (Some (j_type job)))) s)"
    by (auto simp: fail_worker_job_terminated_def Let_def result_bind_Inr)
  then show ?thesis
    by (simp del: update_jobs_sel) (auto simp del: update_jobs_sel intro!: live_steps_update_jobs job_sql.fail_active)
qed

subsection \<open>What the sweeps fail\<close>

definition failed_row :: "string \<Rightarrow> (string \<times> string \<times> string) list \<Rightarrow> job_row \<Rightarrow> job_row" where
  "failed_row now candidates r =
     (if j_status r = Queued then
        (case map_of candidates (j_id r) of
           None \<Rightarrow> r
         | Some (message, error) \<Rightarrow> after_update r (set_released Failed now message error r))
      else r)"

lemma failed_row_id [simp]: "j_id (failed_row now cs r) = j_id r"
  by (simp add: failed_row_def split: option.split)

lemma failed_row_Nil [simp]: "failed_row now [] r = r"
  by (simp add: failed_row_def)

lemma failed_row_Cons:
  "failed_row now cs (if j_id r = i \<and> j_status r = Queued
      then after_update r (set_released Failed now message error r) else r)
   = failed_row now ((i, message, error) # cs) r"
  by (auto simp: failed_row_def after_update_def set_released_def split: option.split)

lemma fail_queued_jobs_rows:
  "fail_queued_jobs now candidates s = (ids, s') \<Longrightarrow> s_jobs s' = map (failed_row now candidates) (s_jobs s)"
proof (induction candidates arbitrary: s ids)
  case Nil
  then show ?case by (simp add: map_idI)
next
  case (Cons c candidates)
  obtain i message error where c: "c = (i, message, error)" by (cases c)
  let ?s = "update_jobs (\<lambda>r. j_id r = i \<and> j_status r = Queued) (set_released Failed now message error) s"
  obtain ids' where rest: "fail_queued_jobs now candidates ?s = (ids', s')"
    using Cons.prems by (auto simp: c Let_def split: prod.splits)
  have "s_jobs s' = map (failed_row now candidates) (s_jobs ?s)" using Cons.IH [OF rest] .
  also have "\<dots> = map (failed_row now (c # candidates)) (s_jobs s)"
    by (simp add: sql_update_def c failed_row_Cons)
  finally show ?case .
qed

lemma affected_pos: "0 < affected P s \<longleftrightarrow> (\<exists>r \<in> set (s_jobs s). P r)"
  by (auto simp: affected_def filter_empty_conv)

lemma fail_queued_jobs_ids:
  "fail_queued_jobs now candidates s = (ids, s') \<Longrightarrow> distinct (map fst candidates) \<Longrightarrow>
   ids = map fst (filter (\<lambda>c. \<exists>r \<in> set (s_jobs s). j_id r = fst c \<and> j_status r = Queued) candidates)"
proof (induction candidates arbitrary: s ids)
  case (Cons c candidates)
  obtain i message error where c: "c = (i, message, error)" by (cases c)
  let ?f = "set_released Failed now message error"
  let ?s = "update_jobs (\<lambda>r. j_id r = i \<and> j_status r = Queued) ?f s"
  obtain ids' where rest: "fail_queued_jobs now candidates ?s = (ids', s')"
    and ids: "ids = (if affected (\<lambda>r. j_id r = i \<and> j_status r = Queued) s \<noteq> 0 then i # ids' else ids')"
    using Cons.prems by (auto simp: c Let_def split: prod.splits)
  have same: "(\<exists>r \<in> set (s_jobs ?s). j_id r = fst d \<and> j_status r = Queued) \<longleftrightarrow>
      (\<exists>r \<in> set (s_jobs s). j_id r = fst d \<and> j_status r = Queued)" if "d \<in> set candidates" for d
  proof -
    have "fst d \<noteq> i" using that Cons.prems(2) by (auto simp: c)
    then show ?thesis by (auto simp: set_sql_update)
  qed
  have "ids' = map fst (filter (\<lambda>c. \<exists>r \<in> set (s_jobs ?s). j_id r = fst c \<and> j_status r = Queued) candidates)"
    using Cons.IH [OF rest] Cons.prems(2) by simp
  also have "\<dots> = map fst (filter (\<lambda>c. \<exists>r \<in> set (s_jobs s). j_id r = fst c \<and> j_status r = Queued) candidates)"
    using same by (simp cong: filter_cong del: update_jobs_sel)
  finally show ?case
    using ids affected_pos [of "\<lambda>r. j_id r = i \<and> j_status r = Queued" s] by (simp add: c)
qed simp

text \<open>A sweep never fails to answer: it reports exactly the rows it failed.\<close>

lemma run_fail_sweep_Inr:
  assumes "distinct (map fst candidates)" and "distinct (map j_id (s_jobs s))"
  shows "\<exists>s'. run_fail_sweep now candidates s = Inr (map (\<lambda>c. the (find_job (fst c) s'))
      (filter (\<lambda>c. \<exists>r \<in> set (s_jobs s). j_id r = fst c \<and> j_status r = Queued) candidates), s')
    \<and> s_jobs s' = map (failed_row now candidates) (s_jobs s)"
proof -
  obtain ids s' where f: "fail_queued_jobs now candidates s = (ids, s')" by force
  note rows = fail_queued_jobs_rows [OF f] and ids = fail_queued_jobs_ids [OF f assms(1)]
  have "j_id ` set (s_jobs s') = j_id ` set (s_jobs s)" by (simp add: rows image_image)
  then have "jobs_by_ids ids s' = Inr (map (\<lambda>i. the (find_job i s')) ids)"
    using assms(1) by (intro jobs_by_ids_ok) (auto simp: ids distinct_map_filter)
  then show ?thesis using rows by (simp add: run_fail_sweep_def f ids comp_def)
qed

lemma distinct_candidates:
  "distinct (map j_id (s_jobs s)) \<Longrightarrow>
   distinct (map fst (map (\<lambda>job. (j_id job, f job)) (filter P (order_by before (filter Q (s_jobs s))))))"
  using distinct_order_by_map [of j_id "filter Q (s_jobs s)" before]
  by (simp add: comp_def distinct_map_filter)

lemma map_of_rows:
  "map_of (map (\<lambda>job. (j_id job, f job)) rows) i = map_option f (lookup_row j_id i rows)"
  by (induction rows) auto

lemma lookup_filter_member:
  assumes "distinct (map j_id t)" and "r \<in> set t"
  shows "lookup_row j_id (j_id r) (filter P (order_by before (filter Q t))) = (if P r \<and> Q r then Some r else None)"
proof (cases "P r \<and> Q r")
  case True
  then have "r \<in> set (filter P (order_by before (filter Q t)))" using assms by simp
  moreover have "distinct (map j_id (filter P (order_by before (filter Q t))))"
    using assms(1) distinct_order_by_map [of j_id "filter Q t" before] by (simp add: distinct_map_filter)
  ultimately show ?thesis using True by (simp add: lookup_row_member)
next
  case False
  have "j_id r' \<noteq> j_id r" if "r' \<in> set t" "P r'" "Q r'" for r'
    using that assms False by (metis lookup_row_member option.inject)
  then have "j_id r \<notin> j_id ` set (filter P (order_by before (filter Q t)))" by fastforce
  then show ?thesis using False by (simp only: lookup_row_None if_False not_False_eq_True)
qed

text \<open>One sweep over the rows a query selects, with a message and an error per row.\<close>

lemma run_fail_sweep_selected:
  fixes f :: "job_row \<Rightarrow> string \<times> string"
  assumes "distinct (map j_id (s_jobs s))" and "\<And>r. Q r \<Longrightarrow> j_status r = Queued"
    and cs: "cs = map (\<lambda>job. (j_id job, f job)) (filter P (order_by before (filter Q (s_jobs s))))"
  shows "\<exists>s'. run_fail_sweep now cs s = Inr (map (\<lambda>c. the (find_job (fst c) s')) cs, s')
    \<and> s_jobs s' = map (\<lambda>r. if P r \<and> Q r
        then after_update r (set_released Failed now (fst (f r)) (snd (f r)) r) else r) (s_jobs s)"
proof -
  have row: "failed_row now cs r =
      (if P r \<and> Q r then after_update r (set_released Failed now (fst (f r)) (snd (f r)) r) else r)"
    if "r \<in> set (s_jobs s)" for r
    unfolding failed_row_def cs map_of_rows lookup_filter_member [OF assms(1) that]
    using assms(2) by (auto split: prod.split)
  have "\<exists>r \<in> set (s_jobs s). j_id r = fst c \<and> j_status r = Queued" if "c \<in> set cs" for c
    using that assms(2) by (auto simp: cs)
  then have all: "filter (\<lambda>c. \<exists>r \<in> set (s_jobs s). j_id r = fst c \<and> j_status r = Queued) cs = cs"
    by (simp add: filter_id_conv)
  have "distinct (map fst cs)" unfolding cs by (rule distinct_candidates [OF assms(1)])
  from run_fail_sweep_Inr [OF this assms(1), of now] obtain s' where
    s': "run_fail_sweep now cs s = Inr (map (\<lambda>c. the (find_job (fst c) s')) cs, s')"
    and rows: "s_jobs s' = map (failed_row now cs) (s_jobs s)" unfolding all by blast
  have "map (failed_row now cs) (s_jobs s) = map (\<lambda>r. if P r \<and> Q r
        then after_update r (set_released Failed now (fst (f r)) (snd (f r)) r) else r) (s_jobs s)"
    by (rule map_cong) (simp_all add: row)
  with s' rows show ?thesis by auto
qed

subsection \<open>What recovery leaves behind\<close>

definition recovered_row :: "string \<Rightarrow> jobs_store \<Rightarrow> job_row \<Rightarrow> job_row" where
  "recovered_row now s r =
     (if is_active_status (j_status r) \<and> \<not> held_by_busy_worker s r then
        after_update r (set_released Interrupted now ''Job was interrupted by a backend restart.''
          ''The backend restarted before this job finished.'' r)
      else if j_status r = PendingCaption then
        after_update r (set_queued now ''Waiting for an available worker.'' r)
      else r)"

lemma recovered_row_id [simp]: "j_id (recovered_row now s r) = j_id r"
  by (simp add: recovered_row_def)

lemma recovered_row_active:
  "is_active_status (j_status (recovered_row now s r)) \<longleftrightarrow> is_active_status (j_status r) \<and> held_by_busy_worker s r"
  by (auto simp: recovered_row_def after_update_def set_released_def set_queued_def)

lemma recovered_row_same:
  "is_active_status (j_status (recovered_row now s r)) \<Longrightarrow> recovered_row now s r = r"
  unfolding recovered_row_active by (auto simp: recovered_row_def)

lemma recovered_row_caption: "j_status (recovered_row now s r) \<noteq> PendingCaption"
  by (auto simp: recovered_row_def after_update_def set_released_def set_queued_def)

lemma startup_Inr:
  assumes "distinct (map j_id (s_jobs s))"
  shows "\<exists>jobs s'. mark_interrupted_on_startup now s = Inr (jobs, s')
    \<and> s_jobs s' = map (recovered_row now s) (s_jobs s)
    \<and> s_workers s' = map (\<lambda>w. if w_status w \<noteq> Offline \<and> \<not> holds_active_job s' w then set_offline w else w) (s_workers s)"
proof -
  define s1 where "s1 = update_jobs (\<lambda>r. is_active_status (j_status r) \<and> \<not> held_by_busy_worker s r)
    (set_released Interrupted now ''Job was interrupted by a backend restart.''
      ''The backend restarted before this job finished.'') s"
  define s2 where "s2 = update_jobs (\<lambda>r. j_status r = PendingCaption)
    (set_queued now ''Waiting for an available worker.'') s1"
  define s3 where "s3 = update_workers (\<lambda>w. w_status w \<noteq> Offline \<and> \<not> holds_active_job s2 w) set_offline s2"
  define ids where "ids = map j_id (list_startup_stranded_active_jobs s) @ map j_id (list_jobs_by_status [PendingCaption] s)"
  have rows: "s_jobs s3 = map (recovered_row now s) (s_jobs s)"
    by (simp add: s3_def s2_def s1_def sql_update_def)
      (auto simp: recovered_row_def after_update_def set_released_def set_queued_def)
  have holds: "holds_active_job s2 = holds_active_job s3"
    by (rule ext) (simp add: holds_active_job_def s3_def)
  have "distinct (map j_id (list_startup_stranded_active_jobs s))" "distinct (map j_id (list_jobs_by_status [PendingCaption] s))"
    using assms unfolding list_startup_stranded_active_jobs_def list_jobs_by_status_def
    by (auto intro!: distinct_order_by_map simp: distinct_map_filter)
  moreover have "j_id r \<noteq> j_id r'" if "r \<in> set (list_startup_stranded_active_jobs s)"
    "r' \<in> set (list_jobs_by_status [PendingCaption] s)" for r r'
  proof
    assume "j_id r = j_id r'"
    moreover have "r \<in> set (s_jobs s)" "r' \<in> set (s_jobs s)" "is_active_status (j_status r)" "j_status r' = PendingCaption"
      using that by (auto simp: list_startup_stranded_active_jobs_def list_jobs_by_status_def)
    ultimately have "r = r'" using assms by (metis lookup_row_member option.inject)
    with \<open>is_active_status (j_status r)\<close> \<open>j_status r' = PendingCaption\<close> show False by simp
  qed
  ultimately have "distinct ids" unfolding ids_def by auto
  moreover have "set ids \<subseteq> j_id ` set (s_jobs s3)"
    by (auto simp: ids_def rows list_startup_stranded_active_jobs_def list_jobs_by_status_def image_image)
  ultimately have "jobs_by_ids ids s3 = Inr (map (\<lambda>i. the (find_job i s3)) ids)" by (rule jobs_by_ids_ok)
  then have "mark_interrupted_on_startup now s = Inr (map (\<lambda>i. the (find_job i s3)) ids, s3)"
    unfolding mark_interrupted_on_startup_def Let_def s1_def [symmetric] s2_def [symmetric] s3_def [symmetric]
      ids_def [symmetric] by simp
  moreover have "s_workers s3 = map (\<lambda>w. if w_status w \<noteq> Offline \<and> \<not> holds_active_job s3 w then set_offline w else w) (s_workers s)"
    unfolding holds [symmetric] by (simp add: s3_def s2_def s1_def sql_update_def)
  ultimately show ?thesis using rows by blast
qed

text \<open>The stale sweep: the workers it takes offline and the rows it interrupts.\<close>

abbreviation stale_ids :: "int \<Rightarrow> nat \<Rightarrow> jobs_store \<Rightarrow> string list" where
  "stale_ids now_seconds timeout_seconds s \<equiv> map w_id (stale_workers (cutoff_instant now_seconds timeout_seconds) s)"

lemma mark_stale_Inr:
  assumes "distinct (map j_id (s_jobs s))"
    and now_def: "now = format_unix_seconds n" and ids_def: "ids = stale_ids n timeout s"
  shows "\<exists>swept s'. mark_stale_workers_interrupted n timeout s = Inr (swept, s')
    \<and> s_jobs s' = map (\<lambda>r. if owned_by ids r \<and> is_active_status (j_status r)
        then after_update r (set_released Interrupted now (stale_message r s) (stale_error timeout r s) r) else r) (s_jobs s)
    \<and> s_workers s' = map (\<lambda>w. if w_id w \<in> set ids then set_offline_at now w else w) (s_workers s)"
proof (cases "ids = []")
  case True
  then have "mark_stale_workers_interrupted n timeout s = Inr (([], []), s)"
    by (simp add: mark_stale_workers_interrupted_def ids_def)
  moreover have "\<not> owned_by [] r" for r by (simp add: owned_by_def split: option.split)
  ultimately show ?thesis using True by (auto simp: map_idI)
next
  case False
  define s' where "s' = release_workers now ids (interrupt_stale_jobs now timeout ids s)"
  have rows: "s_jobs s' = map (\<lambda>r. if owned_by ids r \<and> is_active_status (j_status r)
      then after_update r (set_released Interrupted now (stale_message r s) (stale_error timeout r s) r) else r) (s_jobs s)"
    by (simp add: s'_def interrupt_stale_jobs_def sql_update_def)
  have workers: "s_workers s' = map (\<lambda>w. if w_id w \<in> set ids then set_offline_at now w else w) (s_workers s)"
    by (simp add: s'_def release_workers_def interrupt_stale_jobs_def sql_update_def)
  let ?active = "map j_id (active_jobs_for_workers ids s)"
  have "map j_id (s_jobs s') = map j_id (s_jobs s)" by (simp add: rows)
  then have "j_id ` set (s_jobs s') = j_id ` set (s_jobs s)" by (metis list.set_map)
  then have "jobs_by_ids ?active s' = Inr (map (\<lambda>i. the (find_job i s')) ?active)"
    using assms(1) by (intro jobs_by_ids_ok) (auto simp: active_jobs_for_workers_def distinct_map_filter)
  then have "mark_stale_workers_interrupted n timeout s =
      Inr ((workers_by_ids ids s', map (\<lambda>i. the (find_job i s')) ?active), s')"
    using False unfolding mark_stale_workers_interrupted_def Let_def ids_def [symmetric] now_def [symmetric] s'_def [symmetric]
    by simp
  with rows workers show ?thesis by blast
qed

text \<open>On formatted timestamps the sweep's text comparison is a comparison of instants.\<close>

lemma stale_worker_iff:
  assumes "w_last_seen_at w = format_unix_seconds t" and "four_digit_instant t"
    and "four_digit_instant (n - int timeout)" and "1 \<le> timeout" and "int timeout \<le> i64_max"
  shows "text_less (w_last_seen_at w) (cutoff_instant n timeout) \<longleftrightarrow> t < n - int timeout"
proof -
  have "max timeout 1 = timeout" using assms(4) by simp
  moreover have "i64_of_nat timeout = int timeout" using assms(5) by (simp add: i64_of_nat_def)
  moreover have "saturating_sub n (int timeout) = n - int timeout"
    unfolding saturating_sub_def using assms(3)
    by (intro sat_i64_id) (auto simp: four_digit_instant_def i64_min_def i64_max_def)
  ultimately have "cutoff_instant n timeout = format_unix_seconds (n - int timeout)"
    by (simp add: cutoff_instant_def)
  then show ?thesis using assms(1,2,3) format_less_iff by simp
qed

end
