(* ===== verification/JobClaim.thy ===== *)
theory JobClaim
  imports JobWorkers
begin

text \<open>
  The claim path: a worker asks for its next job. The store refuses to claim over a stale
  projection, scans the queued headers in scheduling order, picks the highest-ranked job the
  worker supports with its affinity rules, may defer to a healthier or to an in-process MLX
  worker, and otherwise moves the job to \<open>preparing\<close> under the worker.
\<close>

subsection \<open>Busy devices\<close>

definition assigned_to :: "string \<Rightarrow> job_row \<Rightarrow> bool" where
  "assigned_to gpu_id r \<longleftrightarrow>
     (case j_assigned_gpu r of
        None \<Rightarrow> False
      | Some g \<Rightarrow>
          if is_apple_unified_gpu_id gpu_id then lowercase g \<in> {''mlx'', ''mps''} else g = gpu_id)"

definition active_gpu_job_exists :: "jobs_store \<Rightarrow> string \<Rightarrow> bool" where
  "active_gpu_job_exists s gpu_id \<longleftrightarrow>
     list_ex (\<lambda>r. assigned_to gpu_id r \<and> is_active_status (j_status r) \<and> \<not> is_non_gpu_job_type (j_type r)) (s_jobs s)"

subsection \<open>Candidates\<close>

record claim_candidate =
  cc_id :: string
  cc_job_type :: job_type
  cc_queue_rank :: int
  cc_requested_gpu :: string
  cc_facts :: claim_routing_facts

definition row_to_claim_candidate :: "job_row \<Rightarrow> claim_candidate" where
  "row_to_claim_candidate r = \<lparr>
     cc_id = j_id r, cc_job_type = j_type r, cc_queue_rank = max (j_queue_rank r) 0,
     cc_requested_gpu = j_requested_gpu r, cc_facts = columns_facts (j_type r) (j_claim r) \<rparr>"

definition worker_may_support_claim_candidate :: "worker_row \<Rightarrow> claim_candidate \<Rightarrow> bool" where
  "worker_may_support_claim_candidate w c = worker_supports_claim_routing_facts w (cc_facts c)"

definition candidate_matches_loaded_model :: "worker_row \<Rightarrow> claim_candidate \<Rightarrow> bool" where
  "candidate_matches_loaded_model w c \<longleftrightarrow> cc_requested_gpu c = ''auto''
     \<and> \<not> is_non_gpu_job_type (cc_job_type c) \<and> routing_model_keys_match_loaded (f_model_keys (cc_facts c)) w"

definition explicit_gpu_candidate :: "claim_candidate \<Rightarrow> bool" where
  "explicit_gpu_candidate c \<longleftrightarrow> \<not> is_non_gpu_job_type (cc_job_type c) \<and> cc_requested_gpu c \<noteq> ''auto''"

definition choose_claimable_candidate :: "worker_row \<Rightarrow> claim_candidate list \<Rightarrow> claim_candidate option" where
  "choose_claimable_candidate w compatible =
     (case compatible of
        [] \<Rightarrow> None
      | first # _ \<Rightarrow>
          if is_non_gpu_job_type (cc_job_type first) \<or> cc_requested_gpu first \<noteq> ''auto'' then Some first
          else case find explicit_gpu_candidate compatible of
                 Some c \<Rightarrow> Some c
               | None \<Rightarrow>
                   (case find (candidate_matches_loaded_model w) compatible of
                      Some c \<Rightarrow> Some c
                    | None \<Rightarrow> Some first))"

text \<open>The scan: it stops at the first candidate ranked below the first compatible one.\<close>

fun scan_compatible :: "worker_row \<Rightarrow> int option \<Rightarrow> claim_candidate list \<Rightarrow> claim_candidate list" where
  "scan_compatible w highest [] = []"
| "scan_compatible w highest (c # cs) =
     (if (case highest of None \<Rightarrow> False | Some rank \<Rightarrow> cc_queue_rank c < rank) then []
      else if \<not> worker_may_support_claim_candidate w c then scan_compatible w highest cs
      else c # scan_compatible w (case highest of None \<Rightarrow> Some (cc_queue_rank c) | Some r \<Rightarrow> Some r) cs)"

definition choose_claimable_job_from_candidates ::
  "routing_policy \<Rightarrow> jobs_store \<Rightarrow> worker_row \<Rightarrow> claim_candidate list \<Rightarrow> job_row option jobs_result" where
  "choose_claimable_job_from_candidates pol s w candidates =
     (case choose_claimable_candidate w (scan_compatible w None candidates) of
        None \<Rightarrow> Inr None
      | Some selected \<Rightarrow>
          (case find (\<lambda>r. j_id r = cc_id selected \<and> j_status r = Queued) (s_jobs s) of
             None \<Rightarrow> Inl (Sqlite ''Query returned no rows'')
           | Some job \<Rightarrow>
               if cc_facts selected \<noteq> facts_from_job pol job
               then Inl (ClaimRoutingFactsMismatch (j_id job) CLAIM_ROUTING_FACTS_VERSION)
               else Inr (Some job)))"

definition claimable_header :: "jobs_store \<Rightarrow> worker_row \<Rightarrow> job_row \<Rightarrow> bool" where
  "claimable_header s w r \<longleftrightarrow> j_status r = Queued
     \<and> (is_non_gpu_job_type (j_type r) \<or> j_requested_gpu r = ''auto'' \<or> j_requested_gpu r = w_gpu_id w)
     \<and> (\<not> active_gpu_job_exists s (w_gpu_id w) \<or> is_non_gpu_job_type (j_type r))
     \<and> \<not> projection_stale r"

definition claim_candidates :: "jobs_store \<Rightarrow> worker_row \<Rightarrow> claim_candidate list" where
  "claim_candidates s w =
     map row_to_claim_candidate (order_by claim_order (filter (claimable_header s w) (s_jobs s)))"

subsection \<open>Deferrals\<close>

definition should_defer_auto_gpu_claim :: "routing_policy \<Rightarrow> jobs_store \<Rightarrow> job_row \<Rightarrow> worker_row \<Rightarrow> bool" where
  "should_defer_auto_gpu_claim pol s job w =
     (if j_requested_gpu job \<noteq> ''auto'' \<or> is_non_gpu_job_type (j_type job) \<or> w_gpu_id w = ''cpu'' then False
      else if is_mlx_gpu (w_gpu_id w) then False
      else
        let current = dispatch_score_of job w in
        if \<not> has_utilization current then False
        else list_ex (\<lambda>c. worker_supports_job pol c job \<and> \<not> active_gpu_job_exists s (w_gpu_id c)
               \<and> dispatch_score_is_better (dispatch_score_of job c) current)
             (order_by worker_order
               (filter (\<lambda>c. w_id c \<noteq> w_id w \<and> w_gpu_id c \<noteq> ''cpu'' \<and> w_status c = Idle) (s_workers s))))"

definition idle_mlx_worker_can_claim :: "routing_policy \<Rightarrow> jobs_store \<Rightarrow> job_row \<Rightarrow> worker_row \<Rightarrow> bool" where
  "idle_mlx_worker_can_claim pol s job w =
     (case find (\<lambda>c. worker_supports_job pol c job)
        (order_by (\<lambda>a b. text_less (w_id a) (w_id b))
          (filter (\<lambda>c. w_id c \<noteq> w_id w \<and> w_gpu_id c = ''mlx'' \<and> w_status c = Idle) (s_workers s))) of
        None \<Rightarrow> False
      | Some c \<Rightarrow> \<not> active_gpu_job_exists s (w_gpu_id c))"

text \<open>The shared shape of the five \<open>should_defer_*_to_mlx_worker\<close> functions.\<close>

definition defer_eligible_to_mlx :: "bool \<Rightarrow> routing_policy \<Rightarrow> jobs_store \<Rightarrow> job_row \<Rightarrow> worker_row \<Rightarrow> bool \<Rightarrow> bool" where
  "defer_eligible_to_mlx eligible pol s job w mlx_required =
     (if is_mlx_gpu (w_gpu_id w) \<or> \<not> eligible then False
      else if mlx_required then True
      else if j_requested_gpu job \<noteq> ''auto'' then False
      else idle_mlx_worker_can_claim pol s job w)"

definition should_defer_image_to_mlx_worker :: "routing_policy \<Rightarrow> jobs_store \<Rightarrow> job_row \<Rightarrow> worker_row \<Rightarrow> bool \<Rightarrow> bool" where
  "should_defer_image_to_mlx_worker pol s job w =
     defer_eligible_to_mlx (job_is_mlx_eligible pol (j_type job) (j_payload job)) pol s job w"

definition should_defer_video_to_mlx_worker :: "routing_policy \<Rightarrow> jobs_store \<Rightarrow> job_row \<Rightarrow> worker_row \<Rightarrow> bool \<Rightarrow> bool" where
  "should_defer_video_to_mlx_worker pol s job w =
     defer_eligible_to_mlx (video_job_is_mlx_eligible pol (j_type job) (j_payload job)) pol s job w"

definition should_defer_training_to_mlx_worker :: "routing_policy \<Rightarrow> jobs_store \<Rightarrow> job_row \<Rightarrow> worker_row \<Rightarrow> bool \<Rightarrow> bool" where
  "should_defer_training_to_mlx_worker pol s job w =
     defer_eligible_to_mlx (training_job_is_mlx_eligible pol (j_type job) (j_payload job)) pol s job w"

definition should_defer_caption_to_mlx_worker :: "routing_policy \<Rightarrow> jobs_store \<Rightarrow> job_row \<Rightarrow> worker_row \<Rightarrow> bool \<Rightarrow> bool" where
  "should_defer_caption_to_mlx_worker pol s job w =
     defer_eligible_to_mlx (caption_job_is_mlx_eligible (j_type job) (j_payload job)) pol s job w"

definition should_defer_understanding_to_mlx_worker :: "routing_policy \<Rightarrow> jobs_store \<Rightarrow> job_row \<Rightarrow> worker_row \<Rightarrow> bool \<Rightarrow> bool" where
  "should_defer_understanding_to_mlx_worker pol s job w =
     defer_eligible_to_mlx (understanding_job_is_mlx_eligible (j_type job) (j_payload job)) pol s job w"

definition should_defer_to_mlx :: "routing_policy \<Rightarrow> jobs_store \<Rightarrow> job_row \<Rightarrow> worker_row \<Rightarrow> bool \<Rightarrow> bool" where
  "should_defer_to_mlx pol s job w mlx_required \<longleftrightarrow>
     should_defer_image_to_mlx_worker pol s job w mlx_required
     \<or> should_defer_video_to_mlx_worker pol s job w mlx_required
     \<or> should_defer_training_to_mlx_worker pol s job w mlx_required
     \<or> should_defer_caption_to_mlx_worker pol s job w mlx_required
     \<or> should_defer_understanding_to_mlx_worker pol s job w mlx_required"

subsection \<open>Route decisions\<close>

record route_decision =
  rd_job_id :: string
  rd_job_type :: string
  rd_model :: "string option"
  rd_requested_gpu :: string
  rd_worker_id :: string
  rd_gpu_id :: string
  rd_decision :: string
  rd_reason :: string

definition new_route_decision :: "job_row \<Rightarrow> string \<Rightarrow> string \<Rightarrow> string \<Rightarrow> string \<Rightarrow> route_decision" where
  "new_route_decision job gpu_id worker_id decision reason = \<lparr>
     rd_job_id = j_id job, rd_job_type = job_type_str (j_type job),
     rd_model = get_str (j_payload job) ''model'', rd_requested_gpu = j_requested_gpu job,
     rd_worker_id = worker_id, rd_gpu_id = gpu_id, rd_decision = decision, rd_reason = reason \<rparr>"

definition route_decision_for_claim :: "routing_policy \<Rightarrow> job_row \<Rightarrow> worker_row \<Rightarrow> route_decision option" where
  "route_decision_for_claim pol job w =
     (let decide = (\<lambda>decision reason. Some (new_route_decision job (w_gpu_id w) (w_id w) decision reason)) in
      if \<not> job_is_any_mlx_eligible pol (j_type job) (j_payload job) then None
      else if is_mlx_gpu (w_gpu_id w) then decide ''claimed_by_mlx'' ''mlx_worker''
      else if j_requested_gpu job \<noteq> ''auto'' then decide ''explicit_gpu'' ''explicit_gpu''
      else if worker_is_candle w then decide ''claimed_by_candle'' ''candle_worker''
      else decide ''claimed_by_gpu'' ''gpu_worker'')"

subsection \<open>The claim\<close>

definition first_stale_queued :: "jobs_store \<Rightarrow> job_row option" where
  "first_stale_queued s =
     (case order_by claim_order (filter (\<lambda>r. j_status r = Queued \<and> projection_stale r) (s_jobs s)) of
        [] \<Rightarrow> None | r # _ \<Rightarrow> Some r)"

definition stamp_claimed_job :: "routing_policy \<Rightarrow> job_row \<Rightarrow> jobs_store \<Rightarrow> jobs_store" where
  "stamp_claimed_job pol queued s =
     (if is_video_job_type (j_type queued) then
        (case stamp_claimed_reference_image_resize_mode pol (j_payload queued) of
           None \<Rightarrow> s
         | Some payload \<Rightarrow>
             update_jobs (\<lambda>r. j_id r = j_id queued \<and> j_status r = Queued) (set_stamped payload) s)
      else s)"

definition assigned_gpu_for :: "job_row \<Rightarrow> worker_row \<Rightarrow> string" where
  "assigned_gpu_for queued w = (if is_non_gpu_job_type (j_type queued) then ''cpu'' else w_gpu_id w)"

definition set_claiming :: "string \<Rightarrow> string \<Rightarrow> worker_row \<Rightarrow> worker_row" where
  "set_claiming job_id now w = w\<lparr> w_status := Busy, w_current_job_id := Some job_id, w_last_seen_at := now \<rparr>"

definition take_claim :: "routing_policy \<Rightarrow> string \<Rightarrow> job_row \<Rightarrow> worker_row \<Rightarrow> jobs_store \<Rightarrow> jobs_store" where
  "take_claim pol now queued w s =
     update_workers (\<lambda>x. w_id x = w_id w) (set_claiming (j_id queued) now)
       (update_jobs (\<lambda>r. j_id r = j_id queued \<and> j_status r = Queued)
         (set_claimed (assigned_gpu_for queued w) (w_id w) now)
         (stamp_claimed_job pol queued s))"

definition claim_next_job_routed ::
  "routing_policy \<Rightarrow> string \<Rightarrow> string \<Rightarrow> bool \<Rightarrow> jobs_store
    \<Rightarrow> ((job_row option \<times> route_decision option) \<times> jobs_store) jobs_result" where
  "claim_next_job_routed pol now worker_id mlx_required s =
     result_bind (get_worker worker_id s) (\<lambda>w.
       case first_stale_queued s of
         Some r \<Rightarrow> Inl (StaleClaimRoutingFacts (j_id r) (j_claim_facts_version r)
                     CLAIM_ROUTING_FACTS_VERSION (j_payload_revision r) (j_claim_payload_revision r))
       | None \<Rightarrow>
           result_bind (choose_claimable_job_from_candidates pol s w (claim_candidates s w)) (\<lambda>chosen.
             case chosen of
               None \<Rightarrow> Inr ((None, None), s)
             | Some queued \<Rightarrow>
                 if should_defer_auto_gpu_claim pol s queued w then Inr ((None, None), s)
                 else if should_defer_to_mlx pol s queued w mlx_required then
                   Inr ((None, Some (new_route_decision queued (w_gpu_id w) worker_id
                     ''deferred_to_mlx'' ''idle_mlx_available'')), s)
                 else
                   let s' = take_claim pol now queued w s in
                   result_bind (get_job (j_id queued) s') (\<lambda>job.
                     Inr ((Some job, route_decision_for_claim pol queued w), s'))))"

definition claim_next_job ::
  "routing_policy \<Rightarrow> string \<Rightarrow> string \<Rightarrow> jobs_store \<Rightarrow> (job_row option \<times> jobs_store) jobs_result" where
  "claim_next_job pol now worker_id s =
     result_bind (claim_next_job_routed pol now worker_id False s) (\<lambda>((job, _), s'). Inr (job, s'))"

subsection \<open>The scan keeps the highest compatible rank\<close>

abbreviation ranks_descend :: "claim_candidate list \<Rightarrow> bool" where
  "ranks_descend \<equiv> sorted_wrt (\<lambda>a b. cc_queue_rank b \<le> cc_queue_rank a)"

lemma scan_compatible_Some:
  "ranks_descend cs \<Longrightarrow> scan_compatible w (Some h) cs =
   filter (\<lambda>c. worker_may_support_claim_candidate w c \<and> h \<le> cc_queue_rank c) cs"
proof (induction cs)
  case (Cons c cs)
  show ?case
  proof (cases "cc_queue_rank c < h")
    case True
    with Cons.prems have "\<forall>d \<in> set (c # cs). \<not> h \<le> cc_queue_rank d" by auto
    then have "filter (\<lambda>d. worker_may_support_claim_candidate w d \<and> h \<le> cc_queue_rank d) (c # cs) = []"
      by (simp only: filter_empty_conv) blast
    with True show ?thesis by (simp del: filter.simps)
  next
    case False
    with Cons show ?thesis by simp
  qed
qed simp

lemma scan_compatible_None:
  "ranks_descend cs \<Longrightarrow> scan_compatible w None cs =
   (case find (worker_may_support_claim_candidate w) cs of
      None \<Rightarrow> []
    | Some first \<Rightarrow> filter (\<lambda>c. worker_may_support_claim_candidate w c \<and> cc_queue_rank first \<le> cc_queue_rank c) cs)"
proof (induction cs)
  case (Cons c cs)
  then show ?case
    by (cases "worker_may_support_claim_candidate w c") (simp_all add: scan_compatible_Some split: option.split)
qed simp

lemma find_Some_first: "find P xs = Some x \<Longrightarrow> P x \<and> x \<in> set xs"
  by (induction xs) (auto split: if_splits)

lemma find_highest:
  assumes "ranks_descend cs" and "find P cs = Some first" and "c \<in> set cs" and "P c"
  shows "cc_queue_rank c \<le> cc_queue_rank first"
  using assms by (induction cs) (auto split: if_splits)

lemma choose_claimable_member:
  "choose_claimable_candidate w cs = Some c \<Longrightarrow> c \<in> set cs"
  by (auto simp: choose_claimable_candidate_def split: list.splits if_splits option.splits dest: find_Some_first)

lemma choose_claimable_None: "choose_claimable_candidate w cs = None \<longleftrightarrow> cs = []"
  by (auto simp: choose_claimable_candidate_def split: list.splits if_splits option.splits)

lemma scan_member:
  assumes "ranks_descend cs" and "c \<in> set (scan_compatible w None cs)"
  shows "c \<in> set cs \<and> worker_may_support_claim_candidate w c
    \<and> (\<forall>d \<in> set cs. worker_may_support_claim_candidate w d \<longrightarrow> cc_queue_rank d \<le> cc_queue_rank c)"
proof (cases "find (worker_may_support_claim_candidate w) cs")
  case None
  with assms show ?thesis by (simp add: scan_compatible_None)
next
  case (Some first)
  with assms have "c \<in> set cs" "worker_may_support_claim_candidate w c" "cc_queue_rank first \<le> cc_queue_rank c"
    by (auto simp: scan_compatible_None)
  then show ?thesis using find_highest [OF assms(1) Some] by force
qed

lemma scan_empty_iff:
  assumes "ranks_descend cs"
  shows "scan_compatible w None cs = [] \<longleftrightarrow> (\<forall>c \<in> set cs. \<not> worker_may_support_claim_candidate w c)"
proof (cases "find (worker_may_support_claim_candidate w) cs")
  case None
  then have "\<forall>c \<in> set cs. \<not> worker_may_support_claim_candidate w c" by (auto simp: find_None_iff)
  with None assms show ?thesis by (simp add: scan_compatible_None)
next
  case (Some first)
  with find_Some_first [OF Some] have "first \<in> set (scan_compatible w None cs)"
    using assms by (simp add: scan_compatible_None)
  then show ?thesis using find_Some_first [OF Some] by (metis empty_iff list.set(1))
qed

lemma claim_candidates_descend: "ranks_descend (claim_candidates s w)"
proof -
  have "sorted_wrt (\<lambda>a b. \<not> claim_order b a) (order_by claim_order (filter (claimable_header s w) (s_jobs s)))"
    by (rule scheduling.sorted_order_by)
  then show ?thesis
    unfolding claim_candidates_def sorted_wrt_map
    by (rule sorted_wrt_mono_rel [rotated])
      (auto simp: claim_order_def then_by_def higher_rank_def row_to_claim_candidate_def)
qed

subsection \<open>What a claim takes\<close>

definition header_supports :: "worker_row \<Rightarrow> job_row \<Rightarrow> bool" where
  "header_supports w r = worker_supports_claim_routing_facts w (columns_facts (j_type r) (j_claim r))"

lemma candidate_of_row [simp]:
  "worker_may_support_claim_candidate w (row_to_claim_candidate r) = header_supports w r"
  "cc_queue_rank (row_to_claim_candidate r) = max (j_queue_rank r) 0"
  "cc_id (row_to_claim_candidate r) = j_id r"
  "cc_facts (row_to_claim_candidate r) = columns_facts (j_type r) (j_claim r)"
  by (simp_all add: worker_may_support_claim_candidate_def header_supports_def row_to_claim_candidate_def)

lemma set_claim_candidates:
  "set (claim_candidates s w) = row_to_claim_candidate ` {r \<in> set (s_jobs s). claimable_header s w r}"
  by (auto simp: claim_candidates_def)

lemmas find_queued_row = find_keyed_row [of j_id _ _ "\<lambda>x. j_status x = Queued"]

lemma choose_job_Some:
  assumes "choose_claimable_job_from_candidates pol s w (claim_candidates s w) = Inr (Some job)"
    and "distinct (map j_id (s_jobs s))"
  shows "job \<in> set (s_jobs s) \<and> claimable_header s w job \<and> worker_supports_job pol w job
    \<and> (\<forall>r \<in> set (s_jobs s). claimable_header s w r \<longrightarrow> header_supports w r \<longrightarrow>
         max (j_queue_rank r) 0 \<le> max (j_queue_rank job) 0)"
proof -
  from assms(1) obtain sel where
    sel: "choose_claimable_candidate w (scan_compatible w None (claim_candidates s w)) = Some sel"
    and found: "find (\<lambda>r. j_id r = cc_id sel \<and> j_status r = Queued) (s_jobs s) = Some job"
    and facts: "cc_facts sel = facts_from_job pol job"
    by (auto simp: choose_claimable_job_from_candidates_def split: option.splits if_splits)
  have mem: "sel \<in> set (claim_candidates s w)" "worker_may_support_claim_candidate w sel"
    "\<forall>d \<in> set (claim_candidates s w). worker_may_support_claim_candidate w d \<longrightarrow> cc_queue_rank d \<le> cc_queue_rank sel"
    using scan_member [OF claim_candidates_descend choose_claimable_member [OF sel]] by auto
  then obtain r where r: "r \<in> set (s_jobs s)" "claimable_header s w r" "sel = row_to_claim_candidate r"
    by (auto simp: set_claim_candidates)
  then have "j_status r = Queued" by (simp add: claimable_header_def)
  from find_queued_row [OF assms(2) r(1) this] found r(3) have "job = r" by simp
  moreover have "worker_supports_job pol w r"
    using mem(2) facts \<open>job = r\<close> by (simp add: worker_supports_job_def worker_may_support_claim_candidate_def)
  ultimately show ?thesis
    using r mem(3) by (auto simp: set_claim_candidates)
qed

definition stamped_row :: "routing_policy \<Rightarrow> job_row \<Rightarrow> job_row" where
  "stamped_row pol queued =
     (if is_video_job_type (j_type queued) then
        (case stamp_claimed_reference_image_resize_mode pol (j_payload queued) of
           None \<Rightarrow> queued
         | Some payload \<Rightarrow> after_update queued (set_stamped payload queued))
      else queued)"

definition claimed_row :: "routing_policy \<Rightarrow> string \<Rightarrow> worker_row \<Rightarrow> job_row \<Rightarrow> job_row" where
  "claimed_row pol now w queued =
     after_update (stamped_row pol queued)
       (set_claimed (assigned_gpu_for queued w) (w_id w) now (stamped_row pol queued))"

lemma stamped_row_kept [simp]:
  "j_id (stamped_row pol r) = j_id r" "j_status (stamped_row pol r) = j_status r"
  "j_type (stamped_row pol r) = j_type r"
  by (auto simp: stamped_row_def after_update_def set_stamped_def split: option.splits)

lemma stamp_claimed_find:
  assumes "find_job (j_id q) s = Some q" "j_status q = Queued"
  shows "find_job (j_id q) (stamp_claimed_job pol q s) = Some (stamped_row pol q)"
    and "k \<noteq> j_id q \<Longrightarrow> find_job k (stamp_claimed_job pol q s) = find_job k s"
proof -
  show "find_job (j_id q) (stamp_claimed_job pol q s) = Some (stamped_row pol q)"
    unfolding stamp_claimed_job_def stamped_row_def
    using assms find_job_update_jobs [of "\<lambda>r. j_id r = j_id q \<and> j_status r = Queued"]
    by (auto simp del: update_jobs_sel split: option.splits)
  show "k \<noteq> j_id q \<Longrightarrow> find_job k (stamp_claimed_job pol q s) = find_job k s"
    unfolding stamp_claimed_job_def
    by (auto simp del: update_jobs_sel split: option.splits intro: find_job_update_other)
qed

lemma take_claim_find:
  assumes "find_job (j_id q) s = Some q" "j_status q = Queued"
  shows "find_job (j_id q) (take_claim pol now q w s) = Some (claimed_row pol now w q)"
    and "k \<noteq> j_id q \<Longrightarrow> find_job k (take_claim pol now q w s) = find_job k s"
proof -
  let ?s = "stamp_claimed_job pol q s"
  have jobs: "find_job i (take_claim pol now q w s) =
    find_job i (update_jobs (\<lambda>r. j_id r = j_id q \<and> j_status r = Queued)
      (set_claimed (assigned_gpu_for q w) (w_id w) now) ?s)" for i
    by (simp add: take_claim_def)
  show "find_job (j_id q) (take_claim pol now q w s) = Some (claimed_row pol now w q)"
    unfolding jobs claimed_row_def
    using assms stamp_claimed_find(1) [OF assms] by (subst find_job_update_jobs) auto
  assume k: "k \<noteq> j_id q"
  have "find_job k (take_claim pol now q w s) = find_job k ?s"
    unfolding jobs using k by (intro find_job_update_other) auto
  also have "\<dots> = find_job k s" using k by (rule stamp_claimed_find(2) [OF assms])
  finally show "find_job k (take_claim pol now q w s) = find_job k s" .
qed

lemma claimed_row_fields:
  "j_id (claimed_row pol now w q) = j_id q" "j_type (claimed_row pol now w q) = j_type q"
  "j_status (claimed_row pol now w q) = Preparing"
  "j_worker_id (claimed_row pol now w q) = Some (w_id w)"
  "j_assigned_gpu (claimed_row pol now w q) = Some (assigned_gpu_for q w)"
  "j_started_at (claimed_row pol now w q) = coalesce (j_started_at (stamped_row pol q)) (Some now)"
  by (simp_all add: claimed_row_def) (simp_all add: after_update_def set_claimed_def)

lemma claim_Inr:
  assumes "claim_next_job_routed pol now worker_id mlx_required s = Inr ((Some job, decision), s')"
    and "distinct (map j_id (s_jobs s))"
  obtains w q where "find_worker worker_id s = Some w" "first_stale_queued s = None"
    "q \<in> set (s_jobs s)" "find_job (j_id q) s = Some q" "claimable_header s w q" "worker_supports_job pol w q"
    "\<forall>r \<in> set (s_jobs s). claimable_header s w r \<longrightarrow> header_supports w r \<longrightarrow>
       max (j_queue_rank r) 0 \<le> max (j_queue_rank q) 0"
    "\<not> should_defer_auto_gpu_claim pol s q w" "\<not> should_defer_to_mlx pol s q w mlx_required"
    "s' = take_claim pol now q w s" "job = claimed_row pol now w q"
proof -
  from assms(1) obtain w q where w: "find_worker worker_id s = Some w" "first_stale_queued s = None"
    and q: "choose_claimable_job_from_candidates pol s w (claim_candidates s w) = Inr (Some q)"
    and nd: "\<not> should_defer_auto_gpu_claim pol s q w" "\<not> should_defer_to_mlx pol s q w mlx_required"
    and s': "s' = take_claim pol now q w s" and job: "find_job (j_id q) s' = Some job"
    by (auto simp: claim_next_job_routed_def get_worker_def ok_or_Inr result_bind_Inr get_job_Inr Let_def
        split: option.splits if_splits)
  note chosen = choose_job_Some [OF q assms(2)]
  then have found: "find_job (j_id q) s = Some q" using lookup_row_member [OF assms(2)] by blast
  have "j_status q = Queued" using chosen by (simp add: claimable_header_def)
  from take_claim_find(1) [OF found this] job s' have "job = claimed_row pol now w q" by simp
  with w chosen found nd s' show ?thesis by (intro that) auto
qed

text \<open>A claim is the stamp followed by the claim statement on one row.\<close>

lemma take_claim_live:
  assumes "find_job (j_id q) s = Some q" "claimable_header s w q" "distinct (map j_id (s_jobs s))"
    and ww: "ww \<noteq> ApiOnly"
  shows "live_steps pol ww (s_jobs s) (s_jobs (take_claim pol now q w s))"
proof -
  let ?s = "stamp_claimed_job pol q s"
  have st: "j_status q = Queued" "\<not> projection_stale q" using assms(2) by (auto simp: claimable_header_def)
  have "live_steps pol ww (s_jobs s) (s_jobs ?s)"
  proof (cases "stamped_row pol q = q \<and> ?s = s")
    case False
    then obtain payload where p: "is_video_job_type (j_type q)"
      "stamp_claimed_reference_image_resize_mode pol (j_payload q) = Some payload"
      by (auto simp: stamp_claimed_job_def stamped_row_def split: if_splits option.splits)
    have "job_sql pol ww r (after_update r (set_stamped payload r))"
      if "r \<in> set (s_jobs s)" "j_id r = j_id q \<and> j_status r = Queued" for r
    proof -
      have "r = q" using find_job_unique [OF assms(3,1)] that by simp
      then show ?thesis using job_sql.stamp [of q pol payload ww] st p by simp
    qed
    then have "live_steps pol ww (s_jobs s) (s_jobs
        (update_jobs (\<lambda>r. j_id r = j_id q \<and> j_status r = Queued) (set_stamped payload) s))"
      by (rule live_steps_update_jobs)
    then show ?thesis using p by (simp add: stamp_claimed_job_def del: update_jobs_sel)
  qed simp
  moreover have "live_steps pol ww (s_jobs ?s) (s_jobs (take_claim pol now q w s))"
    unfolding take_claim_def update_workers_sel
    by (intro live_steps_update_jobs) (auto intro!: job_sql.claim simp: ww)
  ultimately show ?thesis by (rule rtranclp_trans)
qed

lemma claim_live:
  assumes "claim_next_job_routed pol now worker_id mlx_required s = Inr ((job, decision), s')"
    and "distinct (map j_id (s_jobs s))" and ww: "ww \<noteq> ApiOnly"
  shows "live_steps pol ww (s_jobs s) (s_jobs s')"
proof (cases job)
  case None
  with assms(1) have "s' = s"
    by (auto simp: claim_next_job_routed_def result_bind_Inr Let_def split: option.splits if_splits)
  then show ?thesis by simp
next
  case (Some j)
  with assms(1) have "claim_next_job_routed pol now worker_id mlx_required s = Inr ((Some j, decision), s')" by simp
  from claim_Inr [OF this assms(2)] obtain w q where
    q: "find_job (j_id q) s = Some q" "claimable_header s w q" and s': "s' = take_claim pol now q w s" .
  show ?thesis unfolding s' by (rule take_claim_live [OF q assms(2) ww])
qed

subsection \<open>One job per device\<close>

text \<open>The MLX and MPS descriptors name one physical device.\<close>

definition device_of :: "string \<Rightarrow> string option" where
  "device_of gpu_id = (if is_apple_unified_gpu_id gpu_id then None else Some gpu_id)"

definition gpu_active :: "job_row \<Rightarrow> bool" where
  "gpu_active r \<longleftrightarrow> is_active_status (j_status r) \<and> \<not> is_non_gpu_job_type (j_type r)"

definition device_exclusive :: "job_row list \<Rightarrow> bool" where
  "device_exclusive t \<longleftrightarrow> (\<forall>r \<in> set t. \<forall>r' \<in> set t. gpu_active r \<longrightarrow> gpu_active r' \<longrightarrow>
     map_option device_of (j_assigned_gpu r) = map_option device_of (j_assigned_gpu r') \<longrightarrow> j_id r = j_id r')"

lemma apple_unified_lowercase: "lowercase g \<in> {''mlx'', ''mps''} \<longleftrightarrow> is_apple_unified_gpu_id g"
proof -
  have "lowercase ''mlx'' = ''mlx''" "lowercase ''mps'' = ''mps''" by code_simp+
  then show ?thesis
    unfolding is_apple_unified_gpu_id_def eq_ignore_ascii_case_def by (simp only: insert_iff empty_iff simp_thms)
qed

lemma assigned_to_device:
  "assigned_to gpu_id r \<longleftrightarrow> map_option device_of (j_assigned_gpu r) = Some (device_of gpu_id)"
  unfolding assigned_to_def apple_unified_lowercase
  by (cases "j_assigned_gpu r") (auto simp: device_of_def)

text \<open>Only a worker's own statements make a row active.\<close>

definition quiet :: "job_row \<Rightarrow> job_row \<Rightarrow> bool" where
  "quiet r r' \<longleftrightarrow> (gpu_active r' \<longrightarrow> gpu_active r \<and> j_assigned_gpu r' = j_assigned_gpu r \<and> j_id r' = j_id r)"

lemma quiet_step: "job_sql pol ApiOnly r r' \<Longrightarrow> quiet r r'"
  by (induction rule: job_sql.induct)
    (simp_all add: after_update_eq, auto simp: quiet_def gpu_active_def setter_defs)

lemma device_exclusive_quiet:
  assumes "\<And>r'. r' \<in> set t' \<Longrightarrow> gpu_active r' \<Longrightarrow> \<exists>r \<in> set t. quiet r r'" and "device_exclusive t"
  shows "device_exclusive t'"
  unfolding device_exclusive_def
proof (intro ballI impI)
  fix a b
  assume a: "a \<in> set t'" "gpu_active a" and b: "b \<in> set t'" "gpu_active b"
    and same: "map_option device_of (j_assigned_gpu a) = map_option device_of (j_assigned_gpu b)"
  from assms(1) [OF a] obtain x where x: "x \<in> set t" "quiet x a" by blast
  from assms(1) [OF b] obtain y where y: "y \<in> set t" "quiet y b" by blast
  from x y a b same have "j_id x = j_id y"
    using assms(2) unfolding device_exclusive_def quiet_def by metis
  with x y a b show "j_id a = j_id b" by (simp add: quiet_def)
qed

lemma live_step_quiet:
  assumes "live_step pol ApiOnly t t'" and "r' \<in> set t'" and "gpu_active r'"
  shows "\<exists>r \<in> set t. quiet r r'"
  using assms
proof (induction rule: live_step.induct)
  case (update t t')
  then show ?case
  proof (induction rule: list_all2_induct)
    case (Cons x xs y ys)
    have "quiet x y" using Cons.hyps quiet_step by (auto simp: quiet_def)
    with Cons show ?case by auto
  qed simp
next
  case (insert r t)
  then have "r' \<noteq> r" by (auto simp: fresh_row_def gpu_active_def dest: pending_not_active)
  with insert show ?case by (auto simp: quiet_def)
qed

lemma device_exclusive_live:
  "live_steps pol ApiOnly t t' \<Longrightarrow> device_exclusive t \<Longrightarrow> device_exclusive t'"
proof (induction rule: rtranclp_induct)
  case (step t' t'')
  then show ?case using device_exclusive_quiet live_step_quiet by metis
qed

text \<open>A claim starts a GPU job only on a device without one.\<close>

lemma take_claim_rows:
  assumes "find_job (j_id q) s = Some q" "claimable_header s w q" "distinct (map j_id (s_jobs s))"
    and "r \<in> set (s_jobs (take_claim pol now q w s))"
  shows "r = claimed_row pol now w q \<or> r \<in> set (s_jobs s) \<and> j_id r \<noteq> j_id q"
proof -
  let ?s = "take_claim pol now q w s"
  have queued: "j_status q = Queued" using assms(2) by (simp add: claimable_header_def)
  have "table_steps pol AnyWorker (s_jobs s) (s_jobs ?s)"
    by (rule live_steps_table_steps) (rule take_claim_live [OF assms(1,2,3)], simp)
  then have "distinct (map j_id (s_jobs ?s))" using assms(3) by (rule table_steps_ids)
  then have found: "find_job (j_id r) ?s = Some r" using assms(4) by (rule lookup_row_member)
  show ?thesis
  proof (cases "j_id r = j_id q")
    case True
    with found take_claim_find(1) [OF assms(1) queued] show ?thesis by simp
  next
    case False
    then have "find_job (j_id r) s = Some r"
      using found take_claim_find(2) [OF assms(1) queued False] by simp
    with False show ?thesis by (auto dest: lookup_row_SomeD)
  qed
qed

lemma take_claim_device:
  assumes "find_job (j_id q) s = Some q" "claimable_header s w q" "distinct (map j_id (s_jobs s))"
    and excl: "device_exclusive (s_jobs s)"
  shows "device_exclusive (s_jobs (take_claim pol now q w s))"
proof -
  have clash: False if "gpu_active (claimed_row pol now w q)" "r \<in> set (s_jobs s)" "gpu_active r"
    "map_option device_of (j_assigned_gpu r) = map_option device_of (j_assigned_gpu (claimed_row pol now w q))" for r
  proof -
    have gpu: "\<not> is_non_gpu_job_type (j_type q)" using that(1) by (simp add: gpu_active_def claimed_row_fields)
    then have "assigned_to (w_gpu_id w) r"
      using that(4) by (simp add: assigned_to_device claimed_row_fields assigned_gpu_for_def)
    then have "active_gpu_job_exists s (w_gpu_id w)"
      using that by (auto simp: active_gpu_job_exists_def gpu_active_def list_ex_iff)
    with gpu assms(2) show False by (simp add: claimable_header_def)
  qed
  note rows = take_claim_rows [OF assms(1,2,3)]
  show ?thesis
    unfolding device_exclusive_def
  proof (intro ballI impI)
    fix a b
    assume ab: "a \<in> set (s_jobs (take_claim pol now q w s))" "b \<in> set (s_jobs (take_claim pol now q w s))"
      "gpu_active a" "gpu_active b"
      "map_option device_of (j_assigned_gpu a) = map_option device_of (j_assigned_gpu b)"
    then show "j_id a = j_id b"
      using rows [OF ab(1)] rows [OF ab(2)] clash [of a] clash [of b] excl
      unfolding device_exclusive_def by metis
  qed
qed

subsection \<open>A claim that finds nothing\<close>

text \<open>
  The claim never reports a projection mismatch on faithful rows, and it comes back with a
  job or a deferral whenever the worker supports some claimable row.
\<close>

lemma choose_job_faithful:
  assumes "distinct (map j_id (s_jobs s))" and "\<forall>r \<in> set (s_jobs s). projection_faithful pol r"
  shows "\<exists>chosen. choose_claimable_job_from_candidates pol s w (claim_candidates s w) = Inr chosen
    \<and> (chosen = None \<longleftrightarrow> (\<forall>r \<in> set (s_jobs s). claimable_header s w r \<longrightarrow> \<not> worker_supports_job pol w r))"
proof -
  let ?scan = "scan_compatible w None (claim_candidates s w)"
  have header: "header_supports w r = worker_supports_job pol w r"
    "columns_facts (j_type r) (j_claim r) = facts_from_job pol r"
    if "r \<in> set (s_jobs s)" "claimable_header s w r" for r
  proof -
    show eq: "columns_facts (j_type r) (j_claim r) = facts_from_job pol r"
      using that assms(2) columns_facts_from_parts
      by (auto simp: claimable_header_def projection_faithful_def facts_from_job_def)
    then show "header_supports w r = worker_supports_job pol w r"
      by (simp add: header_supports_def worker_supports_job_def)
  qed
  have none: "?scan = [] \<longleftrightarrow> (\<forall>r \<in> set (s_jobs s). claimable_header s w r \<longrightarrow> \<not> worker_supports_job pol w r)"
    unfolding scan_empty_iff [OF claim_candidates_descend] set_claim_candidates using header by auto
  show ?thesis
  proof (cases "choose_claimable_candidate w ?scan")
    case None
    then have "choose_claimable_job_from_candidates pol s w (claim_candidates s w) = Inr None"
      by (simp add: choose_claimable_job_from_candidates_def)
    moreover have "?scan = []" using None by (simp add: choose_claimable_None)
    ultimately show ?thesis using none by blast
  next
    case (Some sel)
    then have "?scan \<noteq> []" and "sel \<in> set (claim_candidates s w)"
      using scan_member [OF claim_candidates_descend choose_claimable_member [OF Some]]
        choose_claimable_None [of w ?scan] by auto
    then obtain r where r: "r \<in> set (s_jobs s)" "claimable_header s w r" "sel = row_to_claim_candidate r"
      by (auto simp: set_claim_candidates)
    then have "find (\<lambda>x. j_id x = cc_id sel \<and> j_status x = Queued) (s_jobs s) = Some r"
      using find_queued_row [OF assms(1) r(1)] by (simp add: claimable_header_def)
    then have "choose_claimable_job_from_candidates pol s w (claim_candidates s w) = Inr (Some r)"
      using Some r(3) header(2) [OF r(1,2)] by (simp add: choose_claimable_job_from_candidates_def)
    then show ?thesis using \<open>?scan \<noteq> []\<close> none by blast
  qed
qed

lemma first_stale_None: "first_stale_queued s = None \<longleftrightarrow> (\<forall>r \<in> set (s_jobs s). j_status r = Queued \<longrightarrow> \<not> projection_stale r)"
proof -
  have "first_stale_queued s = None \<longleftrightarrow>
      order_by claim_order (filter (\<lambda>r. j_status r = Queued \<and> projection_stale r) (s_jobs s)) = []"
    by (auto simp: first_stale_queued_def split: list.split)
  then show ?thesis by (simp add: filter_empty_conv)
qed

lemma first_stale_Some:
  assumes "first_stale_queued s = Some r"
  shows "r \<in> set (s_jobs s) \<and> j_status r = Queued \<and> projection_stale r"
proof -
  let ?stale = "filter (\<lambda>r. j_status r = Queued \<and> projection_stale r) (s_jobs s)"
  obtain rest where "order_by claim_order ?stale = r # rest"
    using assms by (auto simp: first_stale_queued_def split: list.splits)
  then have "r \<in> set (order_by claim_order ?stale)" by simp
  then show ?thesis by simp
qed

end
