(* ===== verification/JobProgress.thy ===== *)
theory JobProgress
  imports JobRules JobLifecycle
begin

text \<open>
  Progress reports and their API-owned side effects: the guards against late and foreign
  reports, the merge of accumulated result keys and training samples, the durable handoff
  with its bounded retry schedule, and the compare-and-swap that replaces a result.
\<close>

subsection \<open>Merging results\<close>

definition PROGRESS_RESULT_ACCUMULATION_KEYS :: "string list" where
  "PROGRESS_RESULT_ACCUMULATION_KEYS =
     [''assetWrites'', ''generationSet'', ''prefixKvCache'', ''assets'', ''assetIds'']"

definition keep_missing :: "json_object \<Rightarrow> string \<Rightarrow> json_object \<Rightarrow> json_object" where
  "keep_missing existing key incoming =
     (if contains_key incoming key then incoming
      else case fmlookup existing key of None \<Rightarrow> incoming | Some value \<Rightarrow> fmupd key value incoming)"

definition merge_progress_result_accumulations :: "json_object \<Rightarrow> json_object \<Rightarrow> json_object" where
  "merge_progress_result_accumulations existing incoming =
     fold (keep_missing existing) PROGRESS_RESULT_ACCUMULATION_KEYS incoming"

text \<open>The text of a JSON value is the serializer's; it is an argument.\<close>

definition first_path :: "json_object \<Rightarrow> string option" where
  "first_path object =
     (case filter (\<lambda>(_, v). case v of None \<Rightarrow> False | Some s \<Rightarrow> s \<noteq> [])
        (map (\<lambda>key. (key, get_str object key)) [''relativePath'', ''path'', ''url'']) of
        (key, Some value) # _ \<Rightarrow> Some (key @ '':'' @ value)
      | _ \<Rightarrow> None)"

definition training_sample_key :: "(json \<Rightarrow> string) \<Rightarrow> json \<Rightarrow> nat \<Rightarrow> string" where
  "training_sample_key to_string sample fallback_index =
     (case as_object sample of
        None \<Rightarrow> ''sample:'' @ show_nat fallback_index
      | Some object \<Rightarrow>
          (case first_path object of
             Some key \<Rightarrow> key
           | None \<Rightarrow>
               ''step:'' @ (case fmlookup object ''step'' of None \<Rightarrow> ''unknown'' | Some v \<Rightarrow> to_string v) @
               '':prompt:'' @ (case get_str object ''prompt'' of None \<Rightarrow> [] | Some p \<Rightarrow> p) @
               '':index:'' @ show_nat fallback_index))"

fun push_samples :: "(json \<Rightarrow> string) \<Rightarrow> json list \<Rightarrow> json list \<times> string list \<Rightarrow> json list \<times> string list" where
  "push_samples to_string [] (samples, seen) = (samples, seen)"
| "push_samples to_string (sample # rest) (samples, seen) =
     (let key = training_sample_key to_string sample (length samples)
      in if key \<in> set seen then push_samples to_string rest (samples, seen)
         else push_samples to_string rest (samples @ [sample], key # seen))"

definition append_training_samples ::
  "(json \<Rightarrow> string) \<Rightarrow> json option \<Rightarrow> json list \<times> string list \<Rightarrow> json list \<times> string list" where
  "append_training_samples to_string value acc =
     (case Option.bind value as_array of None \<Rightarrow> acc | Some array \<Rightarrow> push_samples to_string array acc)"

definition merge_training_sample_history :: "(json \<Rightarrow> string) \<Rightarrow> json_object \<Rightarrow> json_object \<Rightarrow> json_object" where
  "merge_training_sample_history to_string existing incoming =
     (let incoming = fold (keep_missing existing) [''resumeCheckpointStep'', ''trainingSamples''] incoming in
      if get_array incoming ''trainingSamples'' = None \<and> get_array incoming ''latestTrainingSamples'' = None
      then incoming
      else
        let samples = fst (append_training_samples to_string (fmlookup incoming ''latestTrainingSamples'')
              (append_training_samples to_string (fmlookup incoming ''trainingSamples'')
                (append_training_samples to_string (fmlookup existing ''trainingSamples'') ([], []))))
        in if samples = [] then incoming else fmupd ''trainingSamples'' (JArr samples) incoming)"

definition MODEL_PROVENANCE_KEY :: string where
  "MODEL_PROVENANCE_KEY = ''modelProvenance''"

definition merged_result :: "(json \<Rightarrow> string) \<Rightarrow> job_row \<Rightarrow> json_object \<Rightarrow> json_object" where
  "merged_result to_string current incoming =
     (let result = merge_training_sample_history to_string (j_result current) incoming;
          result = merge_progress_result_accumulations (j_result current) result;
          result = fmdrop MODEL_PROVENANCE_KEY result
      in case j_model_provenance current of
           None \<Rightarrow> result
         | Some provenance \<Rightarrow> fmupd MODEL_PROVENANCE_KEY provenance result)"

subsection \<open>Progress reports\<close>

record progress_update =
  pu_status :: job_status
  pu_stage :: string
  pu_progress :: f64
  pu_message :: string
  pu_error :: "string option"
  pu_result :: "json_object option"
  pu_eta_seconds :: "f64 option"
  pu_peak_gpu_memory_pct :: "f64 option"
  pu_peak_gpu_load_pct :: "f64 option"
  pu_backend :: "string option"
  pu_worker_id :: "string option"

definition finite_option :: "f64 option \<Rightarrow> bool" where
  "finite_option v \<longleftrightarrow> (case v of None \<Rightarrow> True | Some x \<Rightarrow> is_finite x)"

definition validate_progress :: "progress_update \<Rightarrow> unit jobs_result" where
  "validate_progress u =
     (if pu_status u \<notin> set known_job_status then Inl (InvalidStatus (job_status_str (pu_status u)))
      else if \<not> is_finite (pu_progress u) then Inl (InvalidNumber ''progress'')
      else if \<not> finite_option (pu_eta_seconds u) then Inl (InvalidNumber ''etaSeconds'')
      else if \<not> finite_option (pu_peak_gpu_memory_pct u) then Inl (InvalidNumber ''peakGpuMemoryPct'')
      else if \<not> finite_option (pu_peak_gpu_load_pct u) then Inl (InvalidNumber ''peakGpuLoadPct'')
      else Inr ())"

definition reporter_owns :: "progress_update \<Rightarrow> job_row \<Rightarrow> bool" where
  "reporter_owns u current \<longleftrightarrow> pu_worker_id u \<noteq> None \<and> pu_worker_id u = j_worker_id current"

definition progress_write_of ::
  "(json \<Rightarrow> string) \<Rightarrow> string \<Rightarrow> bool \<Rightarrow> job_row \<Rightarrow> progress_update \<Rightarrow> progress_write" where
  "progress_write_of to_string now track current u = \<lparr>
     p_status = pu_status u, p_stage = pu_stage u,
     p_progress = clamp 0 1 (fin_value (pu_progress u)),
     p_message = pu_message u, p_error = pu_error u,
     p_result = map_option (merged_result to_string current) (pu_result u),
     p_eta_seconds = map_option fin_value (pu_eta_seconds u),
     p_completed_at = (if is_terminal_status (pu_status u) then Some now else None),
     p_canceled_at = (if pu_status u = Canceled then Some now else None),
     p_now = now,
     p_peak_memory = map_option (\<lambda>v. clamp 0 100 (fin_value v)) (pu_peak_gpu_memory_pct u),
     p_peak_load = map_option (\<lambda>v. clamp 0 100 (fin_value v)) (pu_peak_gpu_load_pct u),
     p_backend = pu_backend u,
     p_side_effects = (track \<and> is_terminal_status (pu_status u)) \<rparr>"

record progress_outcome =
  po_job :: job_row
  po_previous_status :: job_status
  po_applied :: bool
  po_side_effects_pending :: bool

definition set_worker_idle :: "string \<Rightarrow> worker_row \<Rightarrow> worker_row" where
  "set_worker_idle now w = w\<lparr> w_status := Idle, w_current_job_id := None, w_last_seen_at := now \<rparr>"

definition release_owner :: "string \<Rightarrow> job_status \<Rightarrow> job_row \<Rightarrow> jobs_store \<Rightarrow> jobs_store" where
  "release_owner now status job s =
     (if is_terminal_status status then
        (case j_worker_id job of
           None \<Rightarrow> s
         | Some worker_id \<Rightarrow> update_workers (\<lambda>w. w_id w = worker_id) (set_worker_idle now) s)
      else s)"

definition update_job_progress_internal ::
  "(json \<Rightarrow> string) \<Rightarrow> string \<Rightarrow> string \<Rightarrow> progress_update \<Rightarrow> bool \<Rightarrow> jobs_store
    \<Rightarrow> (progress_outcome \<times> jobs_store) jobs_result" where
  "update_job_progress_internal to_string now job_id u track s =
     result_bind (validate_progress u) (\<lambda>_.
       result_bind (get_job job_id s) (\<lambda>current.
         if is_terminal_status (j_status current) then
           (if j_status current = pu_status u then
              (if reporter_owns u current then
                 Inr (\<lparr> po_job = current, po_previous_status = j_status current, po_applied = False,
                        po_side_effects_pending = j_side_effects_pending current \<rparr>, s)
               else Inl (NotJobOwner job_id))
            else Inl (TerminalJobImmutable job_id (job_status_str (j_status current))))
         else if \<not> reporter_owns u current then Inl (NotJobOwner job_id)
         else
           let s' = update_jobs (\<lambda>r. j_id r = job_id) (set_progress (progress_write_of to_string now track current u)) s
           in result_bind (get_job job_id s') (\<lambda>job.
                Inr (\<lparr> po_job = job, po_previous_status = j_status current, po_applied = True,
                       po_side_effects_pending = (track \<and> is_terminal_status (pu_status u)) \<rparr>,
                     release_owner now (pu_status u) job s'))))"

definition update_job_progress ::
  "(json \<Rightarrow> string) \<Rightarrow> string \<Rightarrow> string \<Rightarrow> progress_update \<Rightarrow> jobs_store \<Rightarrow> (job_row \<times> jobs_store) jobs_result" where
  "update_job_progress to_string now job_id u s =
     result_bind (update_job_progress_internal to_string now job_id u False s) (\<lambda>(outcome, s'). Inr (po_job outcome, s'))"

definition update_job_progress_with_outcome ::
  "(json \<Rightarrow> string) \<Rightarrow> string \<Rightarrow> string \<Rightarrow> progress_update \<Rightarrow> jobs_store
    \<Rightarrow> (progress_outcome \<times> jobs_store) jobs_result" where
  "update_job_progress_with_outcome to_string now job_id u s =
     update_job_progress_internal to_string now job_id u True s"

subsection \<open>The side-effect handoff\<close>

definition pending_terminal_progress_side_effects ::
  "string \<Rightarrow> string option \<Rightarrow> job_status \<Rightarrow> jobs_store \<Rightarrow> job_row option jobs_result" where
  "pending_terminal_progress_side_effects job_id worker_id status s =
     result_bind (get_job job_id s) (\<lambda>current.
       if j_status current \<noteq> status \<or> \<not> j_side_effects_pending current then Inr None
       else if worker_id \<noteq> None \<and> worker_id = j_worker_id current then Inr (Some current)
       else Inl (NotJobOwner job_id))"

definition retry_due_order :: "job_row \<Rightarrow> job_row \<Rightarrow> bool" where
  "retry_due_order =
     then_by (then_by (\<lambda>a b. j_side_effects_retry_at a < j_side_effects_retry_at b)
                      (\<lambda>a b. text_less (j_updated_at a) (j_updated_at b)))
             (\<lambda>a b. text_less (j_id a) (j_id b))"

definition pending_terminal_progress_side_effect_job_ids_as_of :: "int \<Rightarrow> nat \<Rightarrow> jobs_store \<Rightarrow> string list" where
  "pending_terminal_progress_side_effect_job_ids_as_of as_of limit s =
     take limit (map j_id (order_by retry_due_order
       (filter (\<lambda>r. j_side_effects_pending r \<and> is_terminal_status (j_status r)
          \<and> j_side_effects_retry_at r \<le> as_of) (s_jobs s))))"

definition RETRY_BASE_SECONDS :: int where "RETRY_BASE_SECONDS = 5"
definition RETRY_MAX_SECONDS :: int where "RETRY_MAX_SECONDS = 5 * 60"

text \<open>\<open>u32::try_from(n - 1).unwrap_or(u32::MAX).min(16)\<close>, then a shift and a cap.\<close>

definition retry_exponent :: "int \<Rightarrow> nat" where
  "retry_exponent next_retry_count =
     (let n = saturating_sub next_retry_count 1
      in if 0 \<le> n \<and> n < 2 ^ 32 then min (nat n) 16 else 16)"

definition retry_delay :: "int \<Rightarrow> int" where
  "retry_delay next_retry_count =
     min (saturating_mul RETRY_BASE_SECONDS (2 ^ retry_exponent next_retry_count)) RETRY_MAX_SECONDS"

definition defer_pending_terminal_progress_side_effects ::
  "int \<Rightarrow> string \<Rightarrow> jobs_store \<Rightarrow> (bool \<times> jobs_store) jobs_result" where
  "defer_pending_terminal_progress_side_effects now_seconds job_id s =
     (case find (\<lambda>r. j_id r = job_id \<and> j_side_effects_pending r) (s_jobs s) of
        None \<Rightarrow> Inr (False, s)
      | Some r \<Rightarrow>
          let next_retry_count = saturating_add (max (j_side_effects_retry_count r) 0) 1;
              retry_at = saturating_add now_seconds (retry_delay next_retry_count);
              guard = (\<lambda>r. j_id r = job_id \<and> j_side_effects_pending r)
          in Inr (affected guard s = 1, update_jobs guard (set_deferred next_retry_count retry_at) s))"

definition replace_job_result_after_progress ::
  "string \<Rightarrow> string \<Rightarrow> string option \<Rightarrow> job_status \<Rightarrow> json_object \<Rightarrow> json_object \<Rightarrow> bool \<Rightarrow> jobs_store
    \<Rightarrow> (job_row \<times> jobs_store) jobs_result" where
  "replace_job_result_after_progress now job_id worker_id status expected_result result clear s =
     result_bind (get_job job_id s) (\<lambda>current.
       if j_worker_id current \<noteq> worker_id \<or> j_status current \<noteq> status \<or> j_result current \<noteq> expected_result
       then Inr (current, s)
       else
         let s' = update_jobs (\<lambda>r. j_id r = job_id) (set_result result now clear) s
         in result_bind (get_job job_id s') (\<lambda>job. Inr (job, s')))"

subsection \<open>Merging keeps what was accumulated\<close>

lemma keep_missing_lookup:
  "fmlookup (keep_missing existing key incoming) k =
     (if k = key \<and> fmlookup incoming k = None then fmlookup existing k else fmlookup incoming k)"
  by (auto simp: keep_missing_def contains_key_def split: option.splits)

lemma fold_keep_missing_lookup:
  "fmlookup (fold (keep_missing existing) keys incoming) k =
     (if k \<in> set keys \<and> fmlookup incoming k = None then fmlookup existing k else fmlookup incoming k)"
  by (induction keys arbitrary: incoming) (auto simp: keep_missing_lookup)

lemma merge_accumulations_lookup:
  "fmlookup (merge_progress_result_accumulations existing incoming) k =
     (if k \<in> set PROGRESS_RESULT_ACCUMULATION_KEYS \<and> fmlookup incoming k = None
      then fmlookup existing k else fmlookup incoming k)"
  unfolding merge_progress_result_accumulations_def by (rule fold_keep_missing_lookup)

text \<open>Samples are only appended, under keys not seen before.\<close>

lemma push_samples_prefix:
  "push_samples ts xs (samples, seen) = (samples', seen') \<Longrightarrow>
   \<exists>ys. samples' = samples @ ys \<and> set ys \<subseteq> set xs"
proof (induction xs arbitrary: samples seen)
  case (Cons x xs)
  let ?key = "training_sample_key ts x (length samples)"
  show ?case
  proof (cases "?key \<in> set seen")
    case True
    with Cons show ?thesis by (fastforce simp: Let_def)
  next
    case False
    with Cons.prems have "push_samples ts xs (samples @ [x], ?key # seen) = (samples', seen')"
      by (simp add: Let_def)
    from Cons.IH [OF this] show ?thesis by auto
  qed
qed simp

lemma append_training_samples_prefix:
  "\<exists>ys. fst (append_training_samples ts v acc) = fst acc @ ys"
proof (cases acc)
  case (Pair samples seen)
  show ?thesis
  proof (cases "Option.bind v as_array")
    case (Some xs)
    obtain samples' seen' where p: "push_samples ts xs (samples, seen) = (samples', seen')" by force
    with push_samples_prefix [OF p] Some Pair show ?thesis by (auto simp: append_training_samples_def)
  qed (simp add: append_training_samples_def)
qed

text \<open>A list the merge has produced is stored without repetitions, so a replay keeps it whole.\<close>

definition samples_settled :: "(json \<Rightarrow> string) \<Rightarrow> json list \<Rightarrow> bool" where
  "samples_settled ts xs \<longleftrightarrow> fst (push_samples ts xs ([], [])) = xs"

lemma push_samples_append:
  "push_samples ts (xs @ ys) acc = push_samples ts ys (push_samples ts xs acc)"
proof (induction xs arbitrary: acc)
  case (Cons x xs)
  obtain samples seen where acc: "acc = (samples, seen)" by force
  show ?case by (simp add: acc Let_def Cons.IH)
next
  case Nil
  then show ?case by (cases acc) simp
qed

lemma push_samples_settles:
  assumes "push_samples ts held ([], []) = (held, seen)" "push_samples ts xs (held, seen) = (samples', seen')"
  shows "push_samples ts samples' ([], []) = (samples', seen')"
  using assms
proof (induction xs arbitrary: held seen)
  case (Cons x xs)
  let ?key = "training_sample_key ts x (length held)"
  show ?case
  proof (cases "?key \<in> set seen")
    case True
    with Cons show ?thesis by (simp add: Let_def)
  next
    case False
    with Cons.prems have later: "push_samples ts xs (held @ [x], ?key # seen) = (samples', seen')"
      by (simp add: Let_def)
    have "push_samples ts (held @ [x]) ([], []) = (held @ [x], ?key # seen)"
      using Cons.prems(1) False by (simp add: push_samples_append Let_def)
    from Cons.IH [OF this later] show ?thesis .
  qed
qed simp

lemma append_settles:
  assumes "push_samples ts (fst acc) ([], []) = acc"
  shows "push_samples ts (fst (append_training_samples ts v acc)) ([], []) = append_training_samples ts v acc"
proof (cases "Option.bind v as_array")
  case (Some xs)
  obtain samples seen where acc: "acc = (samples, seen)" by force
  obtain samples' seen' where p: "push_samples ts xs (samples, seen) = (samples', seen')" by force
  show ?thesis
    using push_samples_settles [OF _ p] assms by (simp add: append_training_samples_def Some acc p)
qed (simp add: append_training_samples_def assms)

abbreviation merged_samples :: "(json \<Rightarrow> string) \<Rightarrow> json option \<Rightarrow> json option \<Rightarrow> json option \<Rightarrow> json list \<times> string list" where
  "merged_samples ts old new latest \<equiv>
     append_training_samples ts latest (append_training_samples ts new (append_training_samples ts old ([], [])))"

lemma merged_samples_settled: "samples_settled ts (fst (merged_samples ts old new latest))"
proof -
  have "push_samples ts (fst (merged_samples ts old new latest)) ([], []) = merged_samples ts old new latest"
    by (intro append_settles) simp
  then show ?thesis by (simp add: samples_settled_def)
qed

lemma merged_samples_keep:
  assumes "samples_settled ts xs"
  shows "\<exists>ys. fst (merged_samples ts (Some (JArr xs)) new latest) = xs @ ys"
proof -
  have "fst (append_training_samples ts (Some (JArr xs)) ([], [])) = xs"
    using assms by (simp add: append_training_samples_def samples_settled_def)
  then show ?thesis
    using append_training_samples_prefix [of ts new "append_training_samples ts (Some (JArr xs)) ([], [])"]
      append_training_samples_prefix [of ts latest "append_training_samples ts new (append_training_samples ts (Some (JArr xs)) ([], []))"]
    by auto
qed

lemma merge_history_other:
  "k \<notin> {''resumeCheckpointStep'', ''trainingSamples''} \<Longrightarrow>
   fmlookup (merge_training_sample_history ts existing incoming) k = fmlookup incoming k"
  by (auto simp: merge_training_sample_history_def Let_def keep_missing_lookup)

lemma accumulation_keys_apart:
  "k \<in> set PROGRESS_RESULT_ACCUMULATION_KEYS \<Longrightarrow>
   k \<notin> {''resumeCheckpointStep'', ''trainingSamples'', MODEL_PROVENANCE_KEY}"
  by (auto simp: PROGRESS_RESULT_ACCUMULATION_KEYS_def MODEL_PROVENANCE_KEY_def)

lemma merged_result_provenance:
  "fmlookup (merged_result ts job incoming) MODEL_PROVENANCE_KEY = j_model_provenance job"
  by (simp add: merged_result_def Let_def split: option.split)

lemma merged_result_accumulated:
  assumes "k \<in> set PROGRESS_RESULT_ACCUMULATION_KEYS"
  shows "fmlookup (merged_result ts job incoming) k = coalesce (fmlookup incoming k) (fmlookup (j_result job) k)"
proof -
  have "fmlookup (merged_result ts job incoming) k =
      fmlookup (merge_progress_result_accumulations (j_result job)
        (merge_training_sample_history ts (j_result job) incoming)) k"
    using accumulation_keys_apart [OF assms] by (auto simp: merged_result_def Let_def split: option.split)
  then show ?thesis
    using accumulation_keys_apart [OF assms] assms
    by (simp add: merge_accumulations_lookup merge_history_other coalesce_def split: option.split)
qed

definition history_out :: "(json \<Rightarrow> string) \<Rightarrow> json list \<Rightarrow> json_object \<Rightarrow> json list \<Rightarrow> json list" where
  "history_out ts held incoming xs =
     fst (merged_samples ts (Some (JArr held)) (Some (JArr xs)) (fmlookup incoming ''latestTrainingSamples''))"

text \<open>The samples a merge stores, for a report whose samples, if any, are a list.\<close>

lemma merge_history_samples:
  assumes "fmlookup existing ''trainingSamples'' = Some (JArr held)" and "held \<noteq> []"
    and "fmlookup incoming ''trainingSamples'' = None \<or> get_array incoming ''trainingSamples'' \<noteq> None"
  shows "\<exists>xs. (fmlookup incoming ''trainingSamples'' = None \<longrightarrow> xs = held) \<and> (history_out ts held incoming xs \<noteq> [] \<longrightarrow>
     fmlookup (merge_training_sample_history ts existing incoming) ''trainingSamples'' =
       Some (JArr (history_out ts held incoming xs)))"
proof -
  let ?in = "fold (keep_missing existing) [''resumeCheckpointStep'', ''trainingSamples''] incoming"
  obtain xs where xs: "fmlookup ?in ''trainingSamples'' = Some (JArr xs)"
    "fmlookup incoming ''trainingSamples'' = None \<longrightarrow> xs = held"
  proof (cases "fmlookup incoming ''trainingSamples''")
    case None
    then show ?thesis using that assms(1) by (simp add: keep_missing_lookup)
  next
    case (Some v)
    with assms(3) obtain ys where "v = JArr ys" by (cases v) (auto simp: get_array_def)
    with Some that show ?thesis by (simp add: keep_missing_lookup)
  qed
  have latest: "fmlookup ?in ''latestTrainingSamples'' = fmlookup incoming ''latestTrainingSamples''"
    by (simp add: keep_missing_lookup)
  have "get_array ?in ''trainingSamples'' = Some xs" using xs(1) by (simp add: get_array_def)
  then show ?thesis
    using xs latest assms(1)
    by (intro exI [of _ xs]) (simp add: merge_training_sample_history_def history_out_def)
qed

lemma merge_history_keeps:
  assumes "fmlookup existing ''trainingSamples'' = Some (JArr held)" and "samples_settled ts held" and "held \<noteq> []"
    and "fmlookup incoming ''trainingSamples'' = None \<or> get_array incoming ''trainingSamples'' \<noteq> None"
  shows "\<exists>added. fmlookup (merge_training_sample_history ts existing incoming) ''trainingSamples'' =
      Some (JArr (held @ added)) \<and> samples_settled ts (held @ added)"
proof -
  obtain xs where xs: "history_out ts held incoming xs \<noteq> [] \<Longrightarrow>
      fmlookup (merge_training_sample_history ts existing incoming) ''trainingSamples'' = Some (JArr
        (history_out ts held incoming xs))"
    using merge_history_samples [OF assms(1,3,4), of ts] by blast
  from merged_samples_keep [OF assms(2)] obtain added where added: "history_out ts held incoming xs = held @ added"
    unfolding history_out_def by blast
  have "samples_settled ts (held @ added)"
    unfolding added [symmetric] history_out_def by (rule merged_samples_settled)
  then show ?thesis using xs added assms(3) by auto
qed

text \<open>Samples with a path are recognized wherever they stand.\<close>

definition sample_path :: "json \<Rightarrow> string option" where
  "sample_path sample = Option.bind (as_object sample) first_path"

lemma sample_key_path: "sample_path x = Some key \<Longrightarrow> training_sample_key ts x n = key"
  by (auto simp: sample_path_def training_sample_key_def split: option.splits bind_splits)

lemma push_samples_paths:
  "list_all (\<lambda>x. sample_path x \<noteq> None) xs \<Longrightarrow> (the \<circ> sample_path) ` set xs \<subseteq> set seen \<Longrightarrow>
   push_samples ts xs (samples, seen) = (samples, seen)"
proof (induction xs)
  case (Cons x xs)
  then obtain key where "sample_path x = Some key" by auto
  with Cons show ?case by (simp add: sample_key_path)
qed simp

lemma push_samples_seen:
  "push_samples ts xs (samples, seen) = (samples', seen') \<Longrightarrow> list_all (\<lambda>x. sample_path x \<noteq> None) xs \<Longrightarrow>
   (the \<circ> sample_path) ` set xs \<union> set seen \<subseteq> set seen'"
proof (induction xs arbitrary: samples seen)
  case (Cons x xs)
  then obtain key where key: "sample_path x = Some key" by auto
  show ?case
  proof (cases "key \<in> set seen")
    case True
    with Cons.prems key have "push_samples ts xs (samples, seen) = (samples', seen')"
      by (simp add: sample_key_path [OF key])
    from Cons.IH [OF this] Cons.prems(2) True key show ?thesis by auto
  next
    case False
    with Cons.prems key have "push_samples ts xs (samples @ [x], key # seen) = (samples', seen')"
      by (simp add: sample_key_path [OF key])
    from Cons.IH [OF this] Cons.prems(2) key show ?thesis by auto
  qed
qed simp

lemma merge_history_slim:
  assumes "fmlookup existing ''trainingSamples'' = Some (JArr held)" and "samples_settled ts held" and "held \<noteq> []"
    and "list_all (\<lambda>x. sample_path x \<noteq> None) held"
    and "fmlookup incoming ''trainingSamples'' = None" and "get_array incoming ''latestTrainingSamples'' = None"
  shows "fmlookup (merge_training_sample_history ts existing incoming) ''trainingSamples'' = Some (JArr held)"
proof -
  obtain seen where p: "push_samples ts held ([], []) = (held, seen)"
    using assms(2) by (metis prod.collapse samples_settled_def)
  have "push_samples ts held (held, seen) = (held, seen)"
    using push_samples_seen [OF p assms(4)] by (intro push_samples_paths assms(4)) auto
  moreover have "Option.bind (fmlookup incoming ''latestTrainingSamples'') as_array = None"
    using assms(6) by (simp add: get_array_def)
  ultimately have "history_out ts held incoming held = held"
    by (simp add: history_out_def append_training_samples_def p)
  moreover have "\<exists>xs. xs = held \<and> (history_out ts held incoming xs \<noteq> [] \<longrightarrow>
      fmlookup (merge_training_sample_history ts existing incoming) ''trainingSamples'' =
        Some (JArr (history_out ts held incoming xs)))"
    using merge_history_samples [OF assms(1,3) disjI1 [OF assms(5)], of ts] assms(5) by blast
  ultimately show ?thesis using assms(3) by simp
qed

lemma show_nat_01: "show_nat 0 = ''0''" "show_nat (Suc 0) = ''1''"
  by code_simp+

lemma pathless_doubles:
  assumes "fmlookup object ''relativePath'' = None" and "fmlookup object ''path'' = None"
    and "fmlookup object ''url'' = None"
  shows "fmlookup (merge_training_sample_history ts
      (fmap_of_list [(''trainingSamples'', JArr [JObj object])]) fmempty) ''trainingSamples'' =
    Some (JArr [JObj object, JObj object])"
proof -
  have "first_path object = None" using assms by (simp add: first_path_def get_str_def)
  then have key: "training_sample_key ts (JObj object) n =
      ''step:'' @ (case fmlookup object ''step'' of None \<Rightarrow> ''unknown'' | Some v \<Rightarrow> ts v) @
      '':prompt:'' @ (case get_str object ''prompt'' of None \<Rightarrow> [] | Some p \<Rightarrow> p) @ '':index:'' @ show_nat n" for n
    by (simp add: training_sample_key_def)
  have "training_sample_key ts (JObj object) 0 \<noteq> training_sample_key ts (JObj object) (Suc 0)"
    unfolding key by (simp add: show_nat_01)
  then have "push_samples ts [JObj object] (push_samples ts [JObj object] ([], [])) =
      ([JObj object, JObj object], [training_sample_key ts (JObj object) (Suc 0), training_sample_key ts (JObj object) 0])"
    by simp
  then show ?thesis
    by (simp add: merge_training_sample_history_def keep_missing_def contains_key_def get_array_def
        append_training_samples_def del: push_samples.simps)
qed

subsection \<open>Reports move the table by their statement\<close>

lemma validate_progress_Inr:
  "validate_progress u = Inr v \<longleftrightarrow> pu_status u \<in> set known_job_status \<and> is_finite (pu_progress u)
     \<and> finite_option (pu_eta_seconds u) \<and> finite_option (pu_peak_gpu_memory_pct u)
     \<and> finite_option (pu_peak_gpu_load_pct u)"
  by (auto simp: validate_progress_def)

lemma pct_ok_clamp: "pct_ok (map_option (\<lambda>v. clamp 0 100 (f v)) x)"
  using clamp_bounds [of 0 "100 :: rat"] by (cases x) (simp_all add: pct_ok_def)

lemma progress_write_of_status [simp]: "p_status (progress_write_of ts now track current u) = pu_status u"
  by (simp add: progress_write_of_def)

lemma progress_write_of_ok:
  "pu_status u \<in> set known_job_status \<Longrightarrow> progress_write_ok (progress_write_of ts now track current u)"
  using clamp_bounds [of 0 "1 :: rat" "fin_value (pu_progress u)"]
  by (auto simp: progress_write_ok_def progress_write_of_def pct_ok_clamp)

lemma release_owner_jobs [simp]: "s_jobs (release_owner now status job s) = s_jobs s"
  by (simp add: release_owner_def split: option.split)

lemma progress_Inr:
  assumes "update_job_progress_internal ts now i u track s = Inr (out, s')"
  obtains (replayed) current where "find_job i s = Some current" "is_terminal_status (j_status current)"
      "j_status current = pu_status u" "reporter_owns u current" "s' = s" "\<not> po_applied out" "po_job out = current"
  | (applied) current where "find_job i s = Some current" "\<not> is_terminal_status (j_status current)"
      "reporter_owns u current" "po_applied out" "pu_status u \<in> set known_job_status"
      "po_job out = after_update current (set_progress (progress_write_of ts now track current u) current)"
      "s' = release_owner now (pu_status u) (po_job out)
         (update_jobs (\<lambda>r. j_id r = i) (set_progress (progress_write_of ts now track current u)) s)"
proof -
  from assms obtain current where c: "find_job i s = Some current" and v: "pu_status u \<in> set known_job_status"
    by (auto simp: update_job_progress_internal_def result_bind_Inr validate_progress_Inr get_job_Inr)
  let ?s = "update_jobs (\<lambda>r. j_id r = i) (set_progress (progress_write_of ts now track current u)) s"
  have found: "find_job i ?s = Some (after_update current (set_progress (progress_write_of ts now track current u) current))"
    by (rule find_job_update_self [OF c]) simp
  show thesis
  proof (cases "is_terminal_status (j_status current)")
    case True
    with assms c show thesis
      by (intro replayed [of current])
        (auto simp: update_job_progress_internal_def result_bind_Inr get_job_def split: if_splits)
  next
    case False
    with assms c found show thesis
      by (intro applied [of current])
        (auto simp: update_job_progress_internal_def result_bind_Inr get_job_def v simp del: update_jobs_sel split: if_splits)
  qed
qed

lemma progress_live:
  assumes "update_job_progress_internal ts now i u track s = Inr (out, s')" and "distinct (map j_id (s_jobs s))"
    and ww: "ww \<noteq> ApiOnly" "ww = Disciplined \<Longrightarrow> \<not> is_pending_status (pu_status u)"
  shows "live_steps pol ww (s_jobs s) (s_jobs s')"
  using assms(1)
proof (cases rule: progress_Inr)
  case (applied current)
  obtain w where "j_worker_id current = Some w"
    using applied(3) by (cases "j_worker_id current") (auto simp: reporter_owns_def)
  then have "job_sql pol ww r (after_update r (set_progress (progress_write_of ts now track current u) r))"
    if "r \<in> set (s_jobs s)" "j_id r = i" for r
    using find_job_unique [OF assms(2) applied(1)] that applied progress_write_of_ok
    by (auto intro!: job_sql.progress dest: ww(2) simp: ww(1))
  then have "live_steps pol ww (s_jobs s)
      (s_jobs (update_jobs (\<lambda>r. j_id r = i) (set_progress (progress_write_of ts now track current u)) s))"
    by (rule live_steps_update_jobs)
  then show ?thesis using applied(7) by (simp del: update_jobs_sel)
qed simp

lemma defer_live:
  assumes "defer_pending_terminal_progress_side_effects n i s = Inr (out, s')"
  shows "live_steps pol ww (s_jobs s) (s_jobs s')"
proof (cases "s' = s")
  case False
  with assms obtain k retry_at where
    s': "s' = update_jobs (\<lambda>r. j_id r = i \<and> j_side_effects_pending r) (set_deferred (saturating_add (max k 0) 1) retry_at) s"
    by (auto simp: defer_pending_terminal_progress_side_effects_def Let_def split: option.splits)
  have "0 \<le> saturating_add (max k 0) 1" by (rule saturating_nonneg) auto
  then show ?thesis unfolding s' by (intro live_steps_update_jobs job_sql.defer_retry) auto
qed simp

lemma replace_result_live:
  assumes "replace_job_result_after_progress now i w st expected result clear s = Inr (out, s')"
  shows "live_steps pol ww (s_jobs s) (s_jobs s')"
  using assms
  by (auto simp: replace_job_result_after_progress_def Let_def result_bind_Inr simp del: update_jobs_sel
      split: if_splits intro!: live_steps_update_jobs job_sql.replace_result)

subsection \<open>The retry schedule\<close>

lemma retry_delay_exact: "1 \<le> n \<Longrightarrow> n \<le> i64_max \<Longrightarrow> retry_delay n = min (5 * 2 ^ min (nat (n - 1)) 16) 300"
proof -
  assume n: "1 \<le> n" "n \<le> i64_max"
  have e: "retry_exponent n = min (nat (n - 1)) 16"
    using n by (auto simp: retry_exponent_def saturating_sub_def sat_i64_def i64_min_def i64_max_def)
  define x :: int where "x = 2 ^ min (nat (n - 1)) 16"
  have "x \<le> 2 ^ 16" unfolding x_def by (intro power_increasing) auto
  moreover have "0 \<le> x" by (simp add: x_def)
  ultimately have "saturating_mul 5 x = 5 * x"
    unfolding saturating_mul_def by (intro sat_i64_id) (simp_all add: i64_min_def i64_max_def)
  then show ?thesis unfolding x_def by (simp add: retry_delay_def e RETRY_BASE_SECONDS_def RETRY_MAX_SECONDS_def)
qed

lemma retry_delay_bounds: "1 \<le> n \<Longrightarrow> n \<le> i64_max \<Longrightarrow> 5 \<le> retry_delay n \<and> retry_delay n \<le> 300"
  by (simp add: retry_delay_exact)

lemma retry_delay_mono:
  assumes "1 \<le> m" "m \<le> n" "n \<le> i64_max"
  shows "retry_delay m \<le> retry_delay n"
proof -
  have "min (nat (m - 1)) 16 \<le> min (nat (n - 1)) 16" using assms by auto
  then have "(2::int) ^ min (nat (m - 1)) 16 \<le> 2 ^ min (nat (n - 1)) 16" by (intro power_increasing) auto
  moreover have "retry_delay m = min (5 * 2 ^ min (nat (m - 1)) 16) 300"
    and "retry_delay n = min (5 * 2 ^ min (nat (n - 1)) 16) 300"
    using assms by (simp_all add: retry_delay_exact)
  ultimately show ?thesis by linarith
qed

interpretation due: row_order retry_due_order
  unfolding retry_due_order_def
  by (intro row_order_then_by row_order_linorder row_order_text)

subsection \<open>Which reports are accepted\<close>

lemma progress_accepted_iff:
  "(\<exists>out s'. update_job_progress_internal ts now i u track s = Inr (out, s')) \<longleftrightarrow>
   validate_progress u = Inr () \<and> (\<exists>r. find_job i s = Some r \<and> reporter_owns u r
     \<and> (is_terminal_status (j_status r) \<longrightarrow> j_status r = pu_status u))"
proof (cases "validate_progress u")
  case Inl
  then show ?thesis by (simp add: update_job_progress_internal_def)
next
  case (Inr v)
  show ?thesis
  proof (cases "find_job i s")
    case None
    then show ?thesis using Inr by (simp add: update_job_progress_internal_def get_job_def)
  next
    case (Some r)
    have "find_job i (update_jobs (\<lambda>r. j_id r = i) (set_progress (progress_write_of ts now track r u)) s) =
        Some (after_update r (set_progress (progress_write_of ts now track r u) r))"
      by (rule find_job_update_self [OF Some]) simp
    then show ?thesis
      using Inr Some by (auto simp: update_job_progress_internal_def get_job_def Let_def simp del: update_jobs_sel)
  qed
qed

lemma progress_effect_rows:
  assumes "update_job_progress_internal ts now i u track s = Inr (out, s')" and ok: "jobs_ok s"
  shows "\<exists>r. find_job i s = Some r \<and> po_previous_status out = j_status r \<and> find_job i s' = Some (po_job out)
    \<and> same_identity r (po_job out) \<and> j_status (po_job out) = pu_status u
    \<and> 0 \<le> j_progress (po_job out) \<and> j_progress (po_job out) \<le> 1
    \<and> pct_ok (j_peak_gpu_memory_pct (po_job out)) \<and> peak_le (j_peak_gpu_memory_pct r) (j_peak_gpu_memory_pct (po_job out))
    \<and> (\<forall>k. k \<noteq> i \<longrightarrow> find_job k s' = find_job k s)
    \<and> (if po_applied out then (is_terminal_status (pu_status u) \<longrightarrow> j_completed_at (po_job out) = Some now)
       else s' = s \<and> is_terminal_status (j_status r))"
  using assms(1)
proof (cases rule: progress_Inr)
  case (replayed r)
  have "row_ok r" using ok lookup_row_SomeD [OF replayed(1)] by blast
  moreover have "po_previous_status out = j_status r"
    using assms(1) replayed by (cases out) (auto simp: update_job_progress_internal_def result_bind_Inr get_job_def split: if_splits)
  ultimately show ?thesis
    using replayed by (intro exI [of _ r]) (simp add: same_identity_def row_ok_def row_in_range_def)
next
  case (applied r)
  let ?p = "progress_write_of ts now track r u"
  have rin: "r \<in> set (s_jobs s)" "j_id r = i" using lookup_row_SomeD [OF applied(1)] by auto
  obtain w where "j_worker_id r = Some w"
    using applied(3) by (cases "j_worker_id r") (auto simp: reporter_owns_def)
  then have sql: "job_sql undefined AnyWorker r (after_update r (set_progress ?p r))"
    using applied progress_write_of_ok by (auto intro!: job_sql.progress)
  have "row_ok (po_job out)" unfolding applied(6)
    using row_ok_step [OF _ sql] ok rin by blast
  then have range: "0 \<le> j_progress (po_job out)" "j_progress (po_job out) \<le> 1" "pct_ok (j_peak_gpu_memory_pct (po_job out))"
    by (simp_all add: row_ok_def row_in_range_def)
  have rel: "same_identity r (po_job out)" "peak_le (j_peak_gpu_memory_pct r) (j_peak_gpu_memory_pct (po_job out))"
    using job_sql_identity [OF sql] latched_step [OF sql] by (simp_all add: applied(6) latched_def)
  have jobs: "s_jobs s' = s_jobs (update_jobs (\<lambda>r. j_id r = i) (set_progress ?p) s)" using applied(7) by simp
  have self: "find_job i s' = Some (po_job out)"
    unfolding jobs applied(6) by (rule find_job_update_self [OF applied(1)]) simp
  have other: "find_job k s' = find_job k s" if "k \<noteq> i" for k
    unfolding jobs using that by (intro find_job_update_other) auto
  have fields: "j_status (po_job out) = pu_status u"
    "is_terminal_status (pu_status u) \<Longrightarrow> j_completed_at (po_job out) = Some now"
    by (simp_all add: applied(6) after_update_def set_progress_def progress_write_of_def)
  have "po_previous_status out = j_status r"
    using assms(1) applied by (cases out) (auto simp: update_job_progress_internal_def result_bind_Inr get_job_def Let_def split: if_splits)
  with applied(1,4) range rel self other fields show ?thesis by (intro exI [of _ r]) simp
qed

subsection \<open>Deferred side effects leave the due list and come back\<close>

lemma due_iff:
  "i \<in> set (pending_terminal_progress_side_effect_job_ids_as_of t (length (s_jobs s)) s) \<longleftrightarrow>
   (\<exists>r \<in> set (s_jobs s). j_id r = i \<and> j_side_effects_pending r \<and> is_terminal_status (j_status r)
      \<and> j_side_effects_retry_at r \<le> t)"
  by (auto simp: pending_terminal_progress_side_effect_job_ids_as_of_def take_all)

lemma due_subset:
  "i \<in> set (pending_terminal_progress_side_effect_job_ids_as_of t limit s) \<Longrightarrow>
   \<exists>r \<in> set (s_jobs s). j_id r = i \<and> j_side_effects_pending r \<and> is_terminal_status (j_status r)
      \<and> j_side_effects_retry_at r \<le> t"
  unfolding pending_terminal_progress_side_effect_job_ids_as_of_def
  by (drule in_set_takeD) auto

lemma next_retry_bounds:
  "1 \<le> saturating_add (max c 0) 1" "saturating_add (max c 0) 1 \<le> i64_max"
  using sat_i64_bounds(2) [of "max c 0 + 1"]
  by (auto simp: saturating_add_def sat_i64_def i64_max_def i64_min_def)

lemma defer_Inr:
  assumes ids: "distinct (map j_id (s_jobs s))" and r: "find_job i s = Some r" and "j_side_effects_pending r"
    and n: "i64_min \<le> n" "n + 300 \<le> i64_max"
  obtains k delay s' where "defer_pending_terminal_progress_side_effects n i s = Inr (True, s')"
    "k = saturating_add (max (j_side_effects_retry_count r) 0) 1" "delay = retry_delay k" "5 \<le> delay" "delay \<le> 300"
    "find_job i s' = Some (after_update r (set_deferred k (n + delay) r))"
    "\<forall>j. j \<noteq> i \<longrightarrow> find_job j s' = find_job j s"
proof -
  let ?guard = "\<lambda>r. j_id r = i \<and> j_side_effects_pending r"
  define k where "k = saturating_add (max (j_side_effects_retry_count r) 0) 1"
  define delay where "delay = retry_delay k"
  have d: "5 \<le> delay" "delay \<le> 300"
    using retry_delay_bounds [of k] next_retry_bounds [of "j_side_effects_retry_count r"]
    by (simp_all add: delay_def k_def)
  define s' where "s' = update_jobs ?guard (set_deferred k (n + delay)) s"
  have rin: "r \<in> set (s_jobs s)" "j_id r = i" using lookup_row_SomeD [OF r] by auto
  have found: "find ?guard (s_jobs s) = Some r"
    using find_keyed_row [of j_id "s_jobs s" r j_side_effects_pending] ids rin assms(3) by simp
  have "saturating_add n delay = n + delay"
    unfolding saturating_add_def using n d by (intro sat_i64_id) auto
  moreover have "filter ?guard (s_jobs s) = [r]"
    using filter_keyed_row [of j_id "s_jobs s" r j_side_effects_pending] ids rin assms(3) by simp
  ultimately have "defer_pending_terminal_progress_side_effects n i s = Inr (True, s')"
    unfolding defer_pending_terminal_progress_side_effects_def found
    by (simp add: Let_def k_def [symmetric] delay_def [symmetric] affected_def s'_def)
  moreover have "find_job i s' = Some (after_update r (set_deferred k (n + delay) r))"
    unfolding s'_def using r assms(3) rin(2) by (subst find_job_update_jobs) auto
  moreover have "\<forall>j. j \<noteq> i \<longrightarrow> find_job j s' = find_job j s"
    unfolding s'_def by (auto intro!: find_job_update_other simp del: update_jobs_sel)
  ultimately show thesis using that k_def delay_def d by blast
qed

end
