(* ===== verification/JobMetrics.thy ===== *)
theory JobMetrics
  imports JobLifecycle
begin

text \<open>
  Generation metrics and retention: the merging upsert a worker's report runs, the feed of
  the comparison charts, and the purge that removes old finished jobs after moving their
  metrics into the history table. SQLite's \<open>datetime\<close> is an argument of the purge.
\<close>

subsection \<open>Upsert\<close>

definition merge_metrics :: "(metric_column \<Rightarrow> json option) \<Rightarrow> (metric_column \<Rightarrow> json option) \<Rightarrow> metric_column \<Rightarrow> json option" where
  "merge_metrics incoming existing c = coalesce (incoming c) (existing c)"

definition upsert_generation_metrics ::
  "string \<Rightarrow> string \<Rightarrow> (metric_column \<Rightarrow> json option) \<Rightarrow> jobs_store \<Rightarrow> jobs_store" where
  "upsert_generation_metrics now job_id values s =
     (case lookup_row m_job_id job_id (s_metrics s) of
        None \<Rightarrow> s\<lparr> s_metrics := s_metrics s @ [\<lparr> m_job_id = job_id, m_values = values, m_updated_at = now \<rparr>] \<rparr>
      | Some _ \<Rightarrow> s\<lparr> s_metrics := sql_update (\<lambda>m. m_job_id m = job_id)
          (\<lambda>m. m\<lparr> m_values := merge_metrics values (m_values m), m_updated_at := now \<rparr>) (s_metrics s) \<rparr>)"

definition get_generation_metrics :: "string \<Rightarrow> jobs_store \<Rightarrow> metrics_row option" where
  "get_generation_metrics job_id s = lookup_row m_job_id job_id (s_metrics s)"

lemma upsert_lookup:
  "get_generation_metrics job_id (upsert_generation_metrics now job_id values s) =
   Some \<lparr> m_job_id = job_id,
     m_values = (case get_generation_metrics job_id s of None \<Rightarrow> values | Some m \<Rightarrow> merge_metrics values (m_values m)),
     m_updated_at = now \<rparr>"
proof (cases "lookup_row m_job_id job_id (s_metrics s)")
  case None
  then show ?thesis by (simp add: get_generation_metrics_def upsert_generation_metrics_def lookup_row_append)
next
  case (Some m)
  then have id: "m_job_id m = job_id" using lookup_row_SomeD by fast
  have "get_generation_metrics job_id (upsert_generation_metrics now job_id values s) =
      Some (m\<lparr> m_values := merge_metrics values (m_values m), m_updated_at := now \<rparr>)"
    unfolding get_generation_metrics_def upsert_generation_metrics_def Some
    by (simp add: lookup_row_sql_update Some id)
  also have "m\<lparr> m_values := merge_metrics values (m_values m), m_updated_at := now \<rparr> =
      \<lparr> m_job_id = job_id, m_values = merge_metrics values (m_values m), m_updated_at = now \<rparr>"
    using id by (cases m) simp
  finally show ?thesis by (simp add: get_generation_metrics_def Some)
qed

lemma upsert_other:
  "k \<noteq> job_id \<Longrightarrow>
   get_generation_metrics k (upsert_generation_metrics now job_id values s) = get_generation_metrics k s"
proof (cases "lookup_row m_job_id job_id (s_metrics s)")
  case None
  assume "k \<noteq> job_id"
  with None show ?thesis
    by (simp add: get_generation_metrics_def upsert_generation_metrics_def lookup_row_append split: option.split)
next
  case (Some m)
  assume k: "k \<noteq> job_id"
  have "m_job_id x \<noteq> job_id" if "lookup_row m_job_id k (s_metrics s) = Some x" for x
    using that k by (auto dest: lookup_row_SomeD)
  with Some show ?thesis
    by (cases "lookup_row m_job_id k (s_metrics s)")
      (simp_all add: get_generation_metrics_def upsert_generation_metrics_def lookup_row_sql_update)
qed

lemma upsert_sel [simp]:
  "s_jobs (upsert_generation_metrics now job_id values s) = s_jobs s"
  "s_workers (upsert_generation_metrics now job_id values s) = s_workers s"
  by (simp_all add: upsert_generation_metrics_def split: option.split)

subsection \<open>The statistics feed\<close>

definition history_of :: "metrics_row \<Rightarrow> job_row \<Rightarrow> history_row" where
  "history_of m r = \<lparr> h_metrics = m, h_type = j_type r, h_status = j_status r,
     h_project_id = j_project_id r, h_created_at = j_created_at r \<rparr>"

text \<open>\<open>generation_metrics m join jobs j on j.id = m.job_id where P j\<close>\<close>

definition join_metrics :: "(job_row \<Rightarrow> bool) \<Rightarrow> jobs_store \<Rightarrow> history_row list" where
  "join_metrics P s = concat (map (\<lambda>m. case find_job (m_job_id m) s of
       None \<Rightarrow> [] | Some r \<Rightarrow> if P r then [history_of m r] else []) (s_metrics s))"

definition stats_feed :: "jobs_store \<Rightarrow> history_row list" where
  "stats_feed s = join_metrics (\<lambda>_. True) s @ s_history s"

definition matches :: "string option \<Rightarrow> string option \<Rightarrow> bool" where
  "matches wanted value \<longleftrightarrow> (case wanted of None \<Rightarrow> True | Some w \<Rightarrow> value = Some w)"

definition list_generation_metrics ::
  "string option \<Rightarrow> string option \<Rightarrow> string option \<Rightarrow> nat \<Rightarrow> jobs_store \<Rightarrow> history_row list" where
  "list_generation_metrics job_type model quant_label limit s =
     take (clamp 1 5000 limit) (order_by (\<lambda>a b. text_less (h_created_at b) (h_created_at a))
       (filter (\<lambda>h. matches job_type (Some (job_type_str (h_type h)))
          \<and> matches model (Option.bind (m_values (h_metrics h) MModel) as_str)
          \<and> matches quant_label (Option.bind (m_values (h_metrics h) MQuantLabel) as_str)) (stats_feed s)))"

subsection \<open>Retention\<close>

definition purgeable :: "(string \<Rightarrow> string option) \<Rightarrow> string \<Rightarrow> job_row \<Rightarrow> bool" where
  "purgeable datetime cutoff r \<longleftrightarrow> is_terminal_status (j_status r)
     \<and> (case Option.bind (j_completed_at r) datetime of
          None \<Rightarrow> False
        | Some t \<Rightarrow> (case datetime cutoff of None \<Rightarrow> False | Some c \<Rightarrow> text_less t c))"

definition insert_or_replace :: "history_row \<Rightarrow> history_row list \<Rightarrow> history_row list" where
  "insert_or_replace h hs = filter (\<lambda>x. m_job_id (h_metrics x) \<noteq> m_job_id (h_metrics h)) hs @ [h]"

definition purge_terminal_jobs_completed_before ::
  "(string \<Rightarrow> string option) \<Rightarrow> string \<Rightarrow> jobs_store \<Rightarrow> (nat \<times> jobs_store) jobs_result" where
  "purge_terminal_jobs_completed_before datetime cutoff s =
     (let doomed = purgeable datetime cutoff;
          history = fold insert_or_replace (join_metrics doomed s) (s_history s);
          metrics = filter (\<lambda>m. m_job_id m \<notin> j_id ` set (filter doomed (s_jobs s))) (s_metrics s);
          metrics = filter (\<lambda>m. m_job_id m \<in> j_id ` set (s_jobs s)) metrics
      in Inr (length (filter doomed (s_jobs s)),
              s\<lparr> s_jobs := filter (\<lambda>r. \<not> doomed r) (s_jobs s), s_metrics := metrics, s_history := history \<rparr>))"

definition purge_terminal_jobs_older_than ::
  "(string \<Rightarrow> string option) \<Rightarrow> int \<Rightarrow> nat \<Rightarrow> jobs_store \<Rightarrow> (nat \<times> jobs_store) jobs_result" where
  "purge_terminal_jobs_older_than datetime now_seconds retention_days s =
     (if retention_days = 0 then Inr (0, s)
      else purge_terminal_jobs_completed_before datetime
             (format_unix_seconds (now_seconds - int retention_days * 86400)) s)"

lemma purge_table_step:
  assumes "purge_terminal_jobs_completed_before datetime cutoff s = Inr (n, s')"
  shows "table_step pol ww (s_jobs s) (s_jobs s')"
proof -
  from assms have "s_jobs s' = filter (\<lambda>r. \<not> purgeable datetime cutoff r) (s_jobs s)"
    by (auto simp: purge_terminal_jobs_completed_before_def Let_def)
  moreover have "table_step pol ww (s_jobs s) (filter (\<lambda>r. \<not> purgeable datetime cutoff r) (s_jobs s))"
    by (rule table_step.purge) (simp add: purgeable_def)
  ultimately show ?thesis by simp
qed

text \<open>Rows of the same table have distinct ids, so no history row of the purge replaces another.\<close>

lemma insert_or_replace_keeps:
  "x \<in> set hs \<Longrightarrow> m_job_id (h_metrics x) \<noteq> m_job_id (h_metrics h) \<or> x = h \<Longrightarrow> x \<in> set (insert_or_replace h hs)"
  by (auto simp: insert_or_replace_def)

lemma fold_insert_keeps:
  "\<forall>h \<in> set new. m_job_id (h_metrics x) \<noteq> m_job_id (h_metrics h) \<or> x = h \<Longrightarrow>
   x \<in> set hs \<or> x \<in> set new \<Longrightarrow> x \<in> set (fold insert_or_replace new hs)"
proof (induction new arbitrary: hs)
  case (Cons h new)
  have "x \<in> set (insert_or_replace h hs) \<or> x \<in> set new"
  proof (cases "x = h")
    case True
    then show ?thesis by (simp add: insert_or_replace_def)
  next
    case False
    with Cons.prems show ?thesis using insert_or_replace_keeps by auto
  qed
  then show ?case using Cons.IH Cons.prems(1) by simp
qed simp

lemma join_metrics_iff:
  "h \<in> set (join_metrics P s) \<longleftrightarrow>
   (\<exists>m \<in> set (s_metrics s). \<exists>r. find_job (m_job_id m) s = Some r \<and> P r \<and> h = history_of m r)"
proof -
  have "h \<in> set (case x of None \<Rightarrow> [] | Some r \<Rightarrow> if P r then [history_of m r] else []) \<longleftrightarrow>
      (\<exists>r. x = Some r \<and> P r \<and> h = history_of m r)" for x m
    by (cases x) auto
  then show ?thesis by (simp add: join_metrics_def)
qed

lemma join_metrics_unique:
  assumes "distinct (map m_job_id (s_metrics s))" "h \<in> set (join_metrics P s)" "h' \<in> set (join_metrics P s)"
    and "m_job_id (h_metrics h) = m_job_id (h_metrics h')"
  shows "h = h'"
proof -
  from assms(2) obtain m r where m: "m \<in> set (s_metrics s)" "find_job (m_job_id m) s = Some r" "h = history_of m r"
    by (auto simp: join_metrics_iff)
  from assms(3) obtain m' r' where m': "m' \<in> set (s_metrics s)" "find_job (m_job_id m') s = Some r'" "h' = history_of m' r'"
    by (auto simp: join_metrics_iff)
  from m m' assms(4) have "m_job_id m = m_job_id m'" by (simp add: history_of_def)
  with m m' assms(1) have "m = m'" by (metis lookup_row_member option.inject)
  with m m' show ?thesis by simp
qed

lemma purge_keeps_joined:
  assumes p: "purge_terminal_jobs_completed_before datetime cutoff s = Inr (n, s')"
    and md: "distinct (map m_job_id (s_metrics s))" and jd: "distinct (map j_id (s_jobs s))"
    and h: "h \<in> set (join_metrics (\<lambda>_. True) s)"
  shows "h \<in> set (stats_feed s')"
proof -
  let ?doomed = "purgeable datetime cutoff"
  from p have jobs: "s_jobs s' = filter (\<lambda>r. \<not> ?doomed r) (s_jobs s)"
    and metrics: "set (s_metrics s') = {m \<in> set (s_metrics s).
      m_job_id m \<notin> j_id ` set (filter ?doomed (s_jobs s)) \<and> m_job_id m \<in> j_id ` set (s_jobs s)}"
    and hist: "s_history s' = fold insert_or_replace (join_metrics ?doomed s) (s_history s)"
    by (auto simp: purge_terminal_jobs_completed_before_def Let_def)
  from h obtain m r where m: "m \<in> set (s_metrics s)" and r: "find_job (m_job_id m) s = Some r"
    and hr: "h = history_of m r" by (auto simp: join_metrics_iff)
  have rin: "r \<in> set (s_jobs s)" "j_id r = m_job_id m" using lookup_row_SomeD [OF r] by auto
  show ?thesis
  proof (cases "?doomed r")
    case True
    with m r hr have mem: "h \<in> set (join_metrics ?doomed s)" by (auto simp: join_metrics_iff)
    have "\<forall>x \<in> set (join_metrics ?doomed s). m_job_id (h_metrics h) \<noteq> m_job_id (h_metrics x) \<or> h = x"
      using join_metrics_unique [OF md mem] by blast
    from fold_insert_keeps [OF this disjI2 [OF mem]] have "h \<in> set (s_history s')"
      unfolding hist .
    then show ?thesis by (simp add: stats_feed_def)
  next
    case False
    have "m_job_id m \<notin> j_id ` set (filter ?doomed (s_jobs s))"
      using find_job_unique [OF jd r] False by force
    moreover have "m_job_id m \<in> j_id ` set (s_jobs s)" using rin by force
    ultimately have "m \<in> set (s_metrics s')" using m by (simp add: metrics)
    moreover have "r \<in> set (s_jobs s')" using rin False by (simp add: jobs)
    then have "find_job (m_job_id m) s' = Some r"
      using jd rin(2) lookup_row_member [of j_id "s_jobs s'" r] by (simp add: jobs distinct_map_filter)
    ultimately have "h \<in> set (join_metrics (\<lambda>_. True) s')" using hr by (auto simp: join_metrics_iff)
    then show ?thesis by (simp add: stats_feed_def)
  qed
qed

end
