(* ===== verification/JobQueries.thy ===== *)
theory JobQueries
  imports JobWorkers
begin

text \<open>
  The reads of the jobs store: the queue listings, the reconnect reads, the in-flight
  lookups that keep a client from stacking duplicate jobs, the startup scans and the
  queue summary. None of them takes the write lock or changes the store.
\<close>

definition MAX_LISTED_JOBS :: nat where
  "MAX_LISTED_JOBS = 1000"

definition list_jobs :: "string option \<Rightarrow> string option \<Rightarrow> nat \<Rightarrow> jobs_store \<Rightarrow> job_row list" where
  "list_jobs project_id status limit s =
     take (clamp 1 MAX_LISTED_JOBS limit) (order_by newest_first
       (filter (\<lambda>r. j_cleared_at r = None \<and> in_project project_id r
          \<and> (case status of None \<Rightarrow> True | Some st \<Rightarrow> job_status_str (j_status r) = st)) (s_jobs s)))"

definition recently_updated_first :: "job_row \<Rightarrow> job_row \<Rightarrow> bool" where
  "recently_updated_first = then_by (\<lambda>a b. text_less (j_updated_at b) (j_updated_at a)) (\<lambda>a b. text_less (j_id b) (j_id a))"

definition list_jobs_recently_updated :: "nat \<Rightarrow> jobs_store \<Rightarrow> job_row list" where
  "list_jobs_recently_updated limit s =
     take (clamp 1 MAX_LISTED_JOBS limit) (order_by recently_updated_first
       (filter (\<lambda>r. j_cleared_at r = None) (s_jobs s)))"

definition list_existing_jobs_by_ids :: "string list \<Rightarrow> jobs_store \<Rightarrow> job_row list" where
  "list_existing_jobs_by_ids ids s =
     concat (map (\<lambda>i. case find_job i s of
       None \<Rightarrow> [] | Some r \<Rightarrow> if j_cleared_at r = None then [r] else []) ids)"

definition cleared_job_ids_by_ids :: "string list \<Rightarrow> jobs_store \<Rightarrow> string list" where
  "cleared_job_ids_by_ids ids s =
     concat (map (\<lambda>i. case find_job i s of
       None \<Rightarrow> [] | Some r \<Rightarrow> if j_cleared_at r \<noteq> None then [j_id r] else []) ids)"

definition find_reusable_prompt_refine_job :: "string \<Rightarrow> string \<Rightarrow> jobs_store \<Rightarrow> job_row option" where
  "find_reusable_prompt_refine_job prompt aspect_ratio s =
     find (\<lambda>r. get_str (j_payload r) ''task'' = Some ''magic_prompt''
         \<and> get_str (j_payload r) ''prompt'' = Some prompt
         \<and> get_str (j_payload r) ''aspectRatio'' = Some aspect_ratio)
       (order_by newest_first (filter (\<lambda>r. j_type r = PromptRefine \<and> \<not> is_terminal_status (j_status r)) (s_jobs s)))"

definition find_active_model_download_job :: "string \<Rightarrow> jobs_store \<Rightarrow> job_row option" where
  "find_active_model_download_job model_id s =
     find (\<lambda>r. get_str (j_payload r) ''modelId'' = Some model_id)
       (order_by newest_first (filter (\<lambda>r. j_type r = ModelDownload \<and> \<not> is_terminal_status (j_status r)) (s_jobs s)))"

text \<open>\<open>json_extract(..., '$.uploadedSourcePath') = 1\<close> holds of \<open>true\<close> and of the number 1.\<close>

definition model_upload_sources_for_recovery :: "jobs_store \<Rightarrow> string list" where
  "model_upload_sources_for_recovery s =
     concat (map (\<lambda>r. case get_str (j_payload r) ''sourcePath'' of None \<Rightarrow> [] | Some path \<Rightarrow> [path])
       (filter (\<lambda>r. j_type r = ModelImport \<and> j_status r \<noteq> Completed \<and> j_cleared_at r = None
          \<and> fmlookup (j_payload r) ''uploadedSourcePath'' \<in> {Some (JBool True), Some (JInt 1), Some (JFloat 1)})
        (s_jobs s)))"

definition list_vector_prompt_workflow_jobs_for_recovery :: "jobs_store \<Rightarrow> job_row list" where
  "list_vector_prompt_workflow_jobs_for_recovery s =
     order_by (then_by oldest_first (\<lambda>a b. text_less (j_id a) (j_id b)))
       (filter (\<lambda>r. Option.bind (Option.bind (fmlookup (j_payload r) ''workflow'') (json_get ''kind'')) as_str
            = Some ''create_from_prompt'' \<and> j_status r \<noteq> Completed) (s_jobs s))"

definition list_workers :: "jobs_store \<Rightarrow> worker_row list" where
  "list_workers s = order_by worker_order (s_workers s)"

text \<open>
  The counts are seeded with every known status and accumulate the grouped rows; a count
  beyond \<open>u32\<close> saturates before it is added.
\<close>

definition status_count :: "jobs_store \<Rightarrow> job_status \<Rightarrow> nat" where
  "status_count s status = length (filter (\<lambda>r. j_cleared_at r = None \<and> j_status r = status) (s_jobs s))"

definition queue_counts :: "jobs_store \<Rightarrow> job_status \<Rightarrow> nat option" where
  "queue_counts s status =
     (if status \<in> set known_job_status \<or> status_count s status \<noteq> 0
      then Some (min (status_count s status) (2 ^ 32 - 1)) else None)"

record queue_summary_view =
  qs_counts :: "job_status \<Rightarrow> nat option"
  qs_active_jobs :: "job_row list"
  qs_workers :: "worker_row list"
  qs_max_job_attempts :: int

definition queue_summary :: "jobs_store \<Rightarrow> queue_summary_view" where
  "queue_summary s = \<lparr>
     qs_counts = queue_counts s,
     qs_active_jobs = order_by newest_first (filter (\<lambda>r. \<not> is_terminal_status (j_status r)) (s_jobs s)),
     qs_workers = list_workers s,
     qs_max_job_attempts = MAX_JOB_ATTEMPTS \<rparr>"

text \<open>The time a job has run, as the snapshots report it.\<close>

definition elapsed_seconds :: "int \<Rightarrow> string \<Rightarrow> string option \<Rightarrow> int option" where
  "elapsed_seconds now_seconds started_at completed_at =
     Option.bind (parse_utc_seconds started_at) (\<lambda>started.
       Option.bind (case completed_at of None \<Rightarrow> Some now_seconds | Some t \<Rightarrow> parse_utc_seconds t) (\<lambda>ended.
         Some (max (saturating_sub ended started) 0)))"

subsection \<open>What the listings show\<close>

lemma list_jobs_member:
  "r \<in> set (list_jobs project_id status limit s) \<Longrightarrow> r \<in> set (s_jobs s) \<and> j_cleared_at r = None \<and> in_project project_id r"
  by (auto simp: list_jobs_def dest: in_set_takeD)

lemma list_jobs_length: "length (list_jobs project_id status limit s) \<le> MAX_LISTED_JOBS"
  using clamp_bounds [of 1 MAX_LISTED_JOBS limit] by (auto simp: list_jobs_def MAX_LISTED_JOBS_def)

lemma list_jobs_sorted: "sorted_wrt (\<lambda>a b. \<not> text_less (j_created_at a) (j_created_at b)) (list_jobs project_id status limit s)"
proof -
  have "sorted_wrt (\<lambda>a b. \<not> newest_first b a) (list_jobs project_id status limit s)"
    unfolding list_jobs_def by (intro sorted_wrt_take newest.sorted_order_by)
  then show ?thesis by (simp add: newest_first_def)
qed

text \<open>Nothing newer is left out: a visible matching job that is not listed is no newer than any listed one.\<close>

lemma list_jobs_newest:
  assumes "r \<in> set (s_jobs s)" "j_cleared_at r = None" "in_project project_id r"
    and "case status of None \<Rightarrow> True | Some st \<Rightarrow> job_status_str (j_status r) = st"
    and "r \<notin> set (list_jobs project_id status limit s)" and "x \<in> set (list_jobs project_id status limit s)"
  shows "\<not> text_less (j_created_at x) (j_created_at r)"
proof -
  let ?all = "order_by newest_first (filter (\<lambda>r. j_cleared_at r = None \<and> in_project project_id r
    \<and> (case status of None \<Rightarrow> True | Some st \<Rightarrow> job_status_str (j_status r) = st)) (s_jobs s))"
  let ?n = "clamp 1 MAX_LISTED_JOBS limit"
  have "r \<in> set ?all" using assms(1-4) by simp
  then have "r \<in> set (take ?n ?all @ drop ?n ?all)" by (simp only: append_take_drop_id)
  then have "r \<in> set (take ?n ?all) \<or> r \<in> set (drop ?n ?all)" unfolding set_append by (rule UnE) blast+
  then have "r \<in> set (drop ?n ?all)" using assms(5) unfolding list_jobs_def by blast
  moreover have "sorted_wrt (\<lambda>a b. \<not> newest_first b a) (take ?n ?all @ drop ?n ?all)"
    by (simp only: append_take_drop_id newest.sorted_order_by)
  ultimately have "\<not> newest_first r x"
    using assms(6) unfolding sorted_wrt_append list_jobs_def by blast
  then show ?thesis by (simp add: newest_first_def)
qed

lemma queue_counts_total:
  "\<forall>r \<in> set (s_jobs s). j_status r \<in> set known_job_status \<Longrightarrow>
   sum_list (map (status_count s) known_job_status) = length (filter (\<lambda>r. j_cleared_at r = None) (s_jobs s))"
proof (induction "s_jobs s" arbitrary: s)
  case Nil
  then show ?case by (simp add: status_count_def known_job_status_def)
next
  case (Cons r t)
  let ?s = "s\<lparr> s_jobs := t \<rparr>"
  have one: "sum_list (map (\<lambda>st. if j_status r = st then 1 else 0) known_job_status) = (1::nat)"
    using Cons.prems Cons.hyps(2) [symmetric] by (auto simp: known_job_status_def)
  have split: "status_count s st = (if j_cleared_at r = None then (if j_status r = st then 1 else 0) else 0) + status_count ?s st" for st
    by (simp add: status_count_def Cons.hyps(2) [symmetric])
  have "sum_list (map (status_count s) known_job_status) =
      (if j_cleared_at r = None then 1 else 0) + sum_list (map (status_count ?s) known_job_status)"
    using one by (simp add: split [abs_def] sum_list_addf)
  also have "sum_list (map (status_count ?s) known_job_status) = length (filter (\<lambda>r. j_cleared_at r = None) t)"
    using Cons.hyps(1) [of ?s] Cons.prems Cons.hyps(2) [symmetric] by simp
  finally show ?case by (simp add: Cons.hyps(2) [symmetric])
qed

end
