(* ===== verification/JobMachine.thy ===== *)
theory JobMachine
  imports JobClaim JobProgress JobMetrics JobQueries
begin

text \<open>
  The jobs store as a state machine: one rule per mutating operation that succeeds, in any
  order and with any arguments; an operation that fails leaves the store as it was. The
  writers are serialized by the store's mutex and each runs in one immediate transaction
  (\<open>promote_pending_workflow_job\<close> in two, which are two rules). The invariants of the table
  are carried from the statements to all reachable stores.
\<close>

inductive api_step :: "routing_policy \<Rightarrow> jobs_store \<Rightarrow> jobs_store \<Rightarrow> bool" for pol where
  create: "create_job_with_download_binding pol now hex request provenance binding s = Inr (job, s') \<Longrightarrow> api_step pol s s'"
| create_with_id: "create_job_with_id pol now i request s = Inr (job, s') \<Longrightarrow> api_step pol s s'"
| retry: "retry_job_with_download_binding pol now hex i changes provenance binding s = Inr (job, s') \<Longrightarrow> api_step pol s s'"
| duplicate: "duplicate_job_with_download_binding pol now hex run_hex new_id i changes gpu provenance binding s
    = Inr (job, s') \<Longrightarrow> api_step pol s s'"
| promote_caption: "promote_pending_caption_job pol now i payload s = Inr (out, s') \<Longrightarrow> api_step pol s s'"
| workflow_payload: "update_pending_workflow_payload pol now i pl s = Inr (out, s') \<Longrightarrow> api_step pol s s'"
| workflow_enqueue: "enqueue_pending_workflow_job now i s = Inr (out, s') \<Longrightarrow> api_step pol s s'"
| workflow_terminate: "terminate_pending_workflow_job now i status message error s = Inr (out, s') \<Longrightarrow> api_step pol s s'"
| cancel: "cancel_job now i s = Inr (job, s') \<Longrightarrow> api_step pol s s'"
| cancel_pending: "cancel_pending_jobs now project s = Inr (jobs, s') \<Longrightarrow> api_step pol s s'"
| prioritize: "prioritize_jobs now ids s = Inr (jobs, s') \<Longrightarrow> api_step pol s s'"
| clear_terminal: "clear_terminal_jobs now project s = Inr (ids, s') \<Longrightarrow> api_step pol s s'"
| clear_one: "clear_job now i s = Inr (job, s') \<Longrightarrow> api_step pol s s'"
| initialize: "api_step pol s (backfill_claim_routing_facts pol s)"
| startup: "mark_interrupted_on_startup now s = Inr (jobs, s') \<Longrightarrow> api_step pol s s'"
| register: "register_worker now registration s = Inr (w, s') \<Longrightarrow> api_step pol s s'"
| heartbeat: "heartbeat_worker now report s = Inr (beat, s') \<Longrightarrow> api_step pol s s'"
| stale: "mark_stale_workers_interrupted n timeout s = Inr (swept, s') \<Longrightarrow> api_step pol s s'"
| terminated: "fail_worker_job_terminated now wid sig code s = Inr (failed, s') \<Longrightarrow> api_step pol s s'"
| stranded_mlx: "fail_stranded_mlx_jobs pol n req timeout s = Inr (jobs, s') \<Longrightarrow> api_step pol s s'"
| stranded_candle: "fail_stranded_candle_jobs pol n req timeout s = Inr (jobs, s') \<Longrightarrow> api_step pol s s'"
| unreachable: "fail_platform_unreachable_jobs pol n os s = Inr (jobs, s') \<Longrightarrow> api_step pol s s'"
| unsupported_mlx: "fail_unsupported_mlx_jobs pol n req enforce s = Inr (pairs, s') \<Longrightarrow> api_step pol s s'"
| unsupported_candle: "fail_unsupported_candle_jobs pol n req enforce s = Inr (pairs, s') \<Longrightarrow> api_step pol s s'"
| defer_effects: "defer_pending_terminal_progress_side_effects n i s = Inr (changed, s') \<Longrightarrow> api_step pol s s'"
| replace_result: "replace_job_result_after_progress now i owner status expected result clear s = Inr (job, s') \<Longrightarrow> api_step pol s s'"
| metrics: "api_step pol s (upsert_generation_metrics now i values s)"

text \<open>
  The steps a worker takes. \<open>protocol\<close> restricts the reports to the statuses the worker
  runtime sends while it owns a job, worker-side and terminal ones; the store accepts more.
\<close>

inductive worker_step :: "routing_policy \<Rightarrow> bool \<Rightarrow> jobs_store \<Rightarrow> jobs_store \<Rightarrow> bool" for pol protocol where
  claim: "claim_next_job_routed pol now wid mlx_required s = Inr (out, s') \<Longrightarrow> worker_step pol protocol s s'"
| progress: "update_job_progress_internal ts now i u track s = Inr (outcome, s') \<Longrightarrow>
    (protocol \<Longrightarrow> \<not> is_pending_status (pu_status u)) \<Longrightarrow> worker_step pol protocol s s'"

inductive store_step :: "routing_policy \<Rightarrow> bool \<Rightarrow> jobs_store \<Rightarrow> jobs_store \<Rightarrow> bool" for pol protocol where
  api: "api_step pol s s' \<Longrightarrow> store_step pol protocol s s'"
| worker: "worker_step pol protocol s s' \<Longrightarrow> store_step pol protocol s s'"

text \<open>Runs with and without the retention purge.\<close>

inductive reachable :: "routing_policy \<Rightarrow> bool \<Rightarrow> jobs_store \<Rightarrow> bool" for pol protocol where
  start: "s_jobs s = [] \<Longrightarrow> s_workers s = [] \<Longrightarrow> s_metrics s = [] \<Longrightarrow> reachable pol protocol s"
| step: "reachable pol protocol s \<Longrightarrow> store_step pol protocol s s' \<Longrightarrow> reachable pol protocol s'"
| purge: "reachable pol protocol s \<Longrightarrow> purge_terminal_jobs_completed_before datetime cutoff s = Inr (n, s') \<Longrightarrow>
    reachable pol protocol s'"

abbreviation store_steps :: "routing_policy \<Rightarrow> bool \<Rightarrow> jobs_store \<Rightarrow> jobs_store \<Rightarrow> bool" where
  "store_steps pol protocol \<equiv> (store_step pol protocol)\<^sup>*\<^sup>*"

subsection \<open>Steps of the machine are steps of the table\<close>

definition writers_of :: "bool \<Rightarrow> writers" where
  "writers_of protocol = (if protocol then Disciplined else AnyWorker)"

lemma writers_of_simps [simp]: "writers_of protocol \<noteq> ApiOnly" "writers_of protocol = Disciplined \<longleftrightarrow> protocol"
  by (simp_all add: writers_of_def)

abbreviation table_ok :: "jobs_store \<Rightarrow> bool" where
  "table_ok s \<equiv> jobs_ok s \<and> distinct (map j_id (s_jobs s))"

lemmas api_operations_live = create_job_live create_job_with_id_live retry_job_live duplicate_job_live
  promote_pending_caption_live update_pending_workflow_payload_live enqueue_pending_workflow_live
  terminate_pending_workflow_live cancel_job_live cancel_pending_live prioritize_live
  clear_terminal_live clear_job_live startup_live heartbeat_live mark_stale_live fail_terminated_live
  fail_sweeps_live defer_live replace_result_live

lemma api_step_live:
  "api_step pol s s' \<Longrightarrow> table_ok s \<Longrightarrow> live_steps pol ww (s_jobs s) (s_jobs s')"
proof (induction rule: api_step.induct)
  case (initialize s)
  then show ?case by (intro backfill_live) simp
next
  case (register now registration s w s')
  then show ?case by (simp add: register_worker_jobs)
next
  case (metrics s now i vs)
  then show ?case by simp
qed ((elim conjE, erule api_operations_live, assumption?, assumption?)+)

lemma worker_step_live:
  "worker_step pol protocol s s' \<Longrightarrow> table_ok s \<Longrightarrow> live_steps pol (writers_of protocol) (s_jobs s) (s_jobs s')"
proof (induction rule: worker_step.induct)
  case (claim now wid mlx_required s out s')
  then show ?case by (cases out) (auto intro: claim_live)
next
  case (progress ts now i u track s outcome s')
  then show ?case by (auto intro: progress_live)
qed

lemma store_step_live:
  "store_step pol protocol s s' \<Longrightarrow> table_ok s \<Longrightarrow> live_steps pol (writers_of protocol) (s_jobs s) (s_jobs s')"
  by (induction rule: store_step.induct) (auto intro: api_step_live worker_step_live)

lemma table_steps_ok:
  assumes "table_steps pol ww (s_jobs s) (s_jobs s')" and "table_ok s"
  shows "table_ok s'"
  using assms rows.preserves [OF assms(1)] table_steps_ids [OF assms(1)] by blast

lemma store_step_ok: "store_step pol protocol s s' \<Longrightarrow> table_ok s \<Longrightarrow> table_ok s'"
  using store_step_live live_steps_table_steps table_steps_ok by metis

lemma store_steps_live:
  assumes "store_steps pol protocol s s'" and "table_ok s"
  shows "live_steps pol (writers_of protocol) (s_jobs s) (s_jobs s') \<and> table_ok s'"
  using assms(1)
proof (induction rule: rtranclp_induct)
  case (step s' s'')
  then show ?case using store_step_live store_step_ok by (meson rtranclp_trans)
qed (use assms(2) in simp)

lemma reachable_table:
  "reachable pol protocol s \<Longrightarrow> table_steps pol (writers_of protocol) [] (s_jobs s) \<and> table_ok s"
proof (induction rule: reachable.induct)
  case (step s s')
  then show ?case
    using store_step_live [OF step.hyps(2)] store_step_ok [OF step.hyps(2)] live_steps_table_steps
    by (meson rtranclp_trans)
next
  case (purge s datetime cutoff n s')
  then have "table_steps pol (writers_of protocol) (s_jobs s) (s_jobs s')" by (blast intro: purge_table_step)
  with purge table_steps_ok show ?case by (meson rtranclp_trans)
qed simp

end
