(* ===== verification/JobSpec.thy ===== *)
theory JobSpec
  imports JobMachine
begin

text \<open>
  The abstract specification of the queue and the proof that the store implements it. A
  client of the queue sees, per job id, nothing, a job that waits, a job that a worker
  holds, or a job that has finished; the specification says which of these may follow which.
  The statuses, revisions, projections, merges and multi-row updates of the store are
  details below it. The second half is the device discipline: in every run with workers
  that follow the protocol, a device runs at most one GPU job.
\<close>

subsection \<open>The specification\<close>

datatype phase = Waiting | Held "string option" | Finished job_status

inductive phase_step :: "phase \<Rightarrow> phase \<Rightarrow> bool" where
  start: "phase_step Waiting (Held (Some worker))"
| stop: "phase_step (Held worker) (Finished status)"
| withdraw: "status \<noteq> Completed \<Longrightarrow> phase_step Waiting (Finished status)"

inductive_simps phase_step_simps [simp]:
  "phase_step Waiting p" "phase_step (Held w) p" "phase_step (Finished st) p"

abbreviation phase_steps :: "phase \<Rightarrow> phase \<Rightarrow> bool" where
  "phase_steps \<equiv> phase_step\<^sup>*\<^sup>*"

definition phase_of :: "job_row \<Rightarrow> phase" where
  "phase_of r = (if is_terminal_status (j_status r) then Finished (j_status r)
                 else if is_pending_status (j_status r) then Waiting else Held (j_worker_id r))"

definition queue_view :: "jobs_store \<Rightarrow> string \<Rightarrow> phase option" where
  "queue_view s i = map_option phase_of (find_job i s)"

text \<open>A job appears waiting, and then only its phase moves.\<close>

inductive view_step :: "phase option \<Rightarrow> phase option \<Rightarrow> bool" where
  submit: "view_step None (Some Waiting)"
| move: "phase_step p p' \<Longrightarrow> view_step (Some p) (Some p')"

abbreviation view_steps :: "phase option \<Rightarrow> phase option \<Rightarrow> bool" where
  "view_steps \<equiv> view_step\<^sup>*\<^sup>*"

lemma phase_steps_view: "phase_steps p p' \<Longrightarrow> view_steps (Some p) (Some p')"
  by (induction rule: rtranclp_induct) (auto intro: view_step.move rtranclp.rtrancl_into_rtrancl)

text \<open>A finished job stays as it is and a held one is never handed to another worker.\<close>

lemma finished_final: "phase_steps (Finished st) p \<longleftrightarrow> p = Finished st"
  by (auto elim: converse_rtranclpE)

lemma held_final: "phase_steps (Held w) p \<longleftrightarrow> p = Held w \<or> (\<exists>st. p = Finished st)"
proof
  assume "phase_steps (Held w) p"
  then show "p = Held w \<or> (\<exists>st. p = Finished st)"
    by (induction rule: rtranclp_induct) auto
qed (auto intro: r_into_rtranclp)

subsection \<open>Every statement of a disciplined run implements it\<close>

definition phase_advances :: "job_row \<Rightarrow> job_row \<Rightarrow> bool" where
  "phase_advances r r' \<longleftrightarrow>
     (waiting_unowned r \<longrightarrow> waiting_unowned r' \<and> phase_steps (phase_of r) (phase_of r'))"

lemma phase_of_simps:
  "is_terminal_status (j_status r) \<Longrightarrow> phase_of r = Finished (j_status r)"
  "is_pending_status (j_status r) \<Longrightarrow> phase_of r = Waiting"
  "is_active_status (j_status r) \<Longrightarrow> phase_of r = Held (j_worker_id r)"
  by (auto simp: phase_of_def dest: pending_not_terminal active_not_terminal pending_not_active)

lemma phase_of_after_update [simp]: "phase_of (after_update old new) = phase_of new"
  by (simp add: phase_of_def after_update_def)

lemma phase_moves:
  "job_sql pol Disciplined r r' \<Longrightarrow> waiting_unowned r \<Longrightarrow>
   phase_of r' = phase_of r \<or> phase_step (phase_of r) (phase_of r')"
proof (induction rule: job_sql.induct)
  case (progress p r worker)
  then have "\<not> is_pending_status (j_status r)" by (auto simp: waiting_unowned_def)
  with progress show ?case unfolding phase_of_after_update by (auto simp: phase_of_def set_progress_def)
qed (simp_all only: phase_of_after_update, auto simp: phase_of_def setter_defs dest: pending_not_terminal active_not_terminal pending_not_active)

interpretation phases: row_history pol Disciplined phase_advances for pol
proof
  show "phase_advances r r''" if "phase_advances r r'" "phase_advances r' r''" for r r' r''
    using that by (auto simp: phase_advances_def)
  show "phase_advances r r'" if "job_sql pol Disciplined r r'" for r r'
    using phase_moves [OF that] waiting_unowned_step [OF that] by (auto simp: phase_advances_def)
qed (simp add: phase_advances_def)

text \<open>The rows a run inserts start waiting.\<close>

lemma live_step_view:
  assumes "live_step pol Disciplined t t'" and "\<forall>r \<in> set t. waiting_unowned r"
  shows "view_steps (map_option phase_of (lookup_row j_id i t)) (map_option phase_of (lookup_row j_id i t'))"
proof (cases "lookup_row j_id i t")
  case (Some r)
  from phases.live_step_relates [OF assms(1) Some] obtain r' where
    r': "lookup_row j_id i t' = Some r'" "phase_advances r r'" by blast
  have "waiting_unowned r" using assms(2) lookup_row_SomeD [OF Some] by blast
  with r'(2) have "phase_steps (phase_of r) (phase_of r')" by (simp add: phase_advances_def)
  then show ?thesis by (simp add: Some r'(1) phase_steps_view)
next
  case None
  from assms(1) show ?thesis
  proof cases
    case update
    then have "map j_id t' = map j_id t"
      by (induction rule: list_all2_induct) (auto dest: job_sql_id)
    then have "lookup_row j_id i t' = None"
      using None unfolding lookup_row_None by (metis list.set_map)
    then show ?thesis by (simp add: None)
  next
    case (insert r)
    then have "phase_of r = Waiting" by (simp add: fresh_row_def phase_of_simps)
    then show ?thesis
      using None by (auto simp: insert lookup_row_append intro: r_into_rtranclp view_step.submit)
  qed
qed

lemma live_steps_view:
  assumes "live_steps pol Disciplined t t'" and "\<forall>r \<in> set t. waiting_unowned r"
  shows "view_steps (map_option phase_of (lookup_row j_id i t)) (map_option phase_of (lookup_row j_id i t'))"
  using assms(1)
proof (induction rule: rtranclp_induct)
  case (step t' t'')
  have "\<forall>r \<in> set t'. waiting_unowned r"
    using waiting.preserves [OF live_steps_table_steps [OF step.hyps(1)] assms(2)] .
  from live_step_view [OF step.hyps(2) this] step.IH show ?case by (rule rtranclp_trans [rotated])
qed simp

lemma reachable_waiting:
  "reachable pol True s \<Longrightarrow> \<forall>r \<in> set (s_jobs s). waiting_unowned r"
  using reachable_table [of pol True s] waiting.preserves [of pol "[]" "s_jobs s"]
  by (simp add: writers_of_def)

lemma store_steps_view:
  assumes "reachable pol True s" and "store_steps pol True s s'"
  shows "view_steps (queue_view s i) (queue_view s' i)"
proof -
  have "live_steps pol Disciplined (s_jobs s) (s_jobs s')"
    using store_steps_live [OF assms(2)] reachable_table [OF assms(1)] by (simp add: writers_of_def)
  then show ?thesis
    unfolding queue_view_def by (rule live_steps_view) (rule reachable_waiting [OF assms(1)])
qed

subsection \<open>One GPU job per device\<close>

lemma progress_quiet:
  assumes "job_sql pol Disciplined r r'" and "waiting_unowned r" and "row_ok r"
    and "j_worker_id r \<noteq> None"
  shows "quiet r r'"
proof -
  have "\<not> is_pending_status (j_status r)" using assms(2,4) by (auto simp: waiting_unowned_def)
  moreover have "j_status r \<in> set known_job_status" using assms(3) by (simp add: row_ok_def row_stamped_def)
  ultimately have active: "is_active_status (j_status r) \<or> is_terminal_status (j_status r)"
    by (simp add: known_job_status_classes)
  from assms(1) show ?thesis
  proof cases
    case (progress p worker)
    then show ?thesis using active by (simp add: quiet_def gpu_active_def set_progress_def after_update_def)
  next
    case (claim gpu worker now)
    then show ?thesis using \<open>\<not> is_pending_status (j_status r)\<close> by simp
  qed (use active in \<open>auto simp: quiet_def gpu_active_def setter_defs after_update_def\<close>)
qed

lemma progress_device:
  assumes p: "update_job_progress_internal ts now i u track s = Inr (out, s')"
    and "\<not> is_pending_status (pu_status u)" and ids: "distinct (map j_id (s_jobs s))"
    and rows: "\<forall>r \<in> set (s_jobs s). waiting_unowned r \<and> row_ok r"
    and excl: "device_exclusive (s_jobs s)"
  shows "device_exclusive (s_jobs s')"
  using p
proof (cases rule: progress_Inr)
  case (applied current)
  let ?f = "set_progress (progress_write_of ts now track current u)"
  obtain w where w: "j_worker_id current = Some w"
    using applied(3) by (cases "j_worker_id current") (auto simp: reporter_owns_def)
  have jobs: "s_jobs s' = sql_update (\<lambda>r. j_id r = i) (\<lambda>r. after_update r (?f r)) (s_jobs s)"
    using applied(7) by simp
  have "\<exists>r \<in> set (s_jobs s). quiet r r'" if "r' \<in> set (s_jobs s')" for r'
  proof -
    from that obtain r where r: "r \<in> set (s_jobs s)" "r' = (if j_id r = i then after_update r (?f r) else r)"
      by (auto simp: jobs set_sql_update)
    show ?thesis
    proof (cases "j_id r = i")
      case True
      then have "r = current" using find_job_unique [OF ids applied(1) r(1)] by simp
      then have "job_sql pol Disciplined r r'" for pol
        using True r(2) w applied(2) assms(2) progress_write_of_ok [OF applied(5)]
        by (auto intro!: job_sql.progress)
      then have "quiet r r'"
        using rows r(1) w \<open>r = current\<close> by (intro progress_quiet) auto
      with r(1) show ?thesis by blast
    next
      case False
      with r show ?thesis by (auto simp: quiet_def)
    qed
  qed
  then show ?thesis by (rule device_exclusive_quiet [OF _ excl])
qed (use excl in simp)

lemma store_step_device:
  assumes "store_step pol True s s'" and "table_ok s" and "\<forall>r \<in> set (s_jobs s). waiting_unowned r"
    and "device_exclusive (s_jobs s)"
  shows "device_exclusive (s_jobs s')"
  using assms(1)
proof cases
  case api
  show ?thesis using device_exclusive_live [OF api_step_live [OF api assms(2)] assms(4)] .
next
  case worker
  then show ?thesis
  proof cases
    case (claim now wid mlx_required out)
    obtain job decision where out: "out = (job, decision)" by force
    show ?thesis
    proof (cases job)
      case None
      with claim out have "s' = s"
        by (auto simp: claim_next_job_routed_def result_bind_Inr Let_def split: option.splits if_splits)
      then show ?thesis using assms(4) by simp
    next
      case (Some j)
      with claim out assms(2) obtain w q where "find_job (j_id q) s = Some q" "claimable_header s w q"
        "s' = take_claim pol now q w s" by (auto elim: claim_Inr)
      then show ?thesis using assms(2,4) by (auto intro: take_claim_device)
    qed
  next
    case (progress ts now i u track outcome)
    then show ?thesis using assms by (intro progress_device [OF progress(1)]) auto
  qed
qed

lemma reachable_device: "reachable pol True s \<Longrightarrow> device_exclusive (s_jobs s)"
proof (induction rule: reachable.induct)
  case (step s s')
  then show ?case
    using reachable_table [OF step.hyps(1)] reachable_waiting [OF step.hyps(1)]
    by (intro store_step_device [OF step.hyps(2)]) auto
next
  case (purge s datetime cutoff n s')
  then have "set (s_jobs s') \<subseteq> set (s_jobs s)"
    by (auto simp: purge_terminal_jobs_completed_before_def Let_def)
  with purge.IH show ?case unfolding device_exclusive_def by blast
qed (simp add: device_exclusive_def)

subsection \<open>Claims over reachable stores\<close>

lemma reachable_faithful:
  assumes "stamp_neutral pol" and "reachable pol protocol s"
  shows "\<forall>r \<in> set (s_jobs s). projection_faithful pol r"
  using reachable_table [OF assms(2)] projections.preserves [of pol "writers_of protocol" "[]" "s_jobs s"] assms(1)
  by simp

text \<open>A known worker's claim over current projections returns: a job, a deferral, or nothing to do.\<close>

lemma claim_total_when_fresh:
  assumes "stamp_neutral pol" and "reachable pol protocol s" and w: "find_worker worker_id s = Some w"
    and fresh: "first_stale_queued s = None"
  shows "(\<forall>r \<in> set (s_jobs s). claimable_header s w r \<longrightarrow> \<not> worker_supports_job pol w r)
      \<and> claim_next_job_routed pol now worker_id mlx_required s = Inr ((None, None), s)
    \<or> (\<exists>q decision. q \<in> set (s_jobs s) \<and> claimable_header s w q \<and> worker_supports_job pol w q
        \<and> (should_defer_auto_gpu_claim pol s q w \<or> should_defer_to_mlx pol s q w mlx_required)
        \<and> claim_next_job_routed pol now worker_id mlx_required s = Inr ((None, decision), s))
    \<or> (\<exists>q decision. q \<in> set (s_jobs s) \<and> claimable_header s w q \<and> worker_supports_job pol w q
        \<and> claim_next_job_routed pol now worker_id mlx_required s =
            Inr ((Some (claimed_row pol now w q), decision), take_claim pol now q w s))"
proof -
  have ids: "distinct (map j_id (s_jobs s))" using reachable_table [OF assms(2)] by blast
  from choose_job_faithful [OF ids reachable_faithful [OF assms(1,2)]] obtain chosen where
    chosen: "choose_claimable_job_from_candidates pol s w (claim_candidates s w) = Inr chosen"
    and none: "chosen = None \<longleftrightarrow> (\<forall>r \<in> set (s_jobs s). claimable_header s w r \<longrightarrow> \<not> worker_supports_job pol w r)"
    by blast
  show ?thesis
  proof (cases chosen)
    case None
    then show ?thesis
      using none chosen w fresh by (simp add: claim_next_job_routed_def get_worker_def)
  next
    case (Some q)
    then have q: "q \<in> set (s_jobs s)" "claimable_header s w q" "worker_supports_job pol w q"
      using choose_job_Some [OF _ ids, of pol w q] chosen by auto
    have found: "find_job (j_id q) (take_claim pol now q w s) = Some (claimed_row pol now w q)"
      using q lookup_row_member [OF ids q(1)] by (intro take_claim_find) (auto simp: claimable_header_def)
    show ?thesis
    proof (cases "should_defer_auto_gpu_claim pol s q w \<or> should_defer_to_mlx pol s q w mlx_required")
      case True
      then have "\<exists>decision. claim_next_job_routed pol now worker_id mlx_required s = Inr ((None, decision), s)"
        using chosen Some w fresh by (auto simp: claim_next_job_routed_def get_worker_def)
      with q True show ?thesis by blast
    next
      case False
      then have "\<exists>decision. claim_next_job_routed pol now worker_id mlx_required s =
          Inr ((Some (claimed_row pol now w q), decision), take_claim pol now q w s)"
        using chosen Some w fresh found by (auto simp: claim_next_job_routed_def get_worker_def get_job_def Let_def)
      with q show ?thesis by blast
    qed
  qed
qed

end
