(* ===== verification/JobDemo.thy ===== *)
theory JobDemo
  imports JobMachine
begin

text \<open>
  A small concrete store on which the theorems of the later theories are instantiated: a
  permissive routing catalog, a queued image job, and an idle CUDA worker that serves it.
\<close>

definition demo_policy :: routing_policy where
  "demo_policy = \<lparr>
     image_job_is_mlx_eligible = (\<lambda>t p. False), video_job_is_mlx_eligible = (\<lambda>t p. False),
     training_job_is_mlx_eligible = (\<lambda>t p. False), image_job_is_candle_eligible = (\<lambda>t p. True),
     video_job_is_candle_eligible = (\<lambda>t p. True), training_job_is_candle_eligible = (\<lambda>t p. True),
     image_job_candle_pose_reject = (\<lambda>t p. False), flux3_tier_capability = (\<lambda>p. None),
     is_minimax_h3_model = (\<lambda>m. False), mac_rust_unsupported = (\<lambda>t p. None),
     candle_unsupported = (\<lambda>t p. None) \<rparr>"

definition demo_payload :: json_object where
  "demo_payload = fmap_of_list [(''model'', JStr ''sdxl''), (''prompt'', JStr ''a fox'')]"

definition demo_now :: string where
  "demo_now = ''2026-01-02T03:04:05Z''"

definition demo_row :: job_row where
  "demo_row = \<lparr>
     j_id = ''job_1'', j_type = ImageGenerate, j_status = Queued, j_queue_rank = 0,
     j_project_id = None, j_project_name = None,
     j_payload = demo_payload, j_result = fmempty, j_requested_gpu = ''auto'',
     j_assigned_gpu = None, j_worker_id = None, j_progress = 0, j_stage = ''queued'',
     j_message = ''Waiting for an available worker.'', j_error = None, j_eta_seconds = None,
     j_attempts = 1, j_source_job_id = None, j_duplicate_of_job_id = None, j_cancel_requested = False,
     j_created_at = demo_now, j_updated_at = demo_now, j_started_at = None, j_completed_at = None,
     j_canceled_at = None, j_last_heartbeat_at = None, j_model_provenance = None,
     j_download_binding = None, j_claim_facts_version = CLAIM_ROUTING_FACTS_VERSION,
     j_claim_payload_revision = 0,
     j_claim = facts_columns (facts_from_parts demo_policy ImageGenerate demo_payload),
     j_peak_gpu_memory_pct = None, j_peak_gpu_load_pct = None, j_backend = None,
     j_revision = 0, j_payload_revision = 0, j_side_effects_pending = False,
     j_side_effects_retry_count = 0, j_side_effects_retry_at = 0, j_cleared_at = None \<rparr>"

definition demo_worker :: worker_row where
  "demo_worker = \<lparr>
     w_id = ''worker-a'', w_gpu_id = ''0'', w_gpu_name = None, w_status = Idle, w_current_job_id = None,
     w_capabilities = [''candle'', ''image_generate''], w_loaded_models = [], w_utilization = None,
     w_status_reason = None, w_registered_at = demo_now, w_last_seen_at = demo_now \<rparr>"

definition demo_store :: jobs_store where
  "demo_store = \<lparr>
     s_jobs = [demo_row], s_workers = [demo_worker], s_metrics = [], s_history = [],
     s_session_started_at = None \<rparr>"

definition empty_store :: jobs_store where
  "empty_store = \<lparr> s_jobs = [], s_workers = [], s_metrics = [], s_history = [], s_session_started_at = None \<rparr>"

definition demo_request :: create_job_request where
  "demo_request = \<lparr>
     cr_job_type = ImageGenerate, cr_project_id = None, cr_project_name = None,
     cr_payload = demo_payload, cr_requested_gpu = ''auto'', cr_source_job_id = None,
     cr_duplicate_of_job_id = None, cr_attempts = 1, cr_initial_status = None \<rparr>"

definition demo_registration :: register_worker_request where
  "demo_registration = \<lparr>
     rw_worker_id = ''worker-a'', rw_gpu_id = ''0'', rw_gpu_name = None,
     rw_capabilities = [''candle'', ''image_generate''], rw_loaded_models = [], rw_utilization = None \<rparr>"

text \<open>Two idle workers that could both serve the job, one short of memory and one loaded.\<close>

definition cramped_worker :: worker_row where
  "cramped_worker = demo_worker\<lparr> w_utilization := Some \<lparr> memory_total_mb = Some 10, memory_used_mb = Some 9,
     memory_free_mb = None, gpu_load_percent = Some 5 \<rparr> \<rparr>"

definition loaded_worker :: worker_row where
  "loaded_worker = demo_worker\<lparr> w_id := ''worker-b'', w_gpu_id := ''1'', w_utilization := Some \<lparr> memory_total_mb = Some 10,
     memory_used_mb = Some 1, memory_free_mb = None, gpu_load_percent = Some 90 \<rparr> \<rparr>"

definition opposed_store :: jobs_store where
  "opposed_store = demo_store\<lparr> s_workers := [cramped_worker, loaded_worker] \<rparr>"

text \<open>The store after the worker's claim, and a report that finishes the job.\<close>

definition demo_claimed :: jobs_store where
  "demo_claimed = take_claim demo_policy demo_now demo_row demo_worker demo_store"

definition demo_report :: "job_status \<Rightarrow> progress_update" where
  "demo_report status = \<lparr>
     pu_status = status, pu_stage = job_status_str status, pu_progress = Fin (3 / 2), pu_message = ''Done.'',
     pu_error = None, pu_result = Some (fmap_of_list [(''seed'', JStr ''7'')]), pu_eta_seconds = None,
     pu_peak_gpu_memory_pct = Some (Fin 120), pu_peak_gpu_load_pct = None, pu_backend = Some ''cuda'',
     pu_worker_id = Some ''worker-a'' \<rparr>"

lemma demo_create:
  "create_job_with_id demo_policy demo_now ''job_1'' demo_request (empty_store\<lparr> s_workers := [demo_worker] \<rparr>)
     = Inr (demo_row, demo_store)"
  by code_simp

lemma demo_register:
  "register_worker demo_now demo_registration empty_store
     = Inr (demo_worker, empty_store\<lparr> s_workers := [demo_worker] \<rparr>)"
  by code_simp

lemma demo_claim:
  "claim_next_job_routed demo_policy demo_now ''worker-a'' False demo_store
     = Inr ((Some (claimed_row demo_policy demo_now demo_worker demo_row), None), demo_claimed)"
  by code_simp

lemma demo_reachable: "reachable demo_policy protocol demo_store"
proof -
  have "reachable demo_policy protocol empty_store"
    by (rule reachable.start) (simp_all add: empty_store_def)
  then have "reachable demo_policy protocol (empty_store\<lparr> s_workers := [demo_worker] \<rparr>)"
    using demo_register by (blast intro: reachable.step store_step.api api_step.register)
  then show ?thesis
    using demo_create by (blast intro: reachable.step store_step.api api_step.create_with_id)
qed

lemma demo_claim_step: "store_step demo_policy protocol demo_store demo_claimed"
  using demo_claim by (blast intro: store_step.worker worker_step.claim)

lemma demo_claimed_reachable: "reachable demo_policy protocol demo_claimed"
  using demo_reachable demo_claim_step by (rule reachable.step)

text \<open>The job reported complete, and cleared from the queue list.\<close>

definition demo_progress :: "job_status \<Rightarrow> (progress_outcome \<times> jobs_store) jobs_result" where
  "demo_progress status =
     update_job_progress_internal (\<lambda>_. []) demo_now ''job_1'' (demo_report status) True demo_claimed"

definition demo_finished :: jobs_store where
  "demo_finished = snd (projr (demo_progress Completed))"

definition demo_cleared :: jobs_store where
  "demo_cleared = snd (projr (clear_job demo_now ''job_1'' demo_finished))"

lemma Inr_projr: "\<not> isl v \<Longrightarrow> v = Inr (fst (projr v), snd (projr v))"
  by (cases v) auto

lemma demo_progress_Inr: "demo_progress Completed = Inr (fst (projr (demo_progress Completed)), demo_finished)"
  unfolding demo_finished_def by (rule Inr_projr) code_simp

lemma demo_finished_step: "store_step demo_policy protocol demo_claimed demo_finished"
proof (rule store_step.worker, rule worker_step.progress)
  show "update_job_progress_internal (\<lambda>_. []) demo_now ''job_1'' (demo_report Completed) True demo_claimed
    = Inr (fst (projr (demo_progress Completed)), demo_finished)"
    using demo_progress_Inr by (simp only: demo_progress_def)
  show "\<not> is_pending_status (pu_status (demo_report Completed))" by code_simp
qed

lemma demo_finished_reachable: "reachable demo_policy protocol demo_finished"
  using demo_claimed_reachable demo_finished_step by (rule reachable.step)

lemma demo_cleared_step: "store_step demo_policy protocol demo_finished demo_cleared"
proof (rule store_step.api, rule api_step.clear_one)
  show "clear_job demo_now ''job_1'' demo_finished =
    Inr (fst (projr (clear_job demo_now ''job_1'' demo_finished)), demo_cleared)"
    unfolding demo_cleared_def by (rule Inr_projr) code_simp
qed

lemma demo_cleared_steps: "store_steps demo_policy protocol demo_finished demo_cleared"
  using demo_cleared_step by (rule r_into_rtranclp)

text \<open>The row as the first claim and the report left it.\<close>

definition demo_done :: job_row where
  "demo_done = the (find_job ''job_1'' demo_finished)"

lemma demo_claimed_length: "length (s_jobs demo_claimed) = 1"
  by code_simp

lemma demo_done_found: "find_job ''job_1'' demo_finished = Some demo_done"
  unfolding demo_done_def by code_simp

lemma demo_done_status: "j_status demo_done = Completed"
  unfolding demo_done_def by code_simp

lemma demo_done_progress: "j_progress demo_done = 1"
  unfolding demo_done_def by code_simp

lemma demo_stamp_neutral: "stamp_neutral demo_policy"
  by (simp add: stamp_neutral_def demo_policy_def)

text \<open>The same job still behind its captioning step.\<close>

definition demo_caption_row :: job_row where
  "demo_caption_row = demo_row\<lparr> j_status := PendingCaption, j_stage := ''pending_caption'' \<rparr>"

definition demo_captioning :: jobs_store where
  "demo_captioning = demo_store\<lparr> s_jobs := [demo_caption_row] \<rparr>"

text \<open>A training sample as a worker reports it.\<close>

definition demo_sample :: json where
  "demo_sample = JObj (fmap_of_list [(''relativePath'', JStr ''samples/10.png''), (''prompt'', JStr ''a fox'')])"

text \<open>A heartbeat that names the job.\<close>

definition demo_beat :: worker_heartbeat where
  "demo_beat = \<lparr>
     hb_worker_id = ''worker-a'', hb_status = Busy, hb_current_job_id = Some ''job_1'', hb_loaded_models = [],
     hb_utilization = None, hb_status_reason = None \<rparr>"

text \<open>The finished job with a metrics row.\<close>

definition demo_metrics :: metrics_row where
  "demo_metrics = \<lparr> m_job_id = ''job_1'', m_values = (\<lambda>_. None), m_updated_at = demo_now \<rparr>"

definition demo_measured :: jobs_store where
  "demo_measured = demo_finished\<lparr> s_metrics := [demo_metrics] \<rparr>"

lemma demo_finished_history: "s_history demo_finished = []"
  by code_simp

end
