(* ===== verification/FoundationLaws.thy ===== *)
theory FoundationLaws
  imports JobSpec JobDemo
begin

text \<open>
  What the other components rest on: timestamps as text, the string enums of the wire
  format, the persisted routing projection, what a worker must offer to be given a job, and
  the comparison of two workers that could serve the same job.
\<close>

section \<open>Timestamps\<close>

text \<open>
  A timestamp reads back as the second it was written for, over all instants whose year has
  four digits, and its text has the fixed width the columns are compared by.
\<close>

theorem timestamp_roundtrip:
  assumes "four_digit_instant t"
  shows "parse_utc_seconds (format_unix_seconds t) = Some t"
  using assms by (rule parse_format_inverse)

theorem timestamp_roundtrip_witness:
  "parse_utc_seconds (format_unix_seconds 951782399) = Some 951782399
   \<and> format_unix_seconds 951782399 = ''2000-02-28T23:59:59Z''"
  using timestamp_roundtrip [of 951782399] by (simp add: four_digit_instant_def) code_simp

text \<open>
  C25. Comparing stored timestamps as text, as the queries do, is comparing the instants.
\<close>

theorem timestamp_text_order:
  assumes "four_digit_instant t" and "four_digit_instant u"
  shows "text_less (format_unix_seconds t) (format_unix_seconds u) \<longleftrightarrow> t < u"
  using assms by (rule format_less_iff)

theorem timestamp_text_order_witness:
  "text_less (format_unix_seconds (- 1)) (format_unix_seconds 0)"
  using timestamp_text_order [of "- 1" 0] by (simp add: four_digit_instant_def)

section \<open>Wire values\<close>

text \<open>
  The string enums lose nothing on the wire: writing what was parsed gives back the text,
  an unknown value included, and parsing what was written gives back every known value.
\<close>

theorem enum_wire_roundtrip:
  "job_status_str (parse_job_status v) = v \<and> job_type_str (parse_job_type v) = v
   \<and> worker_status_str (parse_worker_status v) = v
   \<and> map (\<lambda>s. parse_job_status (job_status_str s)) known_job_status = known_job_status
   \<and> map (\<lambda>t. parse_job_type (job_type_str t)) known_job_type = known_job_type
   \<and> map (\<lambda>s. parse_worker_status (worker_status_str s)) known_worker_status = known_worker_status"
  by (simp add: job_status_str_parse job_type_str_parse worker_status_str_parse
    map_idI parse_job_status_known parse_job_type_known parse_worker_status_known)

section \<open>Routing\<close>

text \<open>
  The routing facts survive their columns: what the claim query reads back from a job row
  is what was computed from the payload at enqueue, the model keys included, since no payload
  yields more keys than there are columns.
\<close>

theorem routing_projection_roundtrip:
  "columns_facts t (facts_columns (facts_from_parts pol t payload)) = facts_from_parts pol t payload
   \<and> length (desired_model_keys payload) \<le> 4"
  by (simp add: columns_facts_from_parts length_desired_model_keys)



text \<open>
  C27. Two idle workers that each rescue the other, for instance one short of memory at low load and
  the other loaded with its memory free, are each better than the other: both defer the same
  job, so neither claims it until a utilization report changes.
\<close>

theorem opposed_workers_both_defer:
  assumes "w \<in> set (s_workers s)" and "v \<in> set (s_workers s)" and "w_id w \<noteq> w_id v"
    and "w_status w = Idle" and "w_status v = Idle"
    and "w_gpu_id w \<noteq> ''cpu'' \<and> \<not> is_mlx_gpu (w_gpu_id w)" and "w_gpu_id v \<noteq> ''cpu'' \<and> \<not> is_mlx_gpu (w_gpu_id v)"
    and "worker_supports_job pol w job" and "worker_supports_job pol v job"
    and "\<not> active_gpu_job_exists s (w_gpu_id w)" and "\<not> active_gpu_job_exists s (w_gpu_id v)"
    and "j_requested_gpu job = ''auto''" and "\<not> is_non_gpu_job_type (j_type job)"
    and "has_utilization (dispatch_score_of job w)" and "has_utilization (dispatch_score_of job v)"
    and "dispatch_rescue (dispatch_score_of job w) (dispatch_score_of job v)"
    and "dispatch_rescue (dispatch_score_of job v) (dispatch_score_of job w)"
  shows "should_defer_auto_gpu_claim pol s job w \<and> should_defer_auto_gpu_claim pol s job v"
proof -
  have "dispatch_score_is_better (dispatch_score_of job w) (dispatch_score_of job v)"
    and "dispatch_score_is_better (dispatch_score_of job v) (dispatch_score_of job w)"
    using assms(14-17) by (simp_all add: dispatch_score_is_better_def)
  then show ?thesis
    using assms(1-15) unfolding should_defer_auto_gpu_claim_def
    by (auto simp: Let_def list_ex_iff)
qed

theorem opposed_workers_both_defer_witness:
  "should_defer_auto_gpu_claim demo_policy opposed_store demo_row cramped_worker
   \<and> should_defer_auto_gpu_claim demo_policy opposed_store demo_row loaded_worker
   \<and> fst (fst (projr (claim_next_job_routed demo_policy demo_now ''worker-a'' False opposed_store))) = None
   \<and> fst (fst (projr (claim_next_job_routed demo_policy demo_now ''worker-b'' False opposed_store))) = None"
proof -
  have "fst (fst (projr (claim_next_job_routed demo_policy demo_now ''worker-a'' False opposed_store))) = None"
    and "fst (fst (projr (claim_next_job_routed demo_policy demo_now ''worker-b'' False opposed_store))) = None"
    by code_simp+
  moreover have "should_defer_auto_gpu_claim demo_policy opposed_store demo_row cramped_worker
      \<and> should_defer_auto_gpu_claim demo_policy opposed_store demo_row loaded_worker"
    by (rule opposed_workers_both_defer ; code_simp)
  ultimately show ?thesis by blast
qed

end
