(* ===== verification/LifecycleLaws.thy ===== *)
theory LifecycleLaws
  imports JobSpec JobDemo
begin

text \<open>
  What each operation on one job does: creation, retry, cancellation and priority; the
  acceptance and the effect of progress reports, the merging of results, and the handoff of
  side effects. Every theorem with hypotheses is applied to the demonstration store.
\<close>

section \<open>The lifecycle of a job\<close>

text \<open>
  A created job is stored as asked: waiting in a pre-worker state, unowned, at attempt
  and lineage as requested, with a projection of its payload; prompt refinements are ranked
  above every other job. A GPU job addressed to the CPU, a creation in a worker-side or
  terminal state, and an id in use are refused.
\<close>

theorem create_job_behaviour:
  "(\<exists>job s'. create_job_with_id pol now i request s = Inr (job, s')
      \<and> find_job i s = None \<and> s_jobs s' = s_jobs s @ [job] \<and> s_workers s' = s_workers s
      \<and> j_id job = i \<and> initial_status request = Inr (j_status job) \<and> is_pending_status (j_status job)
      \<and> j_worker_id job = None \<and> j_payload job = cr_payload request \<and> j_attempts job = cr_attempts request
      \<and> \<not> projection_stale job \<and> projection_faithful pol job
      \<and> list_all (\<lambda>r. if job_type_automatically_jumps_queue (j_type job)
           then j_queue_rank r < j_queue_rank job else j_queue_rank job = 0) (s_jobs s))
   \<or> (\<exists>e. create_job_with_id pol now i request s = Inl e
      \<and> (job_requires_gpu (cr_job_type request) \<and> normalize_requested_gpu (cr_requested_gpu request) = ''cpu''
         \<or> isl (initial_status request) \<or> (\<exists>r. find_job i s = Some r)))"
proof (cases "create_job_with_id pol now i request s")
  case (Inl e)
  then have "job_requires_gpu (cr_job_type request) \<and> normalize_requested_gpu (cr_requested_gpu request) = ''cpu''
      \<or> isl (initial_status request) \<or> (\<exists>r. find_job i s = Some r)"
    by (rule create_with_id_Inl)
  with Inl show ?thesis by blast
next
  case (Inr v)
  then obtain job s' where v: "create_job_with_id pol now i request s = Inr (job, s')" by (cases v) auto
  from create_with_id_Inr [OF this] v show ?thesis by blast
qed

text \<open>
  A retry is a new queued job with the next attempt number, never above the limit; it
  carries the type, the project and the merged payload of the job it retries, points back
  to it, and changes no other row. At the limit the retry is refused.
\<close>

theorem retry_bounded:
  assumes "find_job i s = Some old"
  shows "(MAX_JOB_ATTEMPTS \<le> j_attempts old \<longrightarrow>
      retry_job pol now job_hex i changes s = Inl (RetryLimit MAX_JOB_ATTEMPTS))
    \<and> (\<forall>new s'. retry_job pol now job_hex i changes s = Inr (new, s') \<longrightarrow>
      j_attempts new = j_attempts old + 1 \<and> j_attempts new \<le> MAX_JOB_ATTEMPTS \<and> j_status new = Queued
      \<and> j_source_job_id new = Some i \<and> j_type new = j_type old
      \<and> j_payload new = extend_map (j_payload old) changes
      \<and> find_job (j_id new) s = None \<and> (\<forall>k. k \<noteq> j_id new \<longrightarrow> find_job k s' = find_job k s))"
    (is "?limit \<and> (\<forall>new s'. ?ok new s' \<longrightarrow> ?copy new s')")
proof -
  have "?copy new s'" if "?ok new s'" for new s'
    using retry_job_Inr [OF that [unfolded retry_job_def] assms] by (elim conjE) (intro conjI; assumption)
  moreover have ?limit
    using assms by (simp add: retry_job_def retry_job_with_download_binding_def get_job_def)
  ultimately show ?thesis by blast
qed

theorem retry_bounded_witness:
  "j_attempts (fst (projr (retry_job demo_policy demo_now ''aa'' ''job_1'' fmempty demo_finished))) = 2
   \<and> retry_job demo_policy demo_now ''aa'' ''job_1'' fmempty
       (demo_finished\<lparr> s_jobs := [demo_done\<lparr> j_attempts := 5 \<rparr>] \<rparr>) = Inl (RetryLimit MAX_JOB_ATTEMPTS)"
proof -
  let ?retry = "retry_job demo_policy demo_now ''aa'' ''job_1'' fmempty demo_finished"
  have "\<not> isl ?retry" by code_simp
  then have "j_attempts (fst (projr ?retry)) = j_attempts demo_done + 1"
    using retry_bounded [OF demo_done_found] Inr_projr by blast
  moreover have "j_attempts demo_done = 1" unfolding demo_done_def by code_simp
  moreover have "find_job ''job_1'' (demo_finished\<lparr> s_jobs := [demo_done\<lparr> j_attempts := 5 \<rparr>] \<rparr>) =
      Some (demo_done\<lparr> j_attempts := 5 \<rparr>)" and "MAX_JOB_ATTEMPTS \<le> j_attempts (demo_done\<lparr> j_attempts := 5 \<rparr>)"
    unfolding demo_done_def by code_simp+
  ultimately show ?thesis using retry_bounded by simp
qed

text \<open>
  Cancelling a job that no worker has started finishes it at once; cancelling a running
  one only records the request for its worker; a finished job is left as it is. No case
  touches another row.
\<close>

theorem cancel_job_cases:
  assumes "find_job i s = Some r"
  shows "\<exists>job s'. cancel_job now i s = Inr (job, s') \<and> find_job i s' = Some job
    \<and> (\<forall>k. k \<noteq> i \<longrightarrow> find_job k s' = find_job k s)
    \<and> (if is_terminal_status (j_status r) then job = r
       else if is_pending_status (j_status r) then
         j_status job = Canceled \<and> j_canceled_at job = Some now \<and> j_completed_at job = Some now
       else j_status job = j_status r \<and> j_cancel_requested job \<and> j_worker_id job = j_worker_id r)"
proof -
  have other: "find_job k (update_jobs (\<lambda>x. j_id x = i) f s) = find_job k s"
    if "k \<noteq> i" and "\<And>x. j_id (f x) = j_id x" for k f
    using that by (intro find_job_update_other) auto
  have self: "find_job i (update_jobs (\<lambda>x. j_id x = i) f s) = Some (after_update r (f r))"
    if "\<And>x. j_id (f x) = j_id x" for f
    using that by (intro find_job_update_self assms)
  consider "is_terminal_status (j_status r)" | "\<not> is_terminal_status (j_status r)" "is_pending_status (j_status r)"
    | "\<not> is_terminal_status (j_status r)" "\<not> is_pending_status (j_status r)" by blast
  then show ?thesis
  proof cases
    case 1
    then show ?thesis using assms cancel_job_terminal by simp
  next
    case 2
    then show ?thesis
      using cancel_job_pending [OF assms 2(2)] other [of _ "set_canceled now"] self [of "set_canceled now"]
      by (simp add: after_update_def set_canceled_def del: update_jobs_sel)
  next
    case 3
    then show ?thesis
      using cancel_job_active [OF assms 3(2,1)] other [of _ "set_cancel_requested now"]
        self [of "set_cancel_requested now"]
      by (simp add: after_update_def set_cancel_requested_def del: update_jobs_sel)
  qed
qed

theorem cancel_job_cases_witness:
  "\<exists>job s'. cancel_job demo_now ''job_1'' demo_store = Inr (job, s') \<and> j_status job = Canceled"
proof -
  have "find_job ''job_1'' demo_store = Some demo_row"
    "is_pending_status (j_status demo_row)" "\<not> is_terminal_status (j_status demo_row)" by code_simp+
  then show ?thesis using cancel_job_cases [of "''job_1''" demo_store demo_row demo_now] by auto
qed

text \<open>
  Prioritizing jobs moves exactly the waiting ones among them to the head of the queue:
  in their current scheduling order they receive strictly falling ranks, all above the rank
  of every row of the table, as long as the 64-bit ranks are not exhausted; no other row
  changes.
\<close>

theorem prioritize_moves_to_head:
  assumes "reachable pol protocol s" and "job_ids \<noteq> []"
    and "sel = prioritize_selection job_ids s"
    and "max_queue_rank (s_jobs s) + int (length sel) \<le> i64_max"
  shows "\<exists>out s'. prioritize_jobs now job_ids s = Inr (out, s')
    \<and> map j_id out = map j_id sel
    \<and> (\<forall>p < length out. j_queue_rank (out ! p) = max_queue_rank (s_jobs s) + int (length out - p))
    \<and> (\<forall>p < length out. \<forall>r \<in> set (s_jobs s). j_queue_rank r < j_queue_rank (out ! p))
    \<and> (\<forall>k. k \<notin> j_id ` set sel \<longrightarrow> find_job k s' = find_job k s)"
proof -
  let ?m = "max_queue_rank (s_jobs s)"
  have ids: "distinct (map j_id (s_jobs s))" and m0: "0 \<le> ?m"
    using reachable_table [OF assms(1)] jobs_ok_max_rank [of s] by blast+
  from prioritize_jobs_Inr [OF ids assms(3,2), of now] obtain out s' where
    out: "prioritize_jobs now job_ids s = Inr (out, s')" "length out = length sel"
    and nth: "\<forall>p < length sel. out ! p = after_update (sel ! p)
      (set_rank (prioritized_rank ?m (length sel) p) now (sel ! p))"
    and other: "\<forall>k. k \<notin> j_id ` set sel \<longrightarrow> find_job k s' = find_job k s" by blast
  have rank: "j_queue_rank (out ! p) = ?m + int (length out - p)" if "p < length out" for p
    using that nth out(2) prioritized_rank_exact [OF m0 assms(4), of p]
    by (simp add: after_update_def set_rank_def)
  have "j_queue_rank r < j_queue_rank (out ! p)" if "p < length out" "r \<in> set (s_jobs s)" for p r
    using rank [OF that(1)] max_queue_rank_ge [OF that(2)] that(1) by simp
  moreover have "map j_id out = map j_id sel"
    by (rule nth_equalityI) (use nth out(2) in simp_all)
  ultimately show ?thesis using out other rank by blast
qed

theorem prioritize_moves_to_head_witness:
  "\<exists>out s'. prioritize_jobs demo_now [''job_1''] demo_store = Inr (out, s') \<and> map j_id out = [''job_1'']"
proof -
  have "prioritize_selection [''job_1''] demo_store = [demo_row]" by code_simp
  moreover have "max_queue_rank (s_jobs demo_store) + int (length [demo_row]) \<le> i64_max" by code_simp
  moreover have "j_id demo_row = ''job_1''" by code_simp
  ultimately show ?thesis
    using prioritize_moves_to_head [OF demo_reachable, of "[''job_1'']" "[demo_row]" demo_now] by auto
qed

section \<open>Progress reports\<close>

text \<open>
  C6. Exactly the owner of a job can report on it: a report is accepted if and only if it is
  well formed (a known status, finite numbers), names an existing job, comes from the
  worker that holds it, and does not try to move a finished job to another status.
\<close>

theorem progress_accepted_from_owner_only:
  "(\<exists>out s'. update_job_progress_internal to_string now i u track s = Inr (out, s')) =
   (pu_status u \<in> set known_job_status \<and> is_finite (pu_progress u) \<and> finite_option (pu_eta_seconds u)
    \<and> finite_option (pu_peak_gpu_memory_pct u) \<and> finite_option (pu_peak_gpu_load_pct u)
    \<and> (\<exists>r w. find_job i s = Some r \<and> j_worker_id r = Some w \<and> pu_worker_id u = Some w
         \<and> (if is_terminal_status (j_status r) then j_status r = pu_status u else True)))"
  unfolding progress_accepted_iff validate_progress_Inr reporter_owns_def by auto



text \<open>
  A slim progress report never erases accumulated results: the stored result of a job
  keeps every accumulation key the report omits, takes every key the report carries, and
  always keeps the model provenance frozen at enqueue, whatever the worker sends.
\<close>

theorem merged_result_keeps_accumulations:
  "fmlookup (merged_result to_string job incoming) MODEL_PROVENANCE_KEY = j_model_provenance job
   \<and> list_all (\<lambda>k. fmlookup (merged_result to_string job incoming) k =
       coalesce (fmlookup incoming k) (fmlookup (j_result job) k)) PROGRESS_RESULT_ACCUMULATION_KEYS"
  by (simp add: merged_result_provenance merged_result_accumulated list_all_iff)

text \<open>
  The training sample history is append-only: a report whose samples, if it has any, are
  a list keeps every stored sample, in order, and appends; a history that the merge has
  produced has no repeated key, so it stays as it is when it is merged again.
\<close>

theorem training_history_append_only:
  assumes "fmlookup existing ''trainingSamples'' = Some (JArr held)" and "samples_settled to_string held"
    and "held \<noteq> []"
    and "fmlookup incoming ''trainingSamples'' = None \<or> get_array incoming ''trainingSamples'' \<noteq> None"
  shows "\<exists>added. fmlookup (merge_training_sample_history to_string existing incoming) ''trainingSamples'' =
      Some (JArr (held @ added)) \<and> samples_settled to_string (held @ added)"
  by (rule merge_history_keeps [OF assms])

theorem training_history_append_only_witness:
  "\<exists>added. fmlookup (merge_training_sample_history (\<lambda>_. []) (fmap_of_list [(''trainingSamples'', JArr [demo_sample])])
      (fmap_of_list [(''latestTrainingSamples'', JArr [JNull])])) ''trainingSamples'' = Some (JArr (demo_sample # added))"
proof -
  have "fmlookup (fmap_of_list [(''trainingSamples'', JArr [demo_sample])]) ''trainingSamples'' = Some (JArr [demo_sample])"
    and "samples_settled (\<lambda>_. []) [demo_sample]"
    and "fmlookup (fmap_of_list [(''latestTrainingSamples'', JArr [JNull])]) ''trainingSamples'' = None"
    by code_simp+
  from training_history_append_only [OF this(1,2) _ disjI1 [OF this(3)]] show ?thesis by auto
qed

text \<open>
  A sample that carries no path is keyed by its position in the merged list, so the
  merge does not recognize it: a report that carries no samples at all doubles the stored
  one. (Histories whose samples all carry a path are left exactly as they are.)
\<close>

theorem pathless_sample_doubled:
  assumes "fmlookup object ''relativePath'' = None" and "fmlookup object ''path'' = None"
    and "fmlookup object ''url'' = None"
  shows "fmlookup (merge_training_sample_history to_string
      (fmap_of_list [(''trainingSamples'', JArr [JObj object])]) fmempty) ''trainingSamples'' =
    Some (JArr [JObj object, JObj object])"
  by (rule pathless_doubles [OF assms])

theorem pathless_sample_doubled_witness:
  "fmlookup (merge_training_sample_history (\<lambda>_. [])
      (fmap_of_list [(''trainingSamples'', JArr [JObj (fmap_of_list [(''step'', JStr ''10'')])])]) fmempty) ''trainingSamples'' =
    Some (JArr [JObj (fmap_of_list [(''step'', JStr ''10'')]), JObj (fmap_of_list [(''step'', JStr ''10'')])])"
  by (rule pathless_sample_doubled) code_simp+

text \<open>
  Failed side effects back off: a deferred handoff leaves the due list for 5 to 300
  seconds, by the schedule 5, 10, 20, ... capped at five minutes, so it can neither be
  retried in a hot loop nor crowd out newer handoffs; it is due again when the delay has
  passed, and no other row changes.
\<close>

theorem deferred_handoff_backs_off:
  assumes "reachable pol protocol s" and "find_job i s = Some r" and "j_side_effects_pending r"
    and "i64_min \<le> n" and "n + 300 \<le> i64_max"
  shows "\<exists>delay s'. defer_pending_terminal_progress_side_effects n i s = Inr (True, s')
    \<and> 5 \<le> delay \<and> delay \<le> 300
    \<and> delay = min (5 * 2 ^ min (nat (saturating_add (max (j_side_effects_retry_count r) 0) 1 - 1)) 16) 300
    \<and> (\<forall>t limit. t < n + delay \<longrightarrow> i \<notin> set (pending_terminal_progress_side_effect_job_ids_as_of t limit s'))
    \<and> (\<forall>t. n + delay \<le> t \<longrightarrow>
         i \<in> set (pending_terminal_progress_side_effect_job_ids_as_of t (length (s_jobs s')) s'))
    \<and> (\<forall>k. k \<noteq> i \<longrightarrow> find_job k s' = find_job k s)"
proof -
  have ids: "distinct (map j_id (s_jobs s))" and ok: "row_ok r"
    using reachable_table [OF assms(1)] lookup_row_SomeD [OF assms(2)] by blast+
  from defer_Inr [OF ids assms(2-5)] obtain k delay s' where
    d: "defer_pending_terminal_progress_side_effects n i s = Inr (True, s')" and
    k: "k = saturating_add (max (j_side_effects_retry_count r) 0) 1" "delay = retry_delay k" and
    bounds: "5 \<le> delay" "delay \<le> 300" and
    new: "find_job i s' = Some (after_update r (set_deferred k (n + delay) r))" and
    other: "\<forall>j. j \<noteq> i \<longrightarrow> find_job j s' = find_job j s" .
  let ?new = "after_update r (set_deferred k (n + delay) r)"
  have fields: "j_side_effects_pending ?new" "j_side_effects_retry_at ?new = n + delay" "j_status ?new = j_status r"
    using assms(3) by (simp_all add: after_update_def set_deferred_def)
  have finished: "is_terminal_status (j_status r)" using ok assms(3) by (simp add: row_ok_def row_stamped_def)
  have "reachable pol protocol s'" using assms(1) d by (blast intro: reachable.step store_step.api api_step.defer_effects)
  then have ids': "distinct (map j_id (s_jobs s'))" using reachable_table by blast
  have "i \<notin> set (pending_terminal_progress_side_effect_job_ids_as_of t limit s')" if "t < n + delay" for t limit
  proof
    assume "i \<in> set (pending_terminal_progress_side_effect_job_ids_as_of t limit s')"
    then obtain x where "x \<in> set (s_jobs s')" "j_id x = i" "j_side_effects_retry_at x \<le> t" by (auto dest: due_subset)
    with find_job_unique [OF ids' new] fields(2) that show False by auto
  qed
  moreover have "i \<in> set (pending_terminal_progress_side_effect_job_ids_as_of t (length (s_jobs s')) s')"
    if "n + delay \<le> t" for t
    unfolding due_iff using that fields finished lookup_row_SomeD [OF new] by fastforce
  moreover have "delay = min (5 * 2 ^ min (nat (k - 1)) 16) 300"
    using retry_delay_exact next_retry_bounds [of "j_side_effects_retry_count r"] k by simp
  ultimately show ?thesis using d bounds other k(1) by blast
qed

theorem deferred_handoff_backs_off_witness:
  "\<exists>delay s'. defer_pending_terminal_progress_side_effects 100 ''job_1'' demo_finished = Inr (True, s') \<and> delay = 5
    \<and> ''job_1'' \<in> set (pending_terminal_progress_side_effect_job_ids_as_of (100 + delay) (length (s_jobs s')) s')"
proof -
  have "j_side_effects_pending demo_done" "j_side_effects_retry_count demo_done = 0"
    "i64_min \<le> 100" "100 + 300 \<le> i64_max" unfolding demo_done_def by code_simp+
  moreover have "saturating_add (max 0 0) 1 = 1" by code_simp
  ultimately show ?thesis
    using deferred_handoff_backs_off [OF demo_finished_reachable demo_done_found, of 100] by fastforce
qed

text \<open>
  The result of a finished job is replaced by compare-and-set: the write happens exactly
  when owner, status and stored result are the ones the caller read, it replaces the result
  alone, and clearing the handoff happens in the same write; otherwise the store is
  returned as it was.
\<close>

theorem replace_result_cas:
  assumes "find_job i s = Some r"
  shows "\<exists>job s'. replace_job_result_after_progress now i owner status expected result clear s = Inr (job, s')
    \<and> find_job i s' = Some job
    \<and> (if j_worker_id r = owner \<and> j_status r = status \<and> j_result r = expected
       then j_result job = result \<and> j_status job = j_status r \<and> j_worker_id job = j_worker_id r
         \<and> j_payload job = j_payload r
         \<and> j_side_effects_pending job = (if clear then False else j_side_effects_pending r)
       else job = r \<and> s' = s)"
proof -
  have "find_job i (update_jobs (\<lambda>r. j_id r = i) (set_result result now clear) s) =
      Some (after_update r (set_result result now clear r))"
    by (rule find_job_update_self [OF assms]) simp
  then show ?thesis
    using assms
    by (auto simp: replace_job_result_after_progress_def get_job_def Let_def after_update_def set_result_def
        simp del: update_jobs_sel)
qed

theorem replace_result_cas_witness:
  "\<exists>job s'. replace_job_result_after_progress demo_now ''job_1'' (Some ''worker-b'') Completed fmempty fmempty True
      demo_finished = Inr (job, s') \<and> s' = demo_finished"
proof -
  have "j_worker_id demo_done = Some ''worker-a''" unfolding demo_done_def by code_simp
  then show ?thesis
    using replace_result_cas [OF demo_done_found, of demo_now "Some ''worker-b''" Completed fmempty fmempty True] by auto
qed

end
