(* ===== verification/RecoveryLaws.thy ===== *)
theory RecoveryLaws
  imports JobSpec JobDemo
begin

text \<open>
  What the store does when something stops: restarts, silent and dead workers, jobs no
  worker can run; what retention keeps; and what the listings show.
\<close>

section \<open>Recovery\<close>

text \<open>
  C9. Restart recovery always completes and leaves the queue consistent: every job still
  worker-side is held by a busy worker that names it, no job is left behind a captioning
  step, every worker that is not offline holds such a job, and exactly the other
  worker-side rows were interrupted.
\<close>

theorem restart_recovers:
  assumes "distinct (map j_id (s_jobs s))"
  shows "\<exists>jobs s'. mark_interrupted_on_startup now s = Inr (jobs, s')
    \<and> list_all (\<lambda>r. j_status r \<noteq> PendingCaption) (s_jobs s')
    \<and> (\<forall>r \<in> set (s_jobs s'). is_active_status (j_status r) \<longrightarrow> held_by_busy_worker s' r)
    \<and> (\<forall>w \<in> set (s_workers s'). w_status w \<noteq> Offline \<longrightarrow> holds_active_job s' w)
    \<and> map j_status (s_jobs s') = map (\<lambda>r. if is_active_status (j_status r) \<and> \<not> held_by_busy_worker s r then Interrupted
         else if j_status r = PendingCaption then Queued else j_status r) (s_jobs s)"
proof -
  from startup_Inr [OF assms, of now] obtain jobs s' where
    ok: "mark_interrupted_on_startup now s = Inr (jobs, s')"
    and rows: "s_jobs s' = map (recovered_row now s) (s_jobs s)"
    and workers: "s_workers s' = map (\<lambda>w. if w_status w \<noteq> Offline \<and> \<not> holds_active_job s' w then set_offline w else w) (s_workers s)"
    by blast
  have held: "held_by_busy_worker s' r" if r: "r \<in> set (s_jobs s')" "is_active_status (j_status r)" for r
  proof -
    from r obtain x where x: "x \<in> set (s_jobs s)" "r = recovered_row now s x" by (auto simp: rows)
    have "r = x" using recovered_row_same r(2) x(2) by simp
    moreover have "held_by_busy_worker s x" using recovered_row_active r(2) x(2) by simp
    ultimately obtain w where w: "w \<in> set (s_workers s)" "j_worker_id r = Some (w_id w)" "w_status w = Busy"
      "w_current_job_id w = Some (j_id r)" by (auto simp: held_by_busy_worker_def list_ex_iff)
    have "holds_active_job s' w" using r w by (auto simp: holds_active_job_def list_ex_iff)
    then have "w \<in> set (s_workers s')" using w(1) by (auto simp: workers image_iff)
    with w show ?thesis by (auto simp: held_by_busy_worker_def list_ex_iff)
  qed
  have "holds_active_job s' w" if "w \<in> set (s_workers s')" "w_status w \<noteq> Offline" for w
    using that by (auto simp: workers set_offline_def split: if_splits)
  moreover have "list_all (\<lambda>r. j_status r \<noteq> PendingCaption) (s_jobs s')"
    by (simp add: rows list_all_iff recovered_row_caption)
  moreover have "map j_status (s_jobs s') = map (\<lambda>r. if is_active_status (j_status r) \<and> \<not> held_by_busy_worker s r then Interrupted
      else if j_status r = PendingCaption then Queued else j_status r) (s_jobs s)"
    by (simp add: rows recovered_row_def after_update_def set_released_def set_queued_def)
  ultimately show ?thesis using ok held by blast
qed

theorem restart_recovers_witness:
  "\<exists>jobs s'. mark_interrupted_on_startup demo_now demo_captioning = Inr (jobs, s')
    \<and> list_all (\<lambda>r. j_status r \<noteq> PendingCaption) (s_jobs s')"
proof -
  have "distinct (map j_id (s_jobs demo_captioning))" by code_simp
  from restart_recovers [OF this, of demo_now] show ?thesis by blast
qed



text \<open>
  A heartbeat speaks for the worker's own job only: one that names a job another worker
  holds changes no job, and one that names its own job changes nothing but its heartbeat
  time, its update time and the revision of that one row.
\<close>

theorem heartbeat_touches_own_job_only:
  assumes "find_worker (hb_worker_id request) s = Some w" and "hb_current_job_id request = Some i"
  shows "\<exists>out s'. heartbeat_worker now request s = Inr (out, s')
    \<and> snd out = None
    \<and> s_jobs s' = map (\<lambda>r. if j_id r = i \<and> j_worker_id r = Some (hb_worker_id request)
        then r\<lparr> j_last_heartbeat_at := Some now, j_updated_at := now, j_revision := j_revision r + 1 \<rparr> else r) (s_jobs s)"
proof -
  let ?s2 = "update_workers (\<lambda>w. w_id w = hb_worker_id request) (set_heartbeat_worker now request) s"
  let ?s3 = "update_jobs (\<lambda>r. j_id r = i \<and> j_worker_id r = Some (hb_worker_id request)) (set_heartbeat now) ?s2"
  have "w_id w = hb_worker_id request" using lookup_row_SomeD [OF assms(1)] by simp
  then have "find_worker (hb_worker_id request) ?s3 = Some (set_heartbeat_worker now request w)"
    using assms(1) by (simp add: lookup_row_sql_update set_heartbeat_worker_def)
  moreover have "s_jobs ?s3 = map (\<lambda>r. if j_id r = i \<and> j_worker_id r = Some (hb_worker_id request)
        then r\<lparr> j_last_heartbeat_at := Some now, j_updated_at := now, j_revision := j_revision r + 1 \<rparr> else r) (s_jobs s)"
    by (simp add: sql_update_def after_update_def set_heartbeat_def)
  ultimately show ?thesis
    using assms by (simp add: heartbeat_worker_def get_worker_def Let_def)
qed

theorem heartbeat_touches_own_job_only_witness:
  "\<exists>out s'. heartbeat_worker demo_now demo_beat demo_finished = Inr (out, s') \<and> snd out = None"
proof -
  have "find_worker (hb_worker_id demo_beat) demo_finished = Some (hd (s_workers demo_finished))"
    "hb_current_job_id demo_beat = Some ''job_1''" by code_simp+
  from heartbeat_touches_own_job_only [OF this, of demo_now] show ?thesis by blast
qed

text \<open>
  The sweep for a missing MLX worker fails exactly the jobs it should: with no live MLX
  worker, every queued MLX job older than the grace period is failed with the reason, and
  every other row is as it was; the sweep reports the failed jobs. With a live MLX worker
  nothing changes.
\<close>

theorem stranded_mlx_sweep_exact:
  assumes "distinct (map j_id (s_jobs s))"
  shows "\<exists>failed s'. fail_stranded_mlx_jobs pol n True grace s = Inr (failed, s')
    \<and> (if list_ex (\<lambda>w. w_gpu_id w = ''mlx'' \<and> live_since (cutoff_instant n grace) w) (s_workers s) then failed = [] \<and> s' = s
       else s_jobs s' = map (\<lambda>r. if job_is_any_mlx_eligible pol (j_type r) (j_payload r)
              \<and> j_status r = Queued \<and> text_less (j_created_at r) (cutoff_instant n grace)
            then after_update r (set_released Failed (format_unix_seconds n) ''MLX worker unavailable.''
              (mlx_unavailable_error r grace) r) else r) (s_jobs s)
         \<and> set (map j_id failed) = j_id ` {r \<in> set (s_jobs s). job_is_any_mlx_eligible pol (j_type r) (j_payload r)
              \<and> j_status r = Queued \<and> text_less (j_created_at r) (cutoff_instant n grace)})"
proof -
  let ?cutoff = "cutoff_instant n grace" and ?now = "format_unix_seconds n"
  let ?P = "\<lambda>r. job_is_any_mlx_eligible pol (j_type r) (j_payload r)"
  let ?Q = "\<lambda>r. j_status r = Queued \<and> text_less (j_created_at r) ?cutoff"
  let ?f = "\<lambda>r. (''MLX worker unavailable.'', mlx_unavailable_error r grace)"
  define cs where "cs = map (\<lambda>job. (j_id job, ?f job)) (filter ?P (order_by oldest_first (filter ?Q (s_jobs s))))"
  have queued: "?Q r \<Longrightarrow> j_status r = Queued" for r by simp
  from run_fail_sweep_selected [OF assms queued cs_def, of ?now] obtain s' where
    run: "run_fail_sweep ?now cs s = Inr (map (\<lambda>c. the (find_job (fst c) s')) cs, s')"
    and rows: "s_jobs s' = map (\<lambda>r. if ?P r \<and> ?Q r
        then after_update r (set_released Failed ?now (fst (?f r)) (snd (?f r)) r) else r) (s_jobs s)" by blast
  have "j_id (the (find_job (fst c) s')) = fst c" if "c \<in> set cs" for c
  proof -
    have "map j_id (s_jobs s') = map j_id (s_jobs s)" by (simp add: rows)
    then have "j_id ` set (s_jobs s') = j_id ` set (s_jobs s)" by (metis list.set_map)
    then have "fst c \<in> j_id ` set (s_jobs s')" using that by (auto simp: cs_def)
    then obtain x where "find_job (fst c) s' = Some x" using lookup_row_None [of j_id "fst c"] by fastforce
    then show ?thesis using lookup_row_SomeD by fastforce
  qed
  then have "map j_id (map (\<lambda>c. the (find_job (fst c) s')) cs) = map fst cs" by simp
  moreover have "set (map fst cs) = j_id ` {r \<in> set (s_jobs s). ?P r \<and> ?Q r}" by (auto simp: cs_def)
  ultimately have ids: "set (map j_id (map (\<lambda>c. the (find_job (fst c) s')) cs)) = j_id ` {r \<in> set (s_jobs s). ?P r \<and> ?Q r}"
    by simp
  show ?thesis
  proof (cases "list_ex (\<lambda>w. w_gpu_id w = ''mlx'' \<and> live_since ?cutoff w) (s_workers s)")
    case True
    then show ?thesis by (simp add: fail_stranded_mlx_jobs_def)
  next
    case False
    then have "fail_stranded_mlx_jobs pol n True grace s = Inr (map (\<lambda>c. the (find_job (fst c) s')) cs, s')"
      unfolding fail_stranded_mlx_jobs_def Let_def queued_before_def cs_def [symmetric] using run by simp
    with False rows [unfolded fst_conv snd_conv] ids show ?thesis by (simp only: if_False) blast
  qed
qed

theorem stranded_mlx_sweep_exact_witness:
  "\<exists>failed s'. fail_stranded_mlx_jobs demo_policy 1767323100 True 30 demo_store = Inr (failed, s')
    \<and> length (s_jobs s') = 1"
proof -
  have "distinct (map j_id (s_jobs demo_store))"
    "\<not> list_ex (\<lambda>w. w_gpu_id w = ''mlx'' \<and> live_since (cutoff_instant 1767323100 30) w) (s_workers demo_store)"
    "length (s_jobs demo_store) = 1"
    by code_simp+
  then show ?thesis
    using stranded_mlx_sweep_exact [of demo_store demo_policy 1767323100 30] by auto
qed

section \<open>Metrics and retention\<close>

text \<open>
  Retention never changes the statistics: every entry of the statistics feed, of a live
  job or of the history, is still in the feed after a purge.
\<close>

theorem purge_keeps_statistics:
  assumes "purge_terminal_jobs_completed_before datetime cutoff s = Inr (n, s')"
    and "distinct (map m_job_id (s_metrics s))" and "distinct (map j_id (s_jobs s))"
    and "\<forall>h \<in> set (s_history s). m_job_id (h_metrics h) \<notin> j_id ` set (s_jobs s)"
    and "h \<in> set (stats_feed s)"
  shows "h \<in> set (stats_feed s')"
proof (cases "h \<in> set (s_history s)")
  case True
  have hist: "s_history s' = fold insert_or_replace (join_metrics (purgeable datetime cutoff) s) (s_history s)"
    using assms(1) by (auto simp: purge_terminal_jobs_completed_before_def Let_def)
  have "m_job_id (h_metrics h) \<noteq> m_job_id (h_metrics x)" if "x \<in> set (join_metrics (purgeable datetime cutoff) s)" for x
  proof -
    from that obtain m r where "find_job (m_job_id m) s = Some r" "x = history_of m r" by (auto simp: join_metrics_iff)
    then have "m_job_id (h_metrics x) \<in> j_id ` set (s_jobs s)"
      using lookup_row_SomeD [of j_id "m_job_id m" "s_jobs s" r] by (force simp: history_of_def)
    then show ?thesis using assms(4) True by metis
  qed
  then have "h \<in> set (s_history s')" unfolding hist using True by (intro fold_insert_keeps) auto
  then show ?thesis by (simp add: stats_feed_def)
next
  case False
  then have "h \<in> set (join_metrics (\<lambda>_. True) s)" using assms(5) by (simp add: stats_feed_def)
  then show ?thesis by (rule purge_keeps_joined [OF assms(1-3)])
qed

theorem purge_keeps_statistics_witness:
  "history_of demo_metrics demo_done \<in> set (stats_feed (snd (projr (purge_terminal_jobs_completed_before Some ''9999'' demo_measured))))"
proof (rule purge_keeps_statistics)
  let ?p = "purge_terminal_jobs_completed_before Some ''9999'' demo_measured"
  show "?p = Inr (fst (projr ?p), snd (projr ?p))" by (rule Inr_projr) code_simp
  show "history_of demo_metrics demo_done \<in> set (stats_feed demo_measured)"
    by (simp add: stats_feed_def join_metrics_def demo_measured_def demo_metrics_def demo_done_found)
  show "\<forall>h \<in> set (s_history demo_measured). m_job_id (h_metrics h) \<notin> j_id ` set (s_jobs demo_measured)"
    unfolding demo_measured_def by (simp add: demo_finished_history)
  show "distinct (map j_id (s_jobs demo_measured))" "distinct (map m_job_id (s_metrics demo_measured))"
    by code_simp+
qed

text \<open>
  C21. Retention removes exactly the finished jobs completed more than the configured number of
  days ago, counts them, and is off at zero days. SQLite's \<open>datetime\<close> is assumed to order the
  timestamps the store writes as instants.
\<close>

theorem retention_exact:
  assumes order: "\<And>t u. four_digit_instant t \<Longrightarrow> four_digit_instant u \<Longrightarrow>
      \<exists>a b. datetime (format_unix_seconds t) = Some a \<and> datetime (format_unix_seconds u) = Some b \<and> (text_less a b \<longleftrightarrow> t < u)"
    and stamps: "\<forall>r \<in> set (s_jobs s). is_terminal_status (j_status r) \<longrightarrow>
      j_completed_at r = Some (format_unix_seconds (completed r)) \<and> four_digit_instant (completed r)"
    and "four_digit_instant (n - int days * 86400)"
  shows "\<exists>removed s'. purge_terminal_jobs_older_than datetime n days s = Inr (removed, s')
    \<and> removed = length (s_jobs s) - length (s_jobs s')
    \<and> s_jobs s' = filter (\<lambda>r. \<not> (0 < days \<and> is_terminal_status (j_status r) \<and> completed r < n - int days * 86400)) (s_jobs s)"
proof (cases "days = 0")
  case True
  then show ?thesis by (simp add: purge_terminal_jobs_older_than_def)
next
  case False
  let ?cutoff = "format_unix_seconds (n - int days * 86400)"
  have gone: "purgeable datetime ?cutoff r \<longleftrightarrow> is_terminal_status (j_status r) \<and> completed r < n - int days * 86400"
    if "r \<in> set (s_jobs s)" for r
  proof (cases "is_terminal_status (j_status r)")
    case True
    with stamps that order [of "completed r", OF _ assms(3)] obtain a b where
      "datetime (format_unix_seconds (completed r)) = Some a" "datetime ?cutoff = Some b"
      "text_less a b \<longleftrightarrow> completed r < n - int days * 86400" by blast
    then show ?thesis using True stamps that by (simp add: purgeable_def)
  qed (simp add: purgeable_def)
  then have rows: "filter (\<lambda>r. \<not> purgeable datetime ?cutoff r) (s_jobs s) =
      filter (\<lambda>r. \<not> (0 < days \<and> is_terminal_status (j_status r) \<and> completed r < n - int days * 86400)) (s_jobs s)"
    using False by (intro filter_cong) auto
  have "length (filter (purgeable datetime ?cutoff) (s_jobs s)) =
      length (s_jobs s) - length (filter (\<lambda>r. \<not> purgeable datetime ?cutoff r) (s_jobs s))"
    using sum_length_filter_compl [of "purgeable datetime ?cutoff" "s_jobs s"] by simp
  then show ?thesis
    using False by (simp add: purge_terminal_jobs_older_than_def purge_terminal_jobs_completed_before_def Let_def rows)
qed

theorem retention_exact_witness:
  "\<exists>removed s'. purge_terminal_jobs_older_than Some 1767582246 3 demo_finished = Inr (removed, s')
    \<and> removed = 1 \<and> s_jobs s' = []"
proof -
  have order: "\<exists>a b. Some (format_unix_seconds t) = Some a \<and> Some (format_unix_seconds u) = Some b \<and> (text_less a b \<longleftrightarrow> t < u)"
    if "four_digit_instant t" "four_digit_instant u" for t u
    using format_less_iff that by simp
  have rows: "s_jobs demo_finished = [demo_done]" unfolding demo_done_def by code_simp
  have "j_completed_at demo_done = Some (format_unix_seconds 1767323045)" "four_digit_instant 1767323045"
    "four_digit_instant (1767582246 - int 3 * 86400)" unfolding demo_done_def by code_simp+
  then show ?thesis
    using retention_exact [of Some demo_finished "\<lambda>_. 1767323045" 1767582246 3, OF order]
    by (auto simp: rows demo_done_status)
qed

text \<open>
  A metrics report updates its own row only and never loses a value: a column the report
  carries is stored, a column it omits keeps its stored value.
\<close>

theorem metrics_upsert_merges:
  "(case get_generation_metrics k (upsert_generation_metrics now i reported s) of
      None \<Rightarrow> k \<noteq> i \<and> get_generation_metrics k s = None
    | Some m \<Rightarrow> if k \<noteq> i then get_generation_metrics k s = Some m
        else m_job_id m = i \<and> m_updated_at m = now
          \<and> m_values m = (\<lambda>c. coalesce (reported c)
              (case get_generation_metrics i s of None \<Rightarrow> None | Some old \<Rightarrow> m_values old c)))"
proof (cases "k = i")
  case True
  then show ?thesis
    by (auto simp: upsert_lookup merge_metrics_def coalesce_def fun_eq_iff split: option.split)
qed (simp add: upsert_other split: option.split)

section \<open>Listings\<close>

text \<open>
  The queue listing shows at most a thousand uncleared jobs of the project and status
  asked for, newest first, and nothing newer is left out: a matching job that is not listed is
  no newer than any that is.
\<close>

theorem listing_shows_newest:
  "(let listed = list_jobs project_id status limit s;
        shown = (\<lambda>r. j_cleared_at r = None \<and> in_project project_id r
          \<and> (case status of None \<Rightarrow> True | Some st \<Rightarrow> job_status_str (j_status r) = st))
    in length listed \<le> 1000 \<and> list_all (\<lambda>r. r \<in> set (s_jobs s) \<and> shown r) listed
      \<and> sorted_wrt (\<lambda>a b. \<not> text_less (j_created_at a) (j_created_at b)) listed
      \<and> list_all (\<lambda>r. if shown r \<and> r \<notin> set listed
          then list_all (\<lambda>x. \<not> text_less (j_created_at x) (j_created_at r)) listed else True) (s_jobs s))"
proof -
  have "length (list_jobs project_id status limit s) \<le> 1000"
    using list_jobs_length [of project_id status limit s] by (simp add: MAX_LISTED_JOBS_def)
  moreover have "list_all (\<lambda>r. r \<in> set (s_jobs s) \<and> j_cleared_at r = None \<and> in_project project_id r
      \<and> (case status of None \<Rightarrow> True | Some st \<Rightarrow> job_status_str (j_status r) = st)) (list_jobs project_id status limit s)"
    by (auto simp: list_all_iff list_jobs_def dest!: in_set_takeD)
  ultimately show ?thesis
    using list_jobs_sorted [of project_id status limit s] list_jobs_newest [of _ s project_id status limit]
    by (auto simp: Let_def list_all_iff)
qed

text \<open>
  The queue counts account for every visible job: in a reachable store the counts of the
  known statuses add up to the number of uncleared rows.
\<close>

theorem counts_cover_queue:
  assumes "reachable pol protocol s" and "length (s_jobs s) < 2 ^ 32"
  shows "sum_list (map (\<lambda>st. the (queue_counts s st)) known_job_status) =
    length (filter (\<lambda>r. j_cleared_at r = None) (s_jobs s))"
proof -
  have "status_count s st \<le> length (s_jobs s)" for st
    unfolding status_count_def by (rule length_filter_le)
  then have "min (status_count s st) (2 ^ 32 - 1) = status_count s st" for st
    using assms(2) order_le_less_trans [of "status_count s st" "length (s_jobs s)"] by fastforce
  then have "map (\<lambda>st. the (queue_counts s st)) known_job_status = map (status_count s) known_job_status"
    by (intro map_cong) (simp_all add: queue_counts_def)
  moreover have "\<forall>r \<in> set (s_jobs s). j_status r \<in> set known_job_status"
    using reachable_table [OF assms(1)] by (simp add: row_ok_def row_stamped_def)
  ultimately show ?thesis by (simp only: queue_counts_total)
qed

theorem counts_cover_queue_witness:
  "sum_list (map (\<lambda>st. the (queue_counts demo_finished st)) known_job_status) = 1"
proof -
  have "length (filter (\<lambda>r. j_cleared_at r = None) (s_jobs demo_finished)) = 1" "length (s_jobs demo_finished) = 1"
    by code_simp+
  then show ?thesis using counts_cover_queue [OF demo_finished_reachable] by simp
qed

end
