(* ===== verification/Names.thy ===== *)
theory Names
  imports SafePath "HOL-Library.While_Combinator" "HOL-Library.Sublist"
begin

text \<open>
  Names made from free text (\<open>slug.rs\<close>) and the grammar of Hugging Face repository names
  (\<open>hf_repo_id.rs\<close>). Strings are read as bytes: a character outside ASCII is a run of bytes
  none of which is alphanumeric, so each loop treats it as one separator. The loops that
  shorten the slug are \<open>while_option\<close>, whose value is \<open>None\<close> when the loop does not end.
\<close>

section \<open>Slugs\<close>

definition slug_step :: "char \<Rightarrow> string \<times> bool \<Rightarrow> char \<Rightarrow> string \<times> bool" where
  "slug_step separator st character =
     (if is_ascii_alphanumeric character then (fst st @ [to_ascii_lowercase character], False)
      else if \<not> snd st \<and> fst st \<noteq> [] then (fst st @ [separator], True)
      else st)"

definition pop_trailing :: "char \<Rightarrow> string \<Rightarrow> string option" where
  "pop_trailing separator = while_option (\<lambda>s. s \<noteq> [] \<and> last s = separator) butlast"

text \<open>\<open>str::is_char_boundary\<close>: the ends, and every byte that does not continue a character.\<close>

definition is_char_boundary :: "string \<Rightarrow> nat \<Rightarrow> bool" where
  "is_char_boundary s limit \<longleftrightarrow> limit = 0 \<or> limit = length s
     \<or> limit < length s \<and> \<not> (128 \<le> char_code (s ! limit) \<and> char_code (s ! limit) < 192)"

definition truncate_at_boundary :: "nat \<Rightarrow> string \<Rightarrow> string option" where
  "truncate_at_boundary max_length s =
     map_option (\<lambda>limit. take limit s)
       (while_option (\<lambda>limit. \<not> is_char_boundary s limit) (\<lambda>limit. limit - 1) (min max_length (length s)))"

definition slugify_with :: "string \<Rightarrow> string \<Rightarrow> nat option \<Rightarrow> char \<Rightarrow> string option" where
  "slugify_with value fallback max_length separator =
     Option.bind (pop_trailing separator (fst (foldl (slug_step separator) ([], False) (trim value)))) (\<lambda>slug.
       let slug = (if slug = [] then fallback else slug)
       in case max_length of
            None \<Rightarrow> Some slug
          | Some max_length \<Rightarrow>
              Option.bind (truncate_at_boundary max_length slug) (pop_trailing separator))"

definition slugify :: "string \<Rightarrow> string \<Rightarrow> nat option \<Rightarrow> string option" where
  "slugify value fallback max_length = slugify_with value fallback max_length CHR ''-''"

definition worker_id_step :: "string \<times> bool \<Rightarrow> char \<Rightarrow> string \<times> bool" where
  "worker_id_step st character =
     (if is_ascii_alphanumeric character \<or> character \<in> {CHR ''_'', CHR ''.'', CHR ''-''}
      then (fst st @ [character], False)
      else if \<not> snd st \<and> fst st \<noteq> [] then (fst st @ [CHR ''-''], True)
      else st)"

definition slugify_worker_id_part :: "string \<Rightarrow> string \<Rightarrow> string option" where
  "slugify_worker_id_part value fallback =
     map_option (\<lambda>output. if output = [] then fallback else output)
       (pop_trailing CHR ''-'' (fst (foldl worker_id_step ([], False) value)))"

section \<open>Repository names\<close>

definition repo_component_ok :: "string \<Rightarrow> bool" where
  "repo_component_ok part \<longleftrightarrow> part \<noteq> [] \<and> hd part \<noteq> CHR ''-'' \<and> hd part \<noteq> CHR ''.''
     \<and> last part \<noteq> CHR ''-'' \<and> last part \<noteq> CHR ''.''
     \<and> \<not> sublist ''--'' part \<and> \<not> sublist ''..'' part
     \<and> list_all (\<lambda>c. is_ascii_alphanumeric c \<or> c \<in> {CHR ''_'', CHR ''-'', CHR ''.''}) part"

definition parse_repo_id :: "string \<Rightarrow> string + string" where
  "parse_repo_id value =
     (let value = trim value; parts = split_on CHR ''/'' value
      in if \<not> list_all repo_component_ok parts then Inl ''Hugging Face repo components must contain letters, numbers, `.`, `_`, or `-`, without leading/trailing dots or dashes, `..`, or `--`''
         else if length parts > 2 then Inl ''Hugging Face repo must be `name` or `namespace/name`''
         else Inr value)"

definition namespaced :: "string \<Rightarrow> string + string" where
  "namespaced value =
     (case parse_repo_id value of
        Inl e \<Rightarrow> Inl e
      | Inr value \<Rightarrow> if CHR ''/'' \<in> set value then Inr value
          else Inl ''Hugging Face repo must be in owner/name form'')"

section \<open>The loops end\<close>

lemma pop_trailing_total: "pop_trailing separator s = Some (rev (dropWhile (\<lambda>c. c = separator) (rev s)))"
proof (induction s rule: rev_induct)
  case Nil
  then show ?case by (simp add: pop_trailing_def while_option_unfold)
next
  case (snoc c s)
  then show ?case unfolding pop_trailing_def by (subst while_option_unfold) (simp add: butlast_append)
qed

lemma boundary_loop_total:
  "\<exists>limit. while_option (\<lambda>limit. \<not> is_char_boundary s limit) (\<lambda>limit. limit - 1) n = Some limit \<and> limit \<le> n
     \<and> is_char_boundary s limit"
proof (induction n)
  case 0
  then show ?case by (subst while_option_unfold) (simp add: is_char_boundary_def)
next
  case (Suc n)
  then show ?case by (subst while_option_unfold) (auto intro: le_SucI)
qed

lemma truncate_total:
  "\<exists>limit. truncate_at_boundary m s = Some (take limit s) \<and> limit \<le> m \<and> is_char_boundary s limit"
  using boundary_loop_total [of s "min m (length s)"] by (auto simp: truncate_at_boundary_def)

section \<open>What a slug looks like\<close>

definition slug_char :: "char \<Rightarrow> char \<Rightarrow> bool" where
  "slug_char separator c \<longleftrightarrow> is_ascii_digit c \<or> is_ascii_lower c \<or> c = separator"

text \<open>No separator at the start and none next to another.\<close>

fun spaced :: "char \<Rightarrow> string \<Rightarrow> bool" where
  "spaced separator [] = True"
| "spaced separator [c] = True"
| "spaced separator (c # d # cs) = (\<not> (c = separator \<and> d = separator) \<and> spaced separator (d # cs))"

definition slug_ok :: "char \<Rightarrow> string \<Rightarrow> bool" where
  "slug_ok separator s \<longleftrightarrow> list_all (slug_char separator) s \<and> spaced separator s \<and> (s = [] \<or> hd s \<noteq> separator)"

lemma spaced_snoc: "spaced separator (s @ [c]) \<longleftrightarrow> spaced separator s \<and> \<not> (s \<noteq> [] \<and> last s = separator \<and> c = separator)"
  by (induction separator s rule: spaced.induct) auto

lemma spaced_take: "spaced separator s \<Longrightarrow> spaced separator (take n s)"
proof (induction separator s arbitrary: n rule: spaced.induct)
  case (3 separator c d cs)
  have "spaced separator (take (Suc m) (d # cs))" for m using 3(1) [of "Suc m"] 3(2) by simp
  then show ?case using "3.prems" by (cases n; cases "n - 1") auto
qed (auto simp: take_Cons')

lemma slug_ok_snoc:
  "slug_ok separator s \<Longrightarrow> slug_char separator c \<Longrightarrow>
   (c = separator \<longrightarrow> s \<noteq> [] \<and> last s \<noteq> separator) \<Longrightarrow> slug_ok separator (s @ [c])"
  by (auto simp: slug_ok_def spaced_snoc hd_append)

lemma slug_ok_take: "slug_ok separator s \<Longrightarrow> slug_ok separator (take n s)"
  by (auto simp: slug_ok_def spaced_take list_all_iff dest: in_set_takeD)

lemma lowercase_alphanumeric:
  assumes "is_ascii_alphanumeric c"
  shows "is_ascii_digit (to_ascii_lowercase c) \<or> is_ascii_lower (to_ascii_lowercase c)"
proof (cases "is_ascii_upper c")
  case True
  then have "char_code (char_of (char_code c + 32)) = char_code c + 32"
    by (simp add: char_code_def is_ascii_upper_def)
  with True show ?thesis by (simp add: to_ascii_lowercase_def is_ascii_lower_def is_ascii_upper_def)
qed (use assms in \<open>simp add: to_ascii_lowercase_def is_ascii_alphanumeric_def\<close>)

lemma slug_fold_ok:
  assumes "\<not> is_ascii_alphanumeric separator"
  shows "slug_ok separator (fst st) \<Longrightarrow> (snd st \<longleftrightarrow> fst st \<noteq> [] \<and> last (fst st) = separator) \<Longrightarrow>
    slug_ok separator (fst (foldl (slug_step separator) st cs))"
proof (induction cs arbitrary: st)
  case (Cons c cs)
  let ?st = "slug_step separator st c"
  have "is_ascii_alphanumeric c \<Longrightarrow> to_ascii_lowercase c \<noteq> separator"
    using lowercase_alphanumeric [of c] assms by (auto simp: is_ascii_alphanumeric_def)
  then have "slug_ok separator (fst ?st) \<and> (snd ?st \<longleftrightarrow> fst ?st \<noteq> [] \<and> last (fst ?st) = separator)"
    using Cons.prems lowercase_alphanumeric [of c]
    by (cases "fst st = []") (auto simp: slug_step_def slug_char_def slug_ok_def [of _ "[_]"] intro!: slug_ok_snoc)
  then show ?case using Cons.IH by simp
qed simp

lemma pop_trailing_take:
  "\<exists>n. pop_trailing separator s = Some (take n s) \<and> (take n s = [] \<or> last (take n s) \<noteq> separator)"
proof -
  define kept where "kept = rev (dropWhile (\<lambda>c. c = separator) (rev s))"
  have "s = kept @ rev (takeWhile (\<lambda>c. c = separator) (rev s))"
    unfolding kept_def by (subst rev_append [symmetric]) simp
  then have "take (length kept) s = kept" by (metis append_eq_conv_conj)
  moreover have "kept = [] \<or> last kept \<noteq> separator"
    using hd_dropWhile [of "\<lambda>c. c = separator" "rev s"] by (auto simp: kept_def last_rev)
  moreover have "pop_trailing separator s = Some kept" by (simp add: kept_def pop_trailing_total)
  ultimately show ?thesis by (intro exI [of _ "length kept"]) simp
qed

text \<open>The loop collects nothing exactly when there is nothing alphanumeric.\<close>

lemma slug_fold_grows: "fst st \<noteq> [] \<Longrightarrow> hd (fst st) \<noteq> separator \<Longrightarrow> fst (foldl (slug_step separator) st cs) \<noteq> []
    \<and> hd (fst (foldl (slug_step separator) st cs)) \<noteq> separator"
  by (induction cs arbitrary: st) (auto simp: slug_step_def)

lemma slug_fold_empty:
  assumes "\<not> is_ascii_alphanumeric separator"
  shows "fst (foldl (slug_step separator) ([], False) cs) = [] \<longleftrightarrow> list_all (\<lambda>c. \<not> is_ascii_alphanumeric c) cs"
proof (induction cs)
  case (Cons c cs)
  show ?case
  proof (cases "is_ascii_alphanumeric c")
    case True
    then have "to_ascii_lowercase c \<noteq> separator"
      using lowercase_alphanumeric [of c] assms by (auto simp: is_ascii_alphanumeric_def)
    then have "fst (foldl (slug_step separator) ([to_ascii_lowercase c], False) cs) \<noteq> []"
      using slug_fold_grows [of "([to_ascii_lowercase c], False)"] by simp
    moreover have "slug_step separator ([], False) c = ([to_ascii_lowercase c], False)"
      using True by (simp add: slug_step_def)
    ultimately show ?thesis using True by simp
  next
    case False
    then have "slug_step separator ([], False) c = ([], False)" by (simp add: slug_step_def)
    then show ?thesis using Cons False by simp
  qed
qed simp

lemma slug_empty_iff:
  assumes "\<not> is_ascii_alphanumeric separator"
    and "pop_trailing separator (fst (foldl (slug_step separator) ([], False) cs)) = Some []"
  shows "list_all (\<lambda>c. \<not> is_ascii_alphanumeric c) cs"
proof -
  let ?fold = "fst (foldl (slug_step separator) ([], False) cs)"
  have ok: "slug_ok separator ?fold" by (rule slug_fold_ok [OF assms(1)]) (simp_all add: slug_ok_def)
  have "\<forall>c \<in> set ?fold. c = separator" using assms(2) by (simp add: pop_trailing_total dropWhile_eq_Nil_conv)
  then have "?fold = []" using ok by (cases ?fold) (auto simp: slug_ok_def)
  then show ?thesis by (simp add: slug_fold_empty [OF assms(1)])
qed



section \<open>Repository names are paths\<close>

lemma repo_component_normal: "repo_component_ok p \<Longrightarrow> CHR ''/'' \<notin> set p \<Longrightarrow> normal_component p"
proof -
  assume ok: "repo_component_ok p" and sep: "CHR ''/'' \<notin> set p"
  have "\<not> (is_ascii_alphanumeric c \<or> c \<in> {CHR ''_'', CHR ''-'', CHR ''.''})"
    if "c = CHR 0x5C \<or> c = CHR '':'' \<or> is_ascii_control c" for c
    using that by (auto simp: is_ascii_alphanumeric_def is_ascii_digit_def is_ascii_upper_def is_ascii_lower_def
      is_ascii_control_def char_code_def)
  then have "CHR 0x5C \<notin> set p" "CHR '':'' \<notin> set p" "\<not> list_ex is_ascii_control p"
    using ok unfolding repo_component_ok_def list_all_iff list_ex_iff by blast+
  then show ?thesis using ok sep by (auto simp: normal_component_def repo_component_ok_def)
qed

lemma not_blank_repo_char:
  "is_ascii_alphanumeric c \<or> c \<in> {CHR ''_'', CHR ''-'', CHR ''.''} \<Longrightarrow> \<not> is_whitespace c"
  by (auto simp: is_ascii_alphanumeric_def is_ascii_digit_def is_ascii_upper_def is_ascii_lower_def
    is_whitespace_def char_code_def)

lemma trim_not_Nil: "s \<noteq> [] \<Longrightarrow> \<not> is_whitespace (hd s) \<Longrightarrow> trim s \<noteq> []"
  by (cases s) (auto simp: trim_def dropWhile_eq_Nil_conv)

lemma length_split_on: "length (split_on sep s) = Suc (count_list s sep)"
proof (induction s)
  case (Cons c cs)
  then show ?case by (cases "split_on sep cs") auto
qed simp

text \<open>
  An accepted repository name is a safe relative path of one or two components with the
  blanks around it removed, so it can be joined to a cache directory as it is; the form with
  a namespace has exactly two.
\<close>

theorem repo_id_is_safe_path:
  assumes "parse_repo_id value = Inr repo"
  shows "\<exists>parts. portable_relative_path_parts repo = Inr parts \<and> length parts \<le> 2 \<and> repo = trim value
    \<and> list_all repo_component_ok parts
    \<and> namespaced value = (if length parts = 2 then Inr repo else Inl ''Hugging Face repo must be in owner/name form'')"
proof -
  let ?parts = "split_on CHR ''/'' repo"
  have repo: "repo = trim value" "list_all repo_component_ok ?parts" "length ?parts \<le> 2"
    using assms by (auto simp: parse_repo_id_def Let_def split: if_splits)
  have normal: "list_all normal_component ?parts"
    using repo(2) repo_component_normal split_on_no_sep by (auto simp: list_all_iff)
  obtain p ps where parts: "?parts = p # ps" by (cases ?parts) simp_all
  have "p \<noteq> []" "is_ascii_alphanumeric (hd p) \<or> hd p \<in> {CHR ''_'', CHR ''-'', CHR ''.''}"
    using repo(2) by (auto simp: parts repo_component_ok_def list_all_iff)
  moreover have "hd repo = hd p"
    using join_split [of "CHR ''/''" repo] \<open>p \<noteq> []\<close> by (cases ps) (auto simp: parts hd_append)
  moreover have "repo \<noteq> []" using parts \<open>p \<noteq> []\<close> by auto
  ultimately have "trim repo \<noteq> []" using trim_not_Nil [of repo] by (simp add: not_blank_repo_char)
  then have portable: "portable_relative_path_parts repo = Inr ?parts"
    using portable_of_normal [of ?parts] normal join_split [of "CHR ''/''" repo] by simp
  have "CHR ''/'' \<in> set repo \<longleftrightarrow> length ?parts = 2"
    using repo(3) length_split_on [of "CHR ''/''" repo] count_list_0_iff [of repo "CHR ''/''"] by linarith
  then show ?thesis using portable repo assms by (auto simp: namespaced_def)
qed

theorem repo_id_is_safe_path_witness:
  "\<exists>parts. portable_relative_path_parts ''Owner/Model.v2'' = Inr parts \<and> length parts \<le> 2"
proof -
  have "parse_repo_id '' Owner/Model.v2 '' = Inr ''Owner/Model.v2''" by code_simp
  from repo_id_is_safe_path [OF this] show ?thesis by blast
qed

end
