(* ===== verification/Jsonc.thy ===== *)
theory Jsonc
  imports Json
begin

text \<open>
  The comment stripper for hand-edited manifests (\<open>jsonc.rs\<close>). The loop has two flags and two
  inner loops that run the same iterator forward; each is a recursion on the rest of the
  text. The reference is a grammar of documents: a list of segments that says which parts
  are code, string literals and comments, and what is kept of each. The guard against
  repeated keys walks the events of the JSON parser, which is a parameter.
\<close>

section \<open>The stripper\<close>

abbreviation quote :: char where "quote \<equiv> CHR 0x22"
abbreviation backslash :: char where "backslash \<equiv> CHR 0x5C"
abbreviation slash :: char where "slash \<equiv> CHR ''/''"
abbreviation star :: char where "star \<equiv> CHR ''*''"

definition line_end :: "char \<Rightarrow> bool" where
  "line_end c \<longleftrightarrow> c = CHR 0x0D \<or> c = CHR 0x0A"

text \<open>What a line comment leaves in the output, and the text after it.\<close>

fun skip_line :: "string \<Rightarrow> string \<times> string" where
  "skip_line [] = ([], [])"
| "skip_line (c # cs) = (if line_end c then ([c], cs) else skip_line cs)"

fun skip_block :: "char \<Rightarrow> string \<Rightarrow> string" where
  "skip_block previous [] = []"
| "skip_block previous (c # cs) = (if previous = star \<and> c = slash then cs else skip_block c cs)"

lemma length_skip_line [simp]: "length (snd (skip_line cs)) \<le> length cs"
  by (induction cs rule: skip_line.induct) auto

lemma length_skip_block [simp]: "length (skip_block previous cs) \<le> length cs"
  by (induction previous cs rule: skip_block.induct) (auto intro: le_SucI)

function strip_from :: "bool \<Rightarrow> bool \<Rightarrow> string \<Rightarrow> string" where
  "strip_from in_string escaped [] = []"
| "strip_from in_string escaped (c # cs) =
     (if in_string then
        c # (if escaped then strip_from True False cs
             else if c = backslash then strip_from True True cs
             else if c = quote then strip_from False False cs
             else strip_from True False cs)
      else if c = quote then c # strip_from True escaped cs
      else if c = slash \<and> take 1 cs = [slash] then
        (let (kept, rest) = skip_line (tl cs) in kept @ strip_from False escaped rest)
      else if c = slash \<and> take 1 cs = [star] then
        strip_from False escaped (skip_block CHR 0x00 (tl cs))
      else c # strip_from False escaped cs)"
  by pat_completeness auto
termination
proof (relation "measure (\<lambda>(in_string, escaped, cs). length cs)", goal_cases)
  case (7 in_string escaped c cs x kept rest)
  then have "length rest \<le> length (tl cs)" by (metis length_skip_line snd_conv)
  then show ?case by simp
next
  case (8 in_string escaped c cs)
  have "length (skip_block CHR 0x00 (tl cs)) \<le> length (tl cs)" by (rule length_skip_block)
  then show ?case by simp
qed simp_all

declare strip_from.simps [simp del]

definition strip_jsonc_comments :: "string \<Rightarrow> string" where
  "strip_jsonc_comments value = strip_from False False value"

section \<open>Documents as segments\<close>

datatype string_item = Plain char | Escape char

datatype segment =
    Code char
  | Literal "string_item list"
  | LineComment string char
  | BlockComment string

definition item_text :: "string_item \<Rightarrow> string" where
  "item_text i = (case i of Plain c \<Rightarrow> [c] | Escape c \<Rightarrow> [backslash, c])"

definition item_ok :: "string_item \<Rightarrow> bool" where
  "item_ok i \<longleftrightarrow> (case i of Plain c \<Rightarrow> c \<noteq> quote \<and> c \<noteq> backslash | Escape c \<Rightarrow> True)"

definition literal_text :: "string_item list \<Rightarrow> string" where
  "literal_text is = [quote] @ concat (map item_text is) @ [quote]"

fun source_text :: "segment \<Rightarrow> string" where
  "source_text (Code c) = [c]"
| "source_text (Literal is) = literal_text is"
| "source_text (LineComment body nl) = [slash, slash] @ body @ [nl]"
| "source_text (BlockComment body) = [slash, star] @ body @ [star, slash]"

fun kept_text :: "segment \<Rightarrow> string" where
  "kept_text (Code c) = [c]"
| "kept_text (Literal is) = literal_text is"
| "kept_text (LineComment body nl) = [nl]"
| "kept_text (BlockComment body) = []"

text \<open>The body of a block comment does not hold the mark that closes it.\<close>

fun closes :: "string \<Rightarrow> bool" where
  "closes (c # d # cs) = (c = star \<and> d = slash \<or> closes (d # cs))"
| "closes _ = False"

fun segment_ok :: "segment \<Rightarrow> bool" where
  "segment_ok (Code c) \<longleftrightarrow> c \<noteq> quote \<and> c \<noteq> slash"
| "segment_ok (Literal is) \<longleftrightarrow> list_all item_ok is"
| "segment_ok (LineComment body nl) \<longleftrightarrow> list_all (\<lambda>c. \<not> line_end c) body \<and> line_end nl"
| "segment_ok (BlockComment body) \<longleftrightarrow> \<not> closes body"

section \<open>The stripper follows the grammar\<close>

lemma strip_items:
  "list_all item_ok is \<Longrightarrow>
   strip_from True False (concat (map item_text is) @ quote # rest) =
     concat (map item_text is) @ quote # strip_from False False rest"
  by (induction "is") (auto simp: strip_from.simps item_ok_def item_text_def split: string_item.splits)

lemma skip_line_body:
  "list_all (\<lambda>c. \<not> line_end c) body \<Longrightarrow> line_end nl \<Longrightarrow> skip_line (body @ nl # rest) = ([nl], rest)"
  by (induction body) auto

lemma skip_block_body:
  "\<not> closes (previous # body) \<Longrightarrow> skip_block previous (body @ star # slash # rest) = rest"
proof (induction body arbitrary: previous)
  case (Cons c body)
  then show ?case by simp
qed auto

lemma strip_segment:
  assumes "segment_ok seg"
  shows "strip_from False False (source_text seg @ rest) = kept_text seg @ strip_from False False rest"
proof (cases seg)
  case (Code c)
  then show ?thesis using assms by (simp add: strip_from.simps)
next
  case (Literal "is")
  then show ?thesis using assms by (simp add: strip_from.simps(2) literal_text_def strip_items)
next
  case (LineComment body nl)
  then show ?thesis using assms by (simp add: strip_from.simps(2) skip_line_body)
next
  case (BlockComment body)
  have "\<not> closes (CHR 0x00 # body)" using assms BlockComment by (cases body) simp_all
  then show ?thesis using BlockComment by (simp add: strip_from.simps(2) skip_block_body)
qed

text \<open>
  C38. Stripping a document removes its comments and nothing else: on the text of any list of
  segments it returns the code and the string literals unchanged, with every comment mark
  inside a literal kept, and of each line comment its line end, so line numbers stay.
\<close>

theorem strip_removes_exactly_comments:
  assumes "list_all segment_ok segs"
  shows "strip_jsonc_comments (concat (map source_text segs)) = concat (map kept_text segs)"
  using assms unfolding strip_jsonc_comments_def
  by (induction segs) (simp_all add: strip_from.simps(1) strip_segment)

theorem strip_removes_exactly_comments_witness:
  "strip_jsonc_comments ([CHR ''['', quote, slash, slash, backslash, quote, quote] @ ''/* a * / **/]// end'' @ [CHR 0x0A]) =
     [CHR ''['', quote, slash, slash, backslash, quote, quote, CHR '']'', CHR 0x0A]"
proof -
  let ?segs = "[Code CHR ''['', Literal [Plain slash, Plain slash, Escape quote], BlockComment '' a * / *'', Code CHR '']'',
    LineComment '' end'' CHR 0x0A]"
  have "list_all segment_ok ?segs" by code_simp
  from strip_removes_exactly_comments [OF this] show ?thesis by (simp add: literal_text_def item_text_def)
qed

section \<open>Repeated keys\<close>

text \<open>
  A parsed document with its object entries as they were written, repeats included, and the
  events \<open>serde_json\<close> hands to a visitor. A text that does not parse yields the events before
  the error and then the error.
\<close>

datatype raw_json =
    RNull
  | RBool bool
  | RInt int
  | RFloat rat
  | RStr string
  | RArr "raw_json list"
  | RObj "(string \<times> raw_json) list"

datatype event = Scalar | MapStart | MapKey string | MapEnd | SeqStart | SeqEnd | ParseFailure string

type_synonym json_parser = "string \<Rightarrow> (event list \<times> string) + raw_json"

fun events :: "raw_json \<Rightarrow> event list" where
  "events (RArr vs) = SeqStart # concat (map events vs) @ [SeqEnd]"
| "events (RObj kvs) = MapStart # concat (map (\<lambda>(k, v). MapKey k # events v) kvs) @ [MapEnd]"
| "events _ = [Scalar]"

text \<open>The last entry of a key wins, as in \<open>serde_json::Map\<close>.\<close>

fun value_of :: "raw_json \<Rightarrow> json" where
  "value_of RNull = JNull"
| "value_of (RBool b) = JBool b"
| "value_of (RInt i) = JInt i"
| "value_of (RFloat x) = JFloat x"
| "value_of (RStr s) = JStr s"
| "value_of (RArr vs) = JArr (map value_of vs)"
| "value_of (RObj kvs) = JObj (fmap_of_list (rev (map (\<lambda>(k, v). (k, value_of v)) kvs)))"

datatype duplicate_error = DuplicateObjectKey string | InvalidJson string

text \<open>
  The visitor: every open object has the set of keys it has seen. Recursion through
  \<open>next_value\<close> is the stack of these sets.
\<close>

fun visit :: "string list list \<Rightarrow> event list \<Rightarrow> duplicate_error + unit" where
  "visit seen [] = Inr ()"
| "visit seen (MapStart # es) = visit ([] # seen) es"
| "visit seen (MapKey key # es) =
     (case seen of
        [] \<Rightarrow> visit seen es
      | keys # outer \<Rightarrow> if key \<in> set keys then Inl (DuplicateObjectKey key) else visit ((key # keys) # outer) es)"
| "visit seen (MapEnd # es) = visit (tl seen) es"
| "visit seen (ParseFailure message # es) = Inl (InvalidJson message)"
| "visit seen (_ # es) = visit seen es"

definition reject_duplicate_keys :: "json_parser \<Rightarrow> string \<Rightarrow> duplicate_error + unit" where
  "reject_duplicate_keys parser json =
     (case parser json of
        Inr tree \<Rightarrow> visit [] (events tree)
      | Inl (es, message) \<Rightarrow> visit [] (es @ [ParseFailure message]))"

text \<open>\<open>serde_json::from_slice\<close>\<close>

definition from_slice :: "json_parser \<Rightarrow> string \<Rightarrow> string + json" where
  "from_slice parser json = (case parser json of Inr tree \<Rightarrow> Inr (value_of tree) | Inl (es, message) \<Rightarrow> Inl message)"

fun unique_keys :: "raw_json \<Rightarrow> bool" where
  "unique_keys (RArr vs) = list_all unique_keys vs"
| "unique_keys (RObj kvs) = (distinct (map fst kvs) \<and> list_all (\<lambda>(k, v). unique_keys v) kvs)"
| "unique_keys _ = True"

lemma visit_accepts: "unique_keys t \<Longrightarrow> visit seen (events t @ rest) = visit seen rest"
proof (induction t arbitrary: seen rest)
  case (RArr vs)
  have "visit seen (concat (map events vs) @ rest) = visit seen rest" for rest
    using RArr by (induction vs) simp_all
  then show ?case by simp
next
  case (RObj kvs)
  have ih: "visit s (events v @ es) = visit s es" if "(k, v) \<in> set kvs" "unique_keys v" for k v s es
    using RObj.IH [OF that(1) _ that(2)] by simp
  have "visit (keys # seen) (concat (map (\<lambda>(k, v). MapKey k # events v) kvs) @ MapEnd # rest) = visit seen rest"
    if "distinct (map fst kvs)" "list_all (\<lambda>(k, v). unique_keys v) kvs" "set keys \<inter> fst ` set kvs = {}" for keys
    using that ih
  proof (induction kvs arbitrary: keys)
    case (Cons kv kvs)
    obtain k v where kv: "kv = (k, v)" by (cases kv)
    have v: "visit s (events v @ es) = visit s es" for s es
      using Cons.prems(4) [of k v s es] Cons.prems(2) by (simp add: kv)
    have "visit ((k # keys) # seen) (concat (map (\<lambda>(k, v). MapKey k # events v) kvs) @ MapEnd # rest) = visit seen rest"
    proof (rule Cons.IH)
      show "visit s (events v @ es) = visit s es" if "(k, v) \<in> set kvs" "unique_keys v" for k v s es
        using that Cons.prems(4) by (meson list.set_intros(2))
    qed (use Cons.prems(1-3) in \<open>auto simp: kv\<close>)
    then show ?case using Cons.prems(3) v by (simp add: kv)
  qed simp
  from this [of "[]"] RObj.prems show ?case by simp
qed simp_all

lemma visit_refuses: "\<not> unique_keys t \<Longrightarrow> \<exists>k. visit seen (events t @ rest) = Inl (DuplicateObjectKey k)"
proof (induction t arbitrary: seen rest)
  case (RArr vs)
  have "\<exists>k. visit seen (concat (map events vs) @ rest) = Inl (DuplicateObjectKey k)"
    if "\<not> list_all unique_keys vs" for rest
    using that RArr.IH
  proof (induction vs)
    case (Cons v vs)
    then show ?case by (cases "unique_keys v") (auto simp: visit_accepts)
  qed simp
  with RArr.prems show ?case by simp
next
  case (RObj kvs)
  have ih: "\<exists>k. visit s (events v @ es) = Inl (DuplicateObjectKey k)" if "(k, v) \<in> set kvs" "\<not> unique_keys v" for k v s es
    using RObj.IH [OF that(1) _ that(2)] by simp
  have "\<exists>k. visit (keys # seen) (concat (map (\<lambda>(k, v). MapKey k # events v) kvs) @ MapEnd # rest) =
      Inl (DuplicateObjectKey k)"
    if "\<not> (distinct (map fst kvs) \<and> list_all (\<lambda>(k, v). unique_keys v) kvs \<and> set keys \<inter> fst ` set kvs = {})" for keys
    using that ih
  proof (induction kvs arbitrary: keys)
    case (Cons kv kvs)
    obtain k v where kv: "kv = (k, v)" by (cases kv)
    have v: "\<exists>k. visit s (events v @ es) = Inl (DuplicateObjectKey k)" if "\<not> unique_keys v" for s es
      using Cons.prems(2) [of k v s es] that by (simp add: kv)
    show ?case
    proof (cases "k \<in> set keys \<or> \<not> unique_keys v")
      case True
      then show ?thesis using v by (cases "k \<in> set keys") (auto simp: kv)
    next
      case False
      then have "\<exists>k'. visit ((k # keys) # seen) (concat (map (\<lambda>(k, v). MapKey k # events v) kvs) @ MapEnd # rest) =
          Inl (DuplicateObjectKey k')"
      proof (intro Cons.IH)
        show "\<exists>k. visit s (events v @ es) = Inl (DuplicateObjectKey k)" if "(k, v) \<in> set kvs" "\<not> unique_keys v" for k v s es
          using that Cons.prems(2) by (meson list.set_intros(2))
      qed (use Cons.prems(1) in \<open>auto simp: kv\<close>)
      then show ?thesis using False by (simp add: kv visit_accepts)
    qed
  qed simp
  from this [of "[]"] RObj.prems show ?case by simp
qed simp_all

text \<open>
  The guard accepts exactly the documents that parse and in which no object, at any depth,
  writes a key twice.
\<close>

theorem duplicate_guard_exact:
  "(reject_duplicate_keys parser json = Inr ()) =
     (case parser json of Inr tree \<Rightarrow> unique_keys tree | Inl _ \<Rightarrow> False)"
proof (cases "parser json")
  case (Inr tree)
  then show ?thesis
    using visit_accepts [of tree "[]" "[]"] visit_refuses [of tree "[]" "[]"]
    by (cases "unique_keys tree") (auto simp: reject_duplicate_keys_def)
next
  case (Inl failure)
  have "visit seen (es @ [ParseFailure message]) \<noteq> Inr ()" for seen es message
    by (induction seen es rule: visit.induct) (auto split: list.split)
  then show ?thesis using Inl by (cases failure) (simp add: reject_duplicate_keys_def)
qed

end
