(* ===== verification/Safetensors.thy ===== *)
theory Safetensors
  imports SafePath Jsonc Bytes "HOL-Library.List_Lexorder" "HOL-Library.Char_ord"
begin

text \<open>
  Validation of installed model files (\<open>safetensors.rs\<close>). A file is the list of its bytes; a
  directory maps names to files. The descriptor is read from the front of the file and checked
  with 64-bit arithmetic that reports overflow; lengths are natural numbers below \<open>2 ^ 64\<close>.
  The JSON parser is the parameter of \<open>Jsonc\<close>.
\<close>

section \<open>Descriptor\<close>

definition MAX_HEADER_BYTES :: nat where "MAX_HEADER_BYTES = 100000000"
definition MAX_ADAPTER_HEADER_BYTES :: nat where "MAX_ADAPTER_HEADER_BYTES = 16 * 1024 * 1024"

datatype header_json_policy = Standard | RejectDuplicateKeys

datatype header_error =
    Io string
  | Truncated
  | InvalidLength nat
  | Malformed string
  | DuplicateKey string

record header =
  h_value :: json
  h_data_start :: nat
  h_file_len :: nat

definition is_object :: "json \<Rightarrow> bool" where
  "is_object v \<longleftrightarrow> as_object v \<noteq> None"

text \<open>\<open>str::from_utf8\<close> is a parameter: the message of its error, or nothing.\<close>

definition read_header ::
  "(string \<Rightarrow> string option) \<Rightarrow> json_parser \<Rightarrow> string \<Rightarrow> nat \<Rightarrow> nat \<Rightarrow> header_json_policy
    \<Rightarrow> header_error + header" where
  "read_header utf8_error parser stream file_len max_header_bytes json_policy =
     (case read_exact 8 stream of
        None \<Rightarrow> Inl Truncated
      | Some (length_bytes, stream) \<Rightarrow>
          let header_len = from_le_bytes length_bytes in
          if header_len = 0 \<or> header_len > max_header_bytes then Inl (InvalidLength header_len)
          else case Option.bind (checked_u64 (header_len + 8)) (\<lambda>end. if end \<le> file_len then Some end else None) of
            None \<Rightarrow> Inl Truncated
          | Some data_start \<Rightarrow>
              (case read_exact header_len stream of
                 None \<Rightarrow> Inl Truncated
               | Some (raw, rest) \<Rightarrow>
                   (case (if json_policy = RejectDuplicateKeys then
                            (case utf8_error raw of
                               Some e \<Rightarrow> Some (Malformed e)
                             | None \<Rightarrow>
                                 (case reject_duplicate_keys parser raw of
                                    Inl (DuplicateObjectKey key) \<Rightarrow> Some (DuplicateKey key)
                                  | Inl (InvalidJson e) \<Rightarrow> Some (Malformed e)
                                  | Inr _ \<Rightarrow> None))
                          else None) of
                      Some e \<Rightarrow> Inl e
                    | None \<Rightarrow>
                        (case from_slice parser raw of
                           Inl e \<Rightarrow> Inl (Malformed e)
                         | Inr json \<Rightarrow>
                             if \<not> is_object json then Inl (Malformed ''header must be a JSON object'')
                             else Inr \<lparr> h_value = json, h_data_start = data_start, h_file_len = file_len \<rparr>))))"

definition dtype_bits :: "string \<Rightarrow> nat option" where
  "dtype_bits dtype =
     (if dtype = ''F4'' then Some 4
      else if dtype \<in> {''F6_E2M3'', ''F6_E3M2''} then Some 6
      else if dtype \<in> {''BOOL'', ''U8'', ''I8'', ''F8_E4M3'', ''F8_E5M2'', ''F8_E8M0'', ''F8_E4M3FNUZ'', ''F8_E5M2FNUZ''}
        then Some 8
      else if dtype \<in> {''U16'', ''I16'', ''F16'', ''BF16''} then Some 16
      else if dtype \<in> {''U32'', ''I32'', ''F32''} then Some 32
      else if dtype \<in> {''U64'', ''I64'', ''F64'', ''C64''} then Some 64
      else None)"

definition as_u64 :: "json \<Rightarrow> nat option" where
  "as_u64 v = (case v of JInt i \<Rightarrow> if 0 \<le> i \<and> i < int u64_limit then Some (nat i) else None | _ \<Rightarrow> None)"

section \<open>Tensors\<close>

fun element_count :: "nat \<Rightarrow> json list \<Rightarrow> nat option" where
  "element_count n [] = Some n"
| "element_count n (dimension # shape) =
     Option.bind (as_u64 dimension) (\<lambda>d. Option.bind (checked_u64 (n * d)) (\<lambda>product. element_count product shape))"

definition two_offsets :: "json list \<Rightarrow> (nat \<times> nat) option" where
  "two_offsets offsets =
     (case offsets of
        [start, end] \<Rightarrow> Option.bind (as_u64 start) (\<lambda>a. map_option (\<lambda>b. (a, b)) (as_u64 end))
      | _ \<Rightarrow> None)"

text \<open>One entry of the descriptor: nothing when the entry makes the file invalid.\<close>

definition tensor_range :: "nat \<Rightarrow> json \<Rightarrow> (nat \<times> nat) option" where
  "tensor_range data_len v =
     Option.bind (as_object v) (\<lambda>entry.
     Option.bind (Option.bind (get_str entry ''dtype'') dtype_bits) (\<lambda>bits_per_element.
     Option.bind (get_array entry ''shape'') (\<lambda>shape.
     Option.bind (element_count 1 shape) (\<lambda>n.
     Option.bind (get_array entry ''data_offsets'') (\<lambda>offsets.
     Option.bind (two_offsets offsets) (\<lambda>(start, end).
     Option.bind (checked_u64 (n * bits_per_element)) (\<lambda>expected_bits.
       if expected_bits mod 8 \<noteq> 0 \<or> start > end \<or> end > data_len \<or> end - start \<noteq> expected_bits div 8
       then None else Some (start, end))))))))"

fun collect_ranges :: "nat \<Rightarrow> (string \<times> json) list \<Rightarrow> (nat \<times> nat) list option" where
  "collect_ranges data_len [] = Some []"
| "collect_ranges data_len ((name, entry) # entries) =
     (if name = ''__metadata__'' then
        (if \<not> is_object entry then None else collect_ranges data_len entries)
      else if name = [] then None
      else Option.bind (tensor_range data_len entry) (\<lambda>r.
             map_option (\<lambda>rs. r # rs) (collect_ranges data_len entries)))"

fun contiguous_from :: "nat \<Rightarrow> (nat \<times> nat) list \<Rightarrow> nat option" where
  "contiguous_from next_offset [] = Some next_offset"
| "contiguous_from next_offset ((start, end) # ranges) =
     (if start \<noteq> next_offset then None else contiguous_from end ranges)"

definition range_before :: "nat \<times> nat \<Rightarrow> nat \<times> nat \<Rightarrow> bool" where
  "range_before a b \<longleftrightarrow> fst a < fst b \<or> fst a = fst b \<and> snd a < snd b"

definition file_is_structurally_valid :: "json_parser \<Rightarrow> string \<Rightarrow> bool" where
  "file_is_structurally_valid parser file =
     (case read_header (\<lambda>_. None) parser file (length file) MAX_HEADER_BYTES Standard of
        Inl _ \<Rightarrow> False
      | Inr header \<Rightarrow>
          let data_len = h_file_len header - h_data_start header;
              entries = sorted_list_of_fmap (the (as_object (h_value header)))
          in case collect_ranges data_len entries of
               None \<Rightarrow> False
             | Some ranges \<Rightarrow> ranges \<noteq> []
                 \<and> contiguous_from 0 (order_by range_before ranges) = Some data_len)"

section \<open>Sharded indexes\<close>

definition safe_relative_shard_path :: "string \<Rightarrow> bool" where
  "safe_relative_shard_path shard \<longleftrightarrow> trim shard = shard \<and> \<not> isl (relative_normal_components shard)"

text \<open>
  A directory is a map from relative paths to the bytes of regular files. Joining a checked
  shard name is looking up its components.
\<close>

type_synonym directory = "path \<Rightarrow> string option"

definition shard_file :: "directory \<Rightarrow> string \<Rightarrow> string option" where
  "shard_file dir shard = (case relative_normal_components shard of Inl _ \<Rightarrow> None | Inr parts \<Rightarrow> dir parts)"

text \<open>The distinct shard names of an index, in order; nothing when the index is unusable.\<close>

definition index_shards :: "json_parser \<Rightarrow> string option \<Rightarrow> string list option" where
  "index_shards parser index_raw =
     Option.bind index_raw (\<lambda>raw.
     Option.bind (case from_slice parser raw of Inl _ \<Rightarrow> None | Inr index \<Rightarrow> Some index) (\<lambda>index.
     Option.bind (Option.bind (json_get ''weight_map'' index) as_object) (\<lambda>weight_map.
       let shards = map (\<lambda>(k, v). as_str v) (sorted_list_of_fmap weight_map)
       in if list_ex (\<lambda>s. s = None) shards then None
          else Some (remdups_adj (order_by text_less (map the shards))))))"

definition indexed_files_are_structurally_valid :: "json_parser \<Rightarrow> directory \<Rightarrow> string option \<Rightarrow> bool" where
  "indexed_files_are_structurally_valid parser dir index_raw =
     (case index_shards parser index_raw of
        None \<Rightarrow> False
      | Some shards \<Rightarrow> shards \<noteq> [] \<and> list_all (\<lambda>shard. safe_relative_shard_path shard
          \<and> (case shard_file dir shard of None \<Rightarrow> False | Some file \<Rightarrow> file_is_structurally_valid parser file)) shards)"

definition missing_indexed_shards :: "json_parser \<Rightarrow> directory \<Rightarrow> string \<Rightarrow> string option \<Rightarrow> string list" where
  "missing_indexed_shards parser dir index_name index_raw =
     (case index_shards parser index_raw of
        None \<Rightarrow> [index_name]
      | Some shards \<Rightarrow>
          if shards = [] then [index_name]
          else filter (\<lambda>shard. \<not> safe_relative_shard_path shard \<or> shard_file dir shard = None) shards)"

definition indexed_shards_are_present :: "json_parser \<Rightarrow> directory \<Rightarrow> string \<Rightarrow> string option \<Rightarrow> bool" where
  "indexed_shards_are_present parser dir index_name index_raw \<longleftrightarrow> missing_indexed_shards parser dir index_name index_raw = []"

section \<open>Arithmetic\<close>

text \<open>The number of elements a shape stands for, as a number without bound.\<close>

definition shape_size :: "json list \<Rightarrow> nat" where
  "shape_size shape = prod_list (map (\<lambda>d. case as_u64 d of None \<Rightarrow> 0 | Some n \<Rightarrow> n) shape)"

lemma element_count_exact: "element_count n shape = Some m \<Longrightarrow> m = n * shape_size shape"
  by (induction n shape rule: element_count.induct)
    (auto simp: shape_size_def checked_u64_Some bind_eq_Some_conv algebra_simps)

lemma tensor_range_bounds:
  assumes "tensor_range data_len v = Some (a, b)"
  shows "a \<le> b \<and> b \<le> data_len
    \<and> (\<exists>entry dtype bits shape. as_object v = Some entry \<and> get_str entry ''dtype'' = Some dtype
        \<and> dtype_bits dtype = Some bits \<and> get_array entry ''shape'' = Some shape
        \<and> 8 * (b - a) = shape_size shape * bits)"
proof -
  from assms obtain entry dtype bits shape n where
    parts: "as_object v = Some entry" "get_str entry ''dtype'' = Some dtype" "dtype_bits dtype = Some bits"
      "get_array entry ''shape'' = Some shape" "element_count 1 shape = Some n"
    and range: "\<not> (n * bits mod 8 \<noteq> 0 \<or> a > b \<or> b > data_len \<or> b - a \<noteq> n * bits div 8)"
    by (auto simp: tensor_range_def bind_eq_Some_conv checked_u64_Some split: if_splits)
  have "n = shape_size shape" using element_count_exact [OF parts(5)] by simp
  moreover have "8 * (b - a) = n * bits" using range by auto
  ultimately show ?thesis using parts range by auto
qed

section \<open>Contiguous ranges tile the data\<close>

lemma contiguous_from_le:
  "contiguous_from k rs = Some m \<Longrightarrow> list_all (\<lambda>(a, b). a \<le> b) rs \<Longrightarrow> k \<le> m"
  by (induction k rs rule: contiguous_from.induct) (auto split: if_splits)

lemma contiguous_outside:
  "contiguous_from k rs = Some m \<Longrightarrow> list_all (\<lambda>(a, b). a \<le> b) rs \<Longrightarrow> x < k \<Longrightarrow> (a, b) \<in> set rs \<Longrightarrow> x < a"
  by (induction k rs rule: contiguous_from.induct) (auto split: if_splits)

lemma contiguous_covers:
  "contiguous_from k rs = Some m \<Longrightarrow> list_all (\<lambda>(a, b). a \<le> b) rs \<Longrightarrow> k \<le> x \<Longrightarrow> x < m \<Longrightarrow>
   length (filter (\<lambda>(a, b). a \<le> x \<and> x < b) rs) = 1"
proof (induction k rs rule: contiguous_from.induct)
  case (2 k a b rs)
  then have a: "a = k" "contiguous_from b rs = Some m" "list_all (\<lambda>(a, b). a \<le> b) rs" "a \<le> b"
    by (auto split: if_splits)
  show ?case
  proof (cases "x < b")
    case True
    have "filter (\<lambda>(a, b). a \<le> x \<and> x < b) rs = []"
      using contiguous_outside [OF a(2,3) True] by (fastforce simp: filter_empty_conv)
    then show ?thesis using True 2 a by simp
  next
    case False
    then show ?thesis using 2 a by simp
  qed
qed auto

lemma collect_ranges_Some:
  "collect_ranges data_len entries = Some rs \<Longrightarrow>
   rs = map (\<lambda>(k, v). the (tensor_range data_len v)) (filter (\<lambda>(k, v). k \<noteq> ''__metadata__'') entries)
   \<and> list_all (\<lambda>(k, v). k \<noteq> ''__metadata__'' \<longrightarrow> k \<noteq> [] \<and> tensor_range data_len v \<noteq> None) entries"
  by (induction data_len entries arbitrary: rs rule: collect_ranges.induct)
    (auto simp: bind_eq_Some_conv split: if_splits)

text \<open>The tensors a descriptor names.\<close>

definition tensors_of :: "json_object \<Rightarrow> (string \<times> json) list" where
  "tensors_of entries = filter (\<lambda>(k, v). k \<noteq> ''__metadata__'') (sorted_list_of_fmap entries)"

lemma read_header_Inr:
  assumes "read_header utf8 parser stream file_len limit policy = Inr h"
  shows "h_file_len h = file_len \<and> 8 < h_data_start h \<and> h_data_start h \<le> file_len \<and> h_data_start h \<le> limit + 8
    \<and> h_data_start h \<le> length stream \<and> h_data_start h = from_le_bytes (take 8 stream) + 8 \<and> is_object (h_value h)
    \<and> from_slice parser (take (h_data_start h - 8) (drop 8 stream)) = Inr (h_value h)
    \<and> (policy = RejectDuplicateKeys \<longrightarrow> reject_duplicate_keys parser (take (h_data_start h - 8) (drop 8 stream)) = Inr ())"
  using assms
  by (auto simp: read_header_def Let_def read_exact_def bind_eq_Some_conv checked_u64_Some
      split: option.splits if_splits sum.splits prod.splits duplicate_error.splits)

lemma length_filter_order_by: "length (filter P (order_by before rows)) = length (filter P rows)"
  by (metis mset_filter mset_order_by size_mset)

lemma one_in_filter: "length (filter P xs) = 1 \<Longrightarrow> \<exists>!x. x \<in> set xs \<and> P x"
proof -
  assume "length (filter P xs) = 1"
  then obtain y where "filter P xs = [y]" by (auto simp: length_Suc_conv)
  then have "set (filter P xs) = {y}" by simp
  then have "x \<in> set xs \<and> P x \<longleftrightarrow> x = y" for x by auto
  then show ?thesis by simp
qed

definition holds_byte :: "nat \<Rightarrow> nat \<Rightarrow> json \<Rightarrow> bool" where
  "holds_byte data_len x v \<longleftrightarrow> (case tensor_range data_len v of None \<Rightarrow> False | Some (a, b) \<Rightarrow> a \<le> x \<and> x < b)"

lemma valid_file_parts:
  assumes "file_is_structurally_valid parser file"
  obtains h entries ranges where
    "read_header (\<lambda>_. None) parser file (length file) MAX_HEADER_BYTES Standard = Inr h" "h_value h = JObj entries"
    "h_file_len h = length file" "h_data_start h \<le> length file"
    "collect_ranges (length file - h_data_start h) (sorted_list_of_fmap entries) = Some ranges" "ranges \<noteq> []"
    "contiguous_from 0 (order_by range_before ranges) = Some (length file - h_data_start h)"
proof -
  from assms obtain h ranges where
    h: "read_header (\<lambda>_. None) parser file (length file) MAX_HEADER_BYTES Standard = Inr h"
    and r: "collect_ranges (h_file_len h - h_data_start h) (sorted_list_of_fmap (the (as_object (h_value h)))) = Some ranges"
      "ranges \<noteq> []" "contiguous_from 0 (order_by range_before ranges) = Some (h_file_len h - h_data_start h)"
    by (auto simp: file_is_structurally_valid_def Let_def split: sum.splits option.splits)
  have facts: "h_file_len h = length file" "h_data_start h \<le> length file" "is_object (h_value h)"
    using read_header_Inr [OF h] by blast+
  then obtain entries where "h_value h = JObj entries" by (cases "h_value h") (auto simp: is_object_def)
  with that h r facts show thesis by simp
qed

section \<open>Theorems\<close>

text \<open>
  C37. A file that is accepted is tiled by its tensors: every byte of the data section belongs to
  exactly one tensor of the descriptor, there is at least one, and each tensor has a name, a
  known type and exactly the bytes its shape and type call for, as numbers without bound. So
  no accepted file has a gap, an overlap, a missing tail or a size that wrapped around.
\<close>

theorem valid_file_is_tiled:
  assumes "file_is_structurally_valid parser file"
  shows "\<exists>h entries. read_header (\<lambda>_. None) parser file (length file) MAX_HEADER_BYTES Standard = Inr h
    \<and> h_value h = JObj entries \<and> h_data_start h \<le> length file \<and> tensors_of entries \<noteq> []
    \<and> (\<forall>x < length file - h_data_start h.
         \<exists>!t. t \<in> set (tensors_of entries) \<and> holds_byte (length file - h_data_start h) x (snd t))
    \<and> (\<forall>name v. (name, v) \<in> set (tensors_of entries) \<longrightarrow> name \<noteq> [] \<and>
         (\<exists>a b entry dtype bits shape. tensor_range (length file - h_data_start h) v = Some (a, b)
           \<and> as_object v = Some entry \<and> get_str entry ''dtype'' = Some dtype \<and> dtype_bits dtype = Some bits
           \<and> get_array entry ''shape'' = Some shape \<and> 8 * (b - a) = shape_size shape * bits))"
proof -
  from valid_file_parts [OF assms] obtain h entries ranges where
    h: "read_header (\<lambda>_. None) parser file (length file) MAX_HEADER_BYTES Standard = Inr h" "h_value h = JObj entries"
      "h_data_start h \<le> length file"
    and r: "collect_ranges (length file - h_data_start h) (sorted_list_of_fmap entries) = Some ranges" "ranges \<noteq> []"
      "contiguous_from 0 (order_by range_before ranges) = Some (length file - h_data_start h)" by blast
  let ?len = "length file - h_data_start h"
  let ?ts = "tensors_of entries"
  have each: "k \<noteq> [] \<and> (\<exists>a b. tensor_range ?len v = Some (a, b))" if "(k, v) \<in> set ?ts" for k v
    using collect_ranges_Some [OF r(1)] that by (auto simp: tensors_of_def list_all_iff)
  have ranges: "ranges = map (\<lambda>(k, v). the (tensor_range ?len v)) ?ts"
    using collect_ranges_Some [OF r(1)] by (simp add: tensors_of_def)
  have ordered: "list_all (\<lambda>(a, b). a \<le> b) (order_by range_before ranges)"
    using each tensor_range_bounds unfolding ranges list_all_iff set_order_by by fastforce
  have tiles: "\<exists>!t. t \<in> set ?ts \<and> holds_byte ?len x (snd t)" if x: "x < ?len" for x
  proof (rule one_in_filter)
    have "length (filter (\<lambda>(a, b). a \<le> x \<and> x < b) ranges) = 1"
      using contiguous_covers [OF r(3) ordered _ x] by (simp add: length_filter_order_by)
    moreover have "filter ((\<lambda>(a, b). a \<le> x \<and> x < b) \<circ> (\<lambda>(k, v). the (tensor_range ?len v))) ?ts =
        filter (\<lambda>t. holds_byte ?len x (snd t)) ?ts"
      by (intro filter_cong refl) (fastforce simp: holds_byte_def dest: each)
    ultimately show "length (filter (\<lambda>t. holds_byte ?len x (snd t)) ?ts) = 1"
      unfolding ranges by (simp add: filter_map)
  qed
  have sizes: "\<exists>a b entry dtype bits shape. tensor_range ?len v = Some (a, b)
      \<and> as_object v = Some entry \<and> get_str entry ''dtype'' = Some dtype \<and> dtype_bits dtype = Some bits
      \<and> get_array entry ''shape'' = Some shape \<and> 8 * (b - a) = shape_size shape * bits" if in_ts: "(k, v) \<in> set ?ts" for k v
    using each [OF in_ts] tensor_range_bounds [of ?len v] by blast
  have "?ts \<noteq> []" using r(2) ranges by auto
  with h tiles sizes each show ?thesis by (intro exI [of _ h] exI [of _ entries]) blast
qed

lemma collect_ranges_shorter:
  "collect_ranges len entries = Some rs \<Longrightarrow> collect_ranges len' entries = Some rs' \<Longrightarrow> rs' = rs"
proof (induction len entries arbitrary: rs rs' rule: collect_ranges.induct)
  case (2 len name entry entries)
  have "r = r'" if "tensor_range len entry = Some r" "tensor_range len' entry = Some r'" for r r'
    using that by (auto simp: tensor_range_def bind_eq_Some_conv split: if_splits)
  with 2 show ?case by (auto simp: bind_eq_Some_conv split: if_splits)
qed simp

text \<open>
  An interrupted download is never taken for a model: no proper prefix of an accepted file
  is accepted.
\<close>

theorem truncated_file_rejected:
  assumes "file_is_structurally_valid parser file" and "n < length file"
  shows "\<not> file_is_structurally_valid parser (take n file)"
proof
  assume "file_is_structurally_valid parser (take n file)"
  then obtain h' entries' ranges' where
    h': "read_header (\<lambda>_. None) parser (take n file) (length (take n file)) MAX_HEADER_BYTES Standard = Inr h'"
      "h_value h' = JObj entries'"
    and r': "collect_ranges (length (take n file) - h_data_start h') (sorted_list_of_fmap entries') = Some ranges'"
      "contiguous_from 0 (order_by range_before ranges') = Some (length (take n file) - h_data_start h')"
    by (rule valid_file_parts)
  from valid_file_parts [OF assms(1)] obtain h entries ranges where
    h: "read_header (\<lambda>_. None) parser file (length file) MAX_HEADER_BYTES Standard = Inr h" "h_value h = JObj entries"
    and r: "collect_ranges (length file - h_data_start h) (sorted_list_of_fmap entries) = Some ranges"
      "contiguous_from 0 (order_by range_before ranges) = Some (length file - h_data_start h)" by blast
  note read = read_header_Inr [OF h(1)] and read' = read_header_Inr [OF h'(1)]
  have "h_data_start h' \<le> length (take n file)" and start8: "8 < h_data_start h'" using read' by blast+
  then have start: "h_data_start h' \<le> n" by simp
  have "take 8 (take n file) = take 8 file" using start start8 by (simp add: min_def)
  then have same: "h_data_start h' = h_data_start h" using read read' by metis
  then have "take (h_data_start h' - 8) (drop 8 (take n file)) = take (h_data_start h - 8) (drop 8 file)"
    using start start8 by (simp add: drop_take min_def)
  then have "h_value h' = h_value h" using read read' by (metis sum.inject(2))
  then have "entries' = entries" using h(2) h'(2) by simp
  then have "ranges' = ranges" using collect_ranges_shorter r(1) r'(1) by blast
  then have "length (take n file) - h_data_start h' = length file - h_data_start h" using r(2) r'(2) by simp
  then show False using assms(2) start same by simp
qed

text \<open>A file of one byte of tensor data, and a parser for its descriptor.\<close>

definition sample_tensor :: raw_json where
  "sample_tensor = RObj [(''dtype'', RStr ''U8''), (''shape'', RArr [RInt 1]), (''data_offsets'', RArr [RInt 0, RInt 1])]"

definition sample_parser :: json_parser where
  "sample_parser text =
     (if text = ''index'' then Inr (RObj [(''weight_map'', RObj [(''w'', RStr ''m/a.safetensors'')])])
      else if text = ''{}'' then Inr (RObj [(''w'', sample_tensor)]) else Inl ([], ''expected value''))"

definition sample_file :: string where
  "sample_file = [CHR 0x02, CHR 0x00, CHR 0x00, CHR 0x00, CHR 0x00, CHR 0x00, CHR 0x00, CHR 0x00] @ ''{}'' @ [CHR 0x07]"

lemma sample_file_valid: "file_is_structurally_valid sample_parser sample_file"
proof -
  let ?len = "CHR 0x02 # replicate 7 CHR 0x00"
  have "read_exact 8 sample_file = Some (?len, ''{}'' @ [CHR 0x07])" by code_simp
  moreover have "from_le_bytes ?len = 2" by (simp add: char_code_def numeral_eq_Suc)
  moreover have "read_exact 2 (''{}'' @ [CHR 0x07]) = Some (''{}'', [CHR 0x07])" "length sample_file = 11" by code_simp+
  ultimately have "read_header (\<lambda>_. None) sample_parser sample_file (length sample_file) MAX_HEADER_BYTES Standard =
      Inr \<lparr> h_value = value_of (RObj [(''w'', sample_tensor)]), h_data_start = 10, h_file_len = 11 \<rparr>"
    by (simp add: read_header_def MAX_HEADER_BYTES_def checked_u64_def u64_limit_def
      from_slice_def sample_parser_def is_object_def)
  moreover have "sorted_list_of_fmap (the (as_object (value_of (RObj [(''w'', sample_tensor)])))) = [(''w'', value_of sample_tensor)]"
    by code_simp
  moreover have "tensor_range 1 (value_of sample_tensor) = Some (0, 1)"
    by (simp add: tensor_range_def sample_tensor_def get_str_def get_array_def dtype_bits_def two_offsets_def as_u64_def
      checked_u64_def u64_limit_def)
  ultimately show ?thesis by (simp add: file_is_structurally_valid_def order_by_Cons)
qed

theorem valid_file_is_tiled_witness:
  "\<exists>h entries. read_header (\<lambda>_. None) sample_parser sample_file 11 MAX_HEADER_BYTES Standard = Inr h
    \<and> h_value h = JObj entries \<and> tensors_of entries \<noteq> []"
proof -
  have "length sample_file = 11" by code_simp
  then show ?thesis using valid_file_is_tiled [OF sample_file_valid] by metis
qed

theorem truncated_file_rejected_witness: "\<not> file_is_structurally_valid sample_parser (take 10 sample_file)"
proof -
  have "10 < length sample_file" by code_simp
  then show ?thesis by (rule truncated_file_rejected [OF sample_file_valid])
qed

text \<open>
  A sharded model that is accepted is whole and inside its directory: every shard the index
  names is given by a path of normal components and is itself an accepted file, so none is
  reported missing.
\<close>

theorem indexed_model_is_whole:
  assumes "indexed_files_are_structurally_valid parser dir index_raw"
  shows "\<exists>shards. index_shards parser index_raw = Some shards \<and> shards \<noteq> []
    \<and> (\<forall>shard. shard \<in> set shards \<longrightarrow> (\<exists>parts file. relative_normal_components shard = Inr parts
         \<and> list_all normal_component parts \<and> dir parts = Some file \<and> file_is_structurally_valid parser file))
    \<and> missing_indexed_shards parser dir index_name index_raw = []"
proof -
  from assms obtain shards where s: "index_shards parser index_raw = Some shards" "shards \<noteq> []"
    and each: "\<forall>shard \<in> set shards. safe_relative_shard_path shard
       \<and> (case shard_file dir shard of None \<Rightarrow> False | Some file \<Rightarrow> file_is_structurally_valid parser file)"
    by (auto simp: indexed_files_are_structurally_valid_def list_all_iff split: option.splits)
  have "\<exists>parts file. relative_normal_components shard = Inr parts \<and> list_all normal_component parts
      \<and> dir parts = Some file \<and> file_is_structurally_valid parser file" if "shard \<in> set shards" for shard
  proof -
    from each that obtain parts where parts: "relative_normal_components shard = Inr parts"
      by (cases "relative_normal_components shard") (auto simp: safe_relative_shard_path_def)
    then have "list_all normal_component parts"
      using path_normal_components_Inr by (auto simp: relative_normal_components_def split: if_splits)
    then show ?thesis using each that parts by (auto simp: shard_file_def split: option.splits)
  qed
  moreover have "missing_indexed_shards parser dir index_name index_raw = []"
    using s each by (auto simp: missing_indexed_shards_def filter_empty_conv split: option.splits)
  ultimately show ?thesis using s by blast
qed

theorem indexed_model_is_whole_witness:
  "\<exists>shards. index_shards sample_parser (Some ''index'') = Some shards \<and> shards \<noteq> []
    \<and> missing_indexed_shards sample_parser (\<lambda>p. if p = [''m'', ''a.safetensors''] then Some sample_file else None)
        ''model.safetensors.index.json'' (Some ''index'') = []"
proof -
  have "index_shards sample_parser (Some ''index'') = Some [''m/a.safetensors'']" by code_simp
  moreover have "safe_relative_shard_path ''m/a.safetensors''" by code_simp
  moreover have "relative_normal_components ''m/a.safetensors'' = Inr [''m'', ''a.safetensors'']" by code_simp
  ultimately have "indexed_files_are_structurally_valid sample_parser
      (\<lambda>p. if p = [''m'', ''a.safetensors''] then Some sample_file else None) (Some ''index'')"
    by (simp add: indexed_files_are_structurally_valid_def shard_file_def sample_file_valid)
  from indexed_model_is_whole [OF this] show ?thesis by blast
qed

end
