(* ===== verification/Admission.thy ===== *)
theory Admission
  imports Json "HOL-Library.Word"
begin

text \<open>
  Admission of a request against the envelope a model declares (\<open>admission_geometry.rs\<close>).
  The fields keep their widths: \<open>u32\<close> sides and counts, \<open>u64\<close> areas and tokens. Sums and
  products of \<open>u64\<close> wrap around, as in a release build.
\<close>

section \<open>The envelope\<close>

record admission_geometry =
  max_side :: "32 word"
  max_preset_area :: "64 word"
  max_target_image_tokens :: "64 word"
  max_reference_images :: "32 word"
  max_batch_reference_tokens :: "64 word"
  max_joint_tokens :: "64 word"
  pixels_per_token :: "64 word"
  max_batch :: "32 word"

definition DECLARED_CONDITIONING_TOKENS :: "64 word" where "DECLARED_CONDITIONING_TOKENS = 256"

datatype admission_refusal =
    Side "32 word" "32 word"
  | Area "64 word" "64 word"
  | ReferenceCount "32 word" "32 word"
  | Batch "32 word" "32 word"
  | JointTokens "64 word" "64 word"

definition as_u64_word :: "json \<Rightarrow> 64 word option" where
  "as_u64_word v = (case v of JInt i \<Rightarrow> if 0 \<le> i \<and> i < 2 ^ 64 then Some (word_of_int i) else None | _ \<Rightarrow> None)"

definition u64_field :: "json \<Rightarrow> string \<Rightarrow> 64 word option" where
  "u64_field block key = Option.bind (json_get key block) as_u64_word"

definition u32_field :: "json \<Rightarrow> string \<Rightarrow> 32 word option" where
  "u32_field block key =
     Option.bind (u64_field block key) (\<lambda>value. if value < 2 ^ 32 then Some (ucast value) else None)"

definition from_manifest :: "json_object \<Rightarrow> admission_geometry option" where
  "from_manifest entry =
     Option.bind (fmlookup entry ''admissionGeometry'') (\<lambda>block.
     Option.bind (u32_field block ''maxSide'') (\<lambda>side.
     Option.bind (u64_field block ''maxPresetArea'') (\<lambda>area.
     Option.bind (u64_field block ''maxTargetImageTokens'') (\<lambda>target.
     Option.bind (u32_field block ''maxReferenceImages'') (\<lambda>references.
     Option.bind (u64_field block ''tokensPerMaxReference'') (\<lambda>per_reference.
     Option.bind (u64_field block ''maxJointTokens'') (\<lambda>joint.
     Option.bind (u64_field block ''pixelsPerToken'') (\<lambda>pixels.
     Option.bind (u32_field block ''maxBatch'') (\<lambda>batch.
       Some \<lparr> max_side = side, max_preset_area = area, max_target_image_tokens = target,
              max_reference_images = references, max_batch_reference_tokens = per_reference,
              max_joint_tokens = joint, pixels_per_token = pixels, max_batch = batch \<rparr>)))))))))"

definition image_tokens :: "admission_geometry \<Rightarrow> 32 word \<Rightarrow> 32 word \<Rightarrow> 64 word" where
  "image_tokens g width height =
     (if pixels_per_token g = 0 then 0
      else (ucast width div pixels_per_token g) * (ucast height div pixels_per_token g))"

definition joint_tokens :: "admission_geometry \<Rightarrow> 32 word \<Rightarrow> 32 word \<Rightarrow> 32 word \<Rightarrow> 64 word" where
  "joint_tokens g width height reference_count =
     DECLARED_CONDITIONING_TOKENS + image_tokens g width height
     + ucast reference_count * max_batch_reference_tokens g"

definition admit :: "admission_geometry \<Rightarrow> 32 word \<Rightarrow> 32 word \<Rightarrow> 32 word \<Rightarrow> 32 word \<Rightarrow> admission_refusal + 64 word" where
  "admit g width height reference_count batch =
     (let longest = max width height in
      if longest > max_side g then Inl (Side longest (max_side g))
      else
        let area = ucast width * ucast height in
        if area > max_preset_area g then Inl (Area area (max_preset_area g))
        else if reference_count > max_reference_images g
        then Inl (ReferenceCount reference_count (max_reference_images g))
        else if batch > max_batch g then Inl (Batch batch (max_batch g))
        else
          let tokens = joint_tokens g width height reference_count in
          if tokens > max_joint_tokens g then Inl (JointTokens tokens (max_joint_tokens g))
          else Inr tokens)"

definition refusal_message :: "string \<Rightarrow> admission_refusal \<Rightarrow> string" where
  "refusal_message model refusal = model @ '': '' @
     (case refusal of
        Side requested limit \<Rightarrow> show_nat (unat requested) @ '' px exceeds the model'' @ [CHR 0x27] @ ''s '' @ show_nat (unat limit)
          @ '' px longest side. Pick a smaller preset; the request is refused rather than silently resized.''
      | Area requested limit \<Rightarrow> show_nat (unat requested) @ '' pixels exceeds the model'' @ [CHR 0x27]
          @ ''s largest preset area of '' @ show_nat (unat limit)
          @ '' pixels. Both sides can be individually legal and the area still be too large. The ''
          @ ''request is refused rather than silently resized.''
      | ReferenceCount requested limit \<Rightarrow> show_nat (unat requested) @ '' reference images exceed the ''
          @ show_nat (unat limit) @ '' the model'' @ [CHR 0x27] @ ''s joint layout can express. ''
          @ ''The request is refused rather than silently dropping references.''
      | Batch requested limit \<Rightarrow> ''a batch of '' @ show_nat (unat requested) @ '' exceeds the model'' @ [CHR 0x27]
          @ ''s maximum of '' @ show_nat (unat limit) @ ''.''
      | JointTokens requested limit \<Rightarrow> ''this request needs '' @ show_nat (unat requested)
          @ '' joint attention tokens, above the model'' @ [CHR 0x27] @ ''s declared '' @ show_nat (unat limit)
          @ ''. Every limit on its own is satisfied '' @ map char_of [226 :: nat, 128, 148] @ '' it is the combination of ''
          @ ''output size and reference count that is too large, because each reference adds a ''
          @ ''fixed block of image tokens. Reduce the output size or the number of references; ''
          @ ''the request is refused rather than silently shrunk.'')"

definition refuse_over_envelope ::
  "string \<Rightarrow> json_object \<Rightarrow> 32 word \<Rightarrow> 32 word \<Rightarrow> 32 word \<Rightarrow> 32 word \<Rightarrow> string option" where
  "refuse_over_envelope model entry width height reference_count batch =
     Option.bind (from_manifest entry) (\<lambda>geometry.
       case admit geometry width height reference_count batch of
         Inl refusal \<Rightarrow> Some (refusal_message model refusal)
       | Inr _ \<Rightarrow> None)"

section \<open>No product of sides overflows\<close>

lemma unat_ucast_32_64: "unat (ucast (x :: 32 word) :: 64 word) = unat x"
proof -
  have "unat x < 2 ^ 32" using unsigned_less [of x] by simp
  then have "unat x < 2 ^ 64" by simp
  then show ?thesis by (simp add: unsigned_ucast_eq take_bit_nat_eq_self)
qed

lemma unat_area: "unat (ucast (w :: 32 word) * ucast (h :: 32 word) :: 64 word) = unat w * unat h"
proof -
  have "unat w < 2 ^ 32" "unat h < 2 ^ 32" using unsigned_less [of w] unsigned_less [of h] by simp_all
  then have "unat w * unat h < 2 ^ 32 * 2 ^ 32" by (rule mult_strict_mono) simp_all
  then show ?thesis by (subst unat_mult_lem [THEN iffD1]) (simp_all add: unat_ucast_32_64)
qed

lemma unat_image_tokens:
  "unat (image_tokens g w h) =
     (if pixels_per_token g = 0 then 0
      else (unat w div unat (pixels_per_token g)) * (unat h div unat (pixels_per_token g)))"
proof (cases "pixels_per_token g = 0")
  case False
  let ?p = "unat (pixels_per_token g)"
  have "unat w < 2 ^ 32" "unat h < 2 ^ 32" using unsigned_less [of w] unsigned_less [of h] by simp_all
  then have "unat w div ?p < 2 ^ 32" "unat h div ?p < 2 ^ 32" using div_le_dividend order_le_less_trans by blast+
  then have "(unat w div ?p) * (unat h div ?p) < 2 ^ 32 * 2 ^ 32" by (rule mult_strict_mono) simp_all
  then show ?thesis
    using False by (simp add: image_tokens_def) (subst unat_mult_lem [THEN iffD1]; simp add: unat_div unat_ucast_32_64)
qed (simp add: image_tokens_def)

lemma image_tokens_le_area:
  "unat (image_tokens g w h) * (unat (pixels_per_token g) * unat (pixels_per_token g)) \<le> unat w * unat h"
proof -
  let ?p = "unat (pixels_per_token g)"
  have "(unat w div ?p * ?p) * (unat h div ?p * ?p) \<le> unat w * unat h" by (intro mult_le_mono) simp_all
  then show ?thesis by (simp add: unat_image_tokens algebra_simps)
qed

section \<open>Theorems\<close>

text \<open>The tokens of a request as a number without bound.\<close>

definition true_tokens :: "admission_geometry \<Rightarrow> 32 word \<Rightarrow> 32 word \<Rightarrow> 32 word \<Rightarrow> nat" where
  "true_tokens g w h refs =
     256 + unat (image_tokens g w h) + unat refs * unat (max_batch_reference_tokens g)"

definition axes_ok :: "admission_geometry \<Rightarrow> 32 word \<Rightarrow> 32 word \<Rightarrow> 32 word \<Rightarrow> 32 word \<Rightarrow> bool" where
  "axes_ok g w h refs batch \<longleftrightarrow> unat w \<le> unat (max_side g) \<and> unat h \<le> unat (max_side g)
     \<and> unat w * unat h \<le> unat (max_preset_area g) \<and> unat refs \<le> unat (max_reference_images g)
     \<and> unat batch \<le> unat (max_batch g)"

lemma unat_joint_tokens: "true_tokens g w h refs < 2 ^ 64 \<Longrightarrow> unat (joint_tokens g w h refs) = true_tokens g w h refs"
proof -
  assume small: "true_tokens g w h refs < 2 ^ 64"
  let ?r = "ucast refs * max_batch_reference_tokens g"
  have r: "unat ?r = unat refs * unat (max_batch_reference_tokens g)"
    using small by (subst unat_mult_lem [THEN iffD1]) (simp_all add: true_tokens_def unat_ucast_32_64)
  have i: "unat (256 + image_tokens g w h) = 256 + unat (image_tokens g w h)"
    using small by (subst unat_add_lem [THEN iffD1]) (simp_all add: true_tokens_def)
  show ?thesis
    unfolding joint_tokens_def DECLARED_CONDITIONING_TOKENS_def
    using small by (subst unat_add_lem [THEN iffD1]) (simp_all add: true_tokens_def i r)
qed

lemma admit_cases:
  "admit g w h refs batch = Inr t \<longleftrightarrow> axes_ok g w h refs batch \<and> joint_tokens g w h refs \<le> max_joint_tokens g
     \<and> t = joint_tokens g w h refs"
proof -
  have "max w h \<le> max_side g \<longleftrightarrow> unat w \<le> unat (max_side g) \<and> unat h \<le> unat (max_side g)"
    by (auto simp: max_def word_le_nat_alt)
  moreover have "(ucast w * ucast h :: 64 word) \<le> max_preset_area g \<longleftrightarrow> unat w * unat h \<le> unat (max_preset_area g)"
    by (simp add: word_le_nat_alt unat_area)
  ultimately show ?thesis
    by (auto simp: admit_def Let_def axes_ok_def word_le_nat_alt not_less word_less_nat_alt linorder_not_less)
qed


text \<open>
  The composite bound is implied by the others when it is declared as the sum of its parts:
  an envelope whose joint bound is at least conditioning, the tokens of its largest area and
  all its references refuses nothing that its axes admit.
\<close>

theorem joint_bound_implied:
  assumes "0 < unat (pixels_per_token g)"
    and "256 + unat (max_preset_area g) div (unat (pixels_per_token g) * unat (pixels_per_token g))
      + unat (max_reference_images g) * unat (max_batch_reference_tokens g) \<le> unat (max_joint_tokens g)"
    and "axes_ok g w h refs batch"
  shows "\<exists>t. admit g w h refs batch = Inr t \<and> unat t = true_tokens g w h refs"
proof -
  let ?pp = "unat (pixels_per_token g) * unat (pixels_per_token g)"
  have "unat (image_tokens g w h) * ?pp \<le> unat (max_preset_area g)"
    using image_tokens_le_area [of g w h] assms(3) by (simp add: axes_ok_def)
  then have "unat (image_tokens g w h) * ?pp div ?pp \<le> unat (max_preset_area g) div ?pp" by (rule div_le_mono)
  then have "unat (image_tokens g w h) \<le> unat (max_preset_area g) div ?pp" using assms(1) by simp
  moreover have "unat refs * unat (max_batch_reference_tokens g)
      \<le> unat (max_reference_images g) * unat (max_batch_reference_tokens g)"
    using assms(3) by (simp add: axes_ok_def)
  ultimately have tokens: "true_tokens g w h refs \<le> unat (max_joint_tokens g)"
    using assms(2) unfolding true_tokens_def by linarith
  moreover have "unat (max_joint_tokens g) < 2 ^ 64" using unsigned_less [of "max_joint_tokens g"] by simp
  ultimately have "true_tokens g w h refs < 2 ^ 64" by linarith
  then show ?thesis using assms(3) tokens by (auto simp: admit_cases word_le_nat_alt unat_joint_tokens)
qed

definition qwen_2_1 :: admission_geometry where
  "qwen_2_1 = \<lparr> max_side = 2752, max_preset_area = 4300800, max_target_image_tokens = 16800, max_reference_images = 10,
     max_batch_reference_tokens = 4096, max_joint_tokens = 58016, pixels_per_token = 16, max_batch = 8 \<rparr>"


theorem joint_bound_implied_witness: "\<exists>t. admit qwen_2_1 2400 1792 10 8 = Inr t \<and> unat t = true_tokens qwen_2_1 2400 1792 10"
  by (rule joint_bound_implied) (simp_all add: qwen_2_1_def axes_ok_def)

end
