(* ===== verification/Spec2Isabelle.thy ===== *)
theory Spec2Isabelle
  imports PngSpans Mp4Boxes ScoreEdit CacheRemoval CacheLifecycle FoundationLaws LifecycleLaws RecoveryLaws Names Safetensors Admission
begin

text \<open>
  This development verifies the core of SceneWorks, a desktop and server application for
  generating images, video and audio. Clients enqueue jobs over HTTP; worker processes, one
  per GPU, register, claim jobs, report progress and send heartbeats. The queue between them
  is \<open>JobsStore\<close> of \<open>src/crates/sceneworks-core/src/jobs_store.rs\<close>, an SQLite database with
  four tables behind one write lock. It is the part of the program that owns shared state, so
  it is the part modelled whole. Around it stand self-contained modules of the same crate
  that guard what enters the system.

  \<^bold>\<open>Shape of the model.\<close> A store is the record \<open>jobs_store\<close>: the rows of \<open>jobs\<close>, \<open>workers\<close>,
  \<open>generation_metrics\<close> and \<open>generation_metrics_history\<close> as lists of records, in insertion
  order, and the session start. Every public method is a function that takes the arguments of
  the method, the clock reading it would make, the random id it would draw and the store, and
  returns \<open>Inl error\<close> or \<open>Inr (value, store)\<close>. A method runs in one immediate transaction
  under the write lock, so a method is one atomic step, and an error leaves the store as it
  was (\<open>promote_pending_workflow_job\<close> runs two, which are composed). The triggers that number rows and payloads are \<open>after_update\<close>, applied by every update
  statement. Timestamps are the texts the code writes; comparisons of columns are comparisons
  of text. Floating-point readings that are only clamped, compared and maximised are rational
  numbers, with the non-finite values kept as constructors; 64-bit arithmetic saturates where
  the code saturates and wraps where it wraps.

  \<^bold>\<open>Theories.\<close>
  \<^item> \<open>Prelude\<close>: saturating arithmetic, ASCII text, \<open>order by\<close> as a stable insertion sort, update
    statements and lookups over lists of rows. The locale \<open>row_order\<close> is the contract of a
    comparator; every \<open>order by\<close> clause interprets it.
  \<^item> \<open>Clock\<close>: \<open>time.rs\<close>, with the calendar algorithms in both directions.
  \<^item> \<open>Contracts\<close>: the string enums of \<open>contracts.rs\<close> and the status classes of \<open>jobs_store.rs\<close>.
  \<^item> \<open>Json\<close>: \<open>serde_json::Value\<close> and the accessors in use.
  \<^item> \<open>JobRows\<close>: the four tables, the errors, and one setter per update statement.
  \<^item> \<open>Routing\<close>: the facts a claim is decided on (\<open>ClaimRoutingFacts\<close>), worker compatibility,
    model affinity and dispatch scores.
  \<^item> \<open>JobRules\<close>: the moves a row can make. \<open>job_sql\<close> lists every update statement with its
    guard; the locales over it give the invariant of rows and, once per relation, what any
    run preserves of a row. Interpretations establish identity, numbering, latches, the frozen
    end states and ownership of waiting rows.
  \<^item> \<open>JobLifecycle\<close>: creation, promotion, cancellation, priority, retry, duplication, clearing
    and the repair of routing projections.
  \<^item> \<open>JobWorkers\<close>: registration, heartbeats, the stale sweep, restart recovery, and the sweeps
    that fail jobs no worker can run.
  \<^item> \<open>JobClaim\<close>: \<open>claim_next_job_routed\<close>: the candidate query, the scan, affinity, deferrals.
  \<^item> \<open>JobProgress\<close>: progress reports, merging of results, the handoff of side effects.
  \<^item> \<open>JobMetrics\<close>, \<open>JobQueries\<close>: metrics, retention, listings and counts.
  \<^item> \<open>JobMachine\<close>: the whole store as a transition system: \<open>api_step\<close>, \<open>worker_step\<close>,
    \<open>store_step\<close>, and \<open>reachable\<close> from an empty database. Its flag \<open>protocol\<close> says that
    workers report only worker-side and terminal statuses, as the shipped worker does.
  \<^item> \<open>JobSpec\<close>: the abstract queue the store implements and the exclusive use of devices.
  \<^item> \<open>JobDemo\<close>: a concrete run on which the theorems are applied.
  \<^item> \<open>FoundationLaws\<close>, \<open>LifecycleLaws\<close>, \<open>RecoveryLaws\<close> and this theory: the theorems on the
    store.
  \<^item> \<open>SafePath\<close>: \<open>safe_path.rs\<close>, relative paths from documents and their confinement.
  \<^item> \<open>Names\<close>: \<open>slug.rs\<close> and \<open>hf_repo_id.rs\<close>, names made from free text.
  \<^item> \<open>Jsonc\<close>: \<open>jsonc.rs\<close>, the comment stripper and the guard against repeated keys.
  \<^item> \<open>Safetensors\<close>: \<open>safetensors.rs\<close>, structural validity of model files and of sharded models.
  \<^item> \<open>Admission\<close>: \<open>admission_geometry.rs\<close>, requests against the envelope a model declares.
  \<^item> \<open>CacheStore\<close>: \<open>resolved_cache.rs\<close>, the local cache of model bundles: its policy, the two-slot
    journal of an entry, and pins.
  \<^item> \<open>CacheRetention\<close>: \<open>resolved_cache/retention.rs\<close>, the sweep and the eviction of one entry.
  \<^item> \<open>CacheLifecycle\<close>: reservation, completion, acquisition and recovery in \<open>resolved_cache.rs\<close>.
  \<^item> \<open>CacheRemoval\<close>: the rest of \<open>retention.rs\<close>, manual removal and reconciliation, and the deleter.
  \<^item> \<open>Bytes\<close>: byte strings, slices and fixed-width integers for the binary formats.
  \<^item> \<open>PngSpans\<close>: \<open>workflow_png.rs\<close>, the workflow envelope in a PNG: chunk framing, the copy without it,
    and the reader. The reference is a split of the bytes into framed chunks and a filter over them.
  \<^item> \<open>Mp4Boxes\<close>: \<open>workflow_mp4.rs\<close>, the same envelope in a movie file: the metadata document and the
    bounded walk over the boxes, with a generator of nested boxes as its reference.
  \<^item> \<open>AbcFrac\<close>, \<open>AbcTokens\<close>, \<open>AbcParse\<close>, \<open>AbcLaws\<close>: \<open>yue2_score/abc.rs\<close>, the two-voice score dialect:
    exact time, tokens, the parser, and the invariant of its state.
  \<^item> \<open>ScoreOps\<close>: \<open>yue2_score/ops.rs\<close>, the edits of a score as text.
  \<^item> \<open>ScoreCompare\<close>: \<open>yue2_score/compare.rs\<close> and \<open>mod.rs\<close>, change contracts, the report that checks an
    edit against its contract, and the song request.
  \<^item> \<open>ScoreEdit\<close>: \<open>apply_operation\<close>, which composes the parser, the edits and the report.

  \<^bold>\<open>What the theorems show.\<close> Over all runs: rows stay well formed and ids unique; finished jobs
  never change; every change of a row raises its revision; a device runs one GPU job at a
  time; the store simulates an abstract queue. Per operation: what it changes, what it leaves
  alone, and exactly when it fails. For recovery: that restart, the stale sweep and the
  sweeps of stranded jobs act on exactly the rows they should. For what enters the system:
  confined paths stay below their root, accepted model files are tiled by their tensors and no
  prefix of one is accepted, the stripper removes comments and nothing else, admitted requests
  are within the declared bounds as unbounded numbers. For the resolved cache: an eviction is
  authorised under its locks whatever other sessions do, a sweep spares what is protected and
  goes by last use, a preview predicts the removal, reconciliation hides nothing, and the
  journal survives damage to the slot written last; a reservation takes over only abandoned
  entries and keeps their pins, and recovery pins only what verified. For the envelopes in media
  files: the copy of a PNG without them keeps every other byte, the reader of movie files stays
  inside the file whatever it declares, and what was embedded is read back. For scores: an accepted
  score is a sound piece of two voices, an accepted edit changes only what it declares, chords are
  placed without changing what is heard, a change of form is a rearrangement of whole sections, and
  a change of tempo always succeeds. Where the code does not do
  what its comments say, the theorem states what it does.

  \<^bold>\<open>Parameters.\<close> \<open>routing_policy\<close> holds the catalog predicates of \<open>routing/catalog.rs\<close>,
  \<open>routing/mlx.rs\<close> and \<open>routing/candle.rs\<close> that test a payload against tables of model
  families; theorems about claims that need it assume \<open>stamp_neutral\<close>, that the predicates do
  not read the one key a claim writes. \<open>datetime\<close> is SQLite's function of that name and
  \<open>to_string\<close> is the rendering of a JSON value.
  The file system is the record \<open>file_system\<close> of the calls \<open>safe_path.rs\<close> makes; the JSON
  parser is a function from a text to a tree of entries as written, or to the events before
  its error and the error (\<open>json_parser\<close>); \<open>utf8_error\<close> is \<open>str::from_utf8\<close>.
  \<open>environment\<close> is what a pass over the resolved cache observes: lock outcomes, measurements,
  validations, the attributes of source files at three moments, the errors of writes and
  removals, and what other sessions do to the store between two locks; \<open>shape_check\<close> is the
  validation of a document against its bundle; \<open>lifecycle_io\<close> adds the clock, random ids, content
  validation and the errors of writes. No hypothesis is made on any of them.
  \<open>png_reader\<close> is the decoder of the \<open>png\<close> crate, \<open>utf8_ops\<close> the UTF-8 functions the movie reader calls
  and \<open>envelope_parser\<close> the parser of the envelope; the round trip of an envelope assumes that the
  parser reads what was serialized. \<open>sha256\<close> is the digest of a score text.

  \<^bold>\<open>Termination.\<close> Every definition is a total function. Loops are structural recursion or
  folds; no fuel is used. The walk up a path in \<open>SafePath\<close> and the scan in \<open>Jsonc\<close> recurse on
  the length of the rest; the loops of \<open>Names\<close> are \<open>while_option\<close> and are proved to end. The box walk of
  \<open>Mp4Boxes\<close> recurses on the bytes left and the containers left, the lexer loops of the score dialect on
  the text left, which each token shortens, and the greatest common divisor on its second argument.

  \<^bold>\<open>Not modelled.\<close> Opening and migrating the database, connection pooling and file locks; the
  HTTP handlers, server-sent events and the desktop shell; the inference workers, which run
  native libraries; the catalog tables themselves; of the resolved cache, the file formats, the
  copying and hashing of bundles, publication from staging and background cleanups; the film, training, character and asset
  stores and the versions of scores, which read and write documents on disk; the encoding of PNG
  files, which the \<open>png\<close> crate does; the inspection view of a score. Lists of the parts are in the manifest.
\<close>

section \<open>The store over all runs\<close>

text \<open>
  C1. In every store that any sequence of the operations can produce, from an empty database
  and with any arguments, ids are unique and every row is well formed: a known status, a
  completion stamp on every finished row and a cancellation stamp on every canceled one, an
  owner, a device and a start behind every worker-side status, readings in range, and API
  side effects waiting only on finished jobs.
\<close>

theorem reachable_rows_ok:
  assumes "reachable pol protocol s"
  shows "distinct (map j_id (s_jobs s)) \<and> (\<forall>r \<in> set (s_jobs s). row_ok r)"
  using reachable_table [OF assms] by blast

theorem reachable_rows_ok_witness:
  "length (s_jobs demo_claimed) = 1 \<and> row_ok (hd (s_jobs demo_claimed))"
proof -
  have "s_jobs demo_claimed \<noteq> []" using demo_claimed_length by auto
  then show ?thesis
    using reachable_rows_ok [OF demo_claimed_reachable] demo_claimed_length by simp
qed



text \<open>
  C8. Every version of a job is the same job: over any run its id, type, project, requested
  device, attempt number, lineage, creation time and model provenance never change; a change
  of any column raises the revision clients order their events by; what is recorded once
  (start, clearing, backend, download binding, cancel request) stays recorded and the
  resource peaks only grow.
\<close>

theorem job_history:
  assumes "reachable pol protocol s" and "store_steps pol protocol s s'" and "find_job i s = Some r"
  shows "\<exists>r'. find_job i s' = Some r' \<and> same_identity r r'
    \<and> (r' = r \<or> j_revision r < j_revision r') \<and> latched r r'"
proof -
  have steps: "live_steps pol (writers_of protocol) (s_jobs s) (s_jobs s')"
    using store_steps_live [OF assms(2)] reachable_table [OF assms(1)] by blast
  show ?thesis
    using identity.relates [OF steps assms(3)] numbering.relates [OF steps assms(3)]
      latches.relates [OF steps assms(3)]
    by (auto simp: numbered_def)
qed

theorem job_history_witness:
  "\<exists>r'. find_job ''job_1'' demo_cleared = Some r' \<and> j_type r' = ImageGenerate \<and> j_backend r' = Some ''cuda''"
proof -
  from job_history [OF demo_finished_reachable demo_cleared_steps demo_done_found]
  obtain r' where "find_job ''job_1'' demo_cleared = Some r'" "same_identity demo_done r'" "latched demo_done r'"
    by blast
  moreover have "j_type demo_done = ImageGenerate" "j_backend demo_done = Some ''cuda''"
    unfolding demo_done_def by code_simp+
  ultimately show ?thesis by (auto simp: same_identity_def latched_def)
qed



text \<open>
  C2. One GPU job per device: in every run with workers that follow the protocol, two rows
  of GPU jobs that are both worker-side on the same device (the MLX and MPS descriptors
  name one device) are the same row.
\<close>

theorem one_gpu_job_per_device:
  assumes "reachable pol True s" and "r \<in> set (s_jobs s)" and "r' \<in> set (s_jobs s)"
    and "is_active_status (j_status r)" and "is_active_status (j_status r')"
    and "\<not> is_non_gpu_job_type (j_type r)" and "\<not> is_non_gpu_job_type (j_type r')"
    and "map_option device_of (j_assigned_gpu r) = map_option device_of (j_assigned_gpu r')"
  shows "r = r'"
proof -
  have "j_id r = j_id r'"
    using reachable_device [OF assms(1)] assms unfolding device_exclusive_def gpu_active_def by blast
  then show ?thesis
    using reachable_table [OF assms(1)] assms(2,3) by (metis lookup_row_member option.inject)
qed

theorem one_gpu_job_per_device_witness:
  "\<exists>r. r \<in> set (s_jobs demo_claimed) \<and> is_active_status (j_status r) \<and> \<not> is_non_gpu_job_type (j_type r) \<and> r = hd (s_jobs demo_claimed)"
proof -
  let ?r = "hd (s_jobs demo_claimed)"
  have "?r \<in> set (s_jobs demo_claimed)" "is_active_status (j_status ?r)" "\<not> is_non_gpu_job_type (j_type ?r)"
    by code_simp+
  then show ?thesis
    using one_gpu_job_per_device [OF demo_claimed_reachable, of ?r ?r] by blast
qed

section \<open>Claiming\<close>

text \<open>
  C3. A successful claim takes a queued job the worker supports, addressed to its device or
  to any, of the highest rank among all such jobs; it returns the job as stored, prepared
  under that worker and device; no other row of the table changes.
\<close>

theorem claim_takes_best_supported:
  assumes "reachable pol protocol s"
    and "claim_next_job_routed pol now worker_id mlx_required s = Inr ((Some job, decision), s')"
  shows "\<exists>w q. find_worker worker_id s = Some w \<and> find_job (j_id job) s = Some q \<and> j_status q = Queued
    \<and> worker_supports_job pol w q
    \<and> (is_non_gpu_job_type (j_type q) \<or> j_requested_gpu q = ''auto'' \<or> j_requested_gpu q = w_gpu_id w)
    \<and> (\<forall>r \<in> set (s_jobs s). claimable_header s w r \<longrightarrow> header_supports w r \<longrightarrow> j_queue_rank r \<le> j_queue_rank q)
    \<and> j_status job = Preparing \<and> j_worker_id job = Some worker_id
    \<and> j_assigned_gpu job = Some (if is_non_gpu_job_type (j_type q) then ''cpu'' else w_gpu_id w)
    \<and> find_job (j_id job) s' = Some job
    \<and> (\<forall>k. k \<noteq> j_id job \<longrightarrow> find_job k s' = find_job k s)"
proof -
  have ok: "jobs_ok s" and ids: "distinct (map j_id (s_jobs s))" using reachable_table [OF assms(1)] by blast+
  from claim_Inr [OF assms(2) ids] obtain w q where
    w: "find_worker worker_id s = Some w" and q: "q \<in> set (s_jobs s)" "find_job (j_id q) s = Some q"
    and header: "claimable_header s w q" and sup: "worker_supports_job pol w q"
    and best: "\<forall>r \<in> set (s_jobs s). claimable_header s w r \<longrightarrow> header_supports w r \<longrightarrow>
       max (j_queue_rank r) 0 \<le> max (j_queue_rank q) 0"
    and s': "s' = take_claim pol now q w s" and job: "job = claimed_row pol now w q" .
  have rank: "0 \<le> j_queue_rank r" if "r \<in> set (s_jobs s)" for r
    using ok that by (simp add: row_ok_def row_in_range_def)
  have queued: "j_status q = Queued" using header by (simp add: claimable_header_def)
  have "w_id w = worker_id" using lookup_row_SomeD [OF w] by simp
  moreover have "\<forall>r \<in> set (s_jobs s). claimable_header s w r \<longrightarrow> header_supports w r \<longrightarrow> j_queue_rank r \<le> j_queue_rank q"
    using best rank rank [OF q(1)] by fastforce
  ultimately show ?thesis
    using w q(2) header sup queued take_claim_find(1) [OF q(2) queued]
      take_claim_find(2) [OF q(2) queued]
    by (intro exI [of _ w] exI [of _ q])
      (simp add: s' job claimed_row_fields assigned_gpu_for_def claimable_header_def)
qed

theorem claim_takes_best_supported_witness:
  "\<exists>w q. find_worker ''worker-a'' demo_store = Some w \<and> find_job ''job_1'' demo_store = Some q
    \<and> worker_supports_job demo_policy w q"
proof -
  have "j_id (claimed_row demo_policy demo_now demo_worker demo_row) = ''job_1''" by code_simp
  with claim_takes_best_supported [OF demo_reachable demo_claim] show ?thesis by auto
qed

text \<open>
  A claim fails in two ways only: the worker is not registered, or a queued row carries a
  routing projection that is older than its payload, and the error names that row. In no
  reachable store does the projection of a current row disagree with its payload, provided
  the catalog predicates do not read the key the claim itself stamps.
\<close>

theorem claim_errors:
  assumes "stamp_neutral pol" and "reachable pol protocol s"
    and "claim_next_job_routed pol now worker_id mlx_required s = Inl e"
  shows "find_worker worker_id s = None \<and> e = NotFound worker_id
    \<or> (\<exists>r. r \<in> set (s_jobs s) \<and> j_status r = Queued \<and> projection_stale r
         \<and> e = StaleClaimRoutingFacts (j_id r) (j_claim_facts_version r) CLAIM_ROUTING_FACTS_VERSION
                 (j_payload_revision r) (j_claim_payload_revision r))"
proof (cases "find_worker worker_id s")
  case None
  with assms(3) show ?thesis by (simp add: claim_next_job_routed_def get_worker_def)
next
  case (Some w)
  show ?thesis
  proof (cases "first_stale_queued s")
    case None
    with claim_total_when_fresh [OF assms(1,2) Some] obtain out s' where
      "claim_next_job_routed pol now worker_id mlx_required s = Inr (out, s')" by blast
    with assms(3) show ?thesis by simp
  next
    case (Some r)
    with first_stale_Some [OF Some] assms(3) \<open>find_worker worker_id s = _\<close> show ?thesis
      by (auto simp: claim_next_job_routed_def get_worker_def)
  qed
qed

theorem claim_errors_witness:
  "claim_next_job_routed demo_policy demo_now ''ghost'' False demo_store = Inl (NotFound ''ghost'')
   \<and> find_worker ''ghost'' demo_store = None"
proof -
  have fails: "claim_next_job_routed demo_policy demo_now ''ghost'' False demo_store = Inl (NotFound ''ghost'')"
    by code_simp
  from claim_errors [OF demo_stamp_neutral demo_reachable this] fails show ?thesis by auto
qed



text \<open>
  C12. Promoting a captioned job with a payload equal to the stored one leaves its projection
  one revision ahead of the payload, because the trigger that numbers payloads fires only
  on a changed payload: the job is then queued with a stale projection, and every claim of
  every worker fails until the next start repairs it.
\<close>

theorem unchanged_promotion_blocks_claims:
  assumes "distinct (map j_id (s_jobs s))" and "find_job i s = Some r" and "j_status r = PendingCaption"
    and "promote_pending_caption_job pol now i (Some (j_payload r)) s = Inr (out, s')"
    and "find_worker worker_id s = Some w"
  shows "\<exists>j v pr fr. claim_next_job_routed pol now' worker_id mlx_required s' =
    Inl (StaleClaimRoutingFacts j v CLAIM_ROUTING_FACTS_VERSION pr fr)"
proof -
  let ?new = "after_update r (set_promoted (j_payload r) (facts_from_parts pol (j_type r) (j_payload r)) now r)"
  from assms(4) promote_payload_Inr [OF assms(1-3), of pol now "j_payload r"] have
    s': "s' = update_jobs (\<lambda>x. j_id x = i \<and> j_status x = PendingCaption)
      (set_promoted (j_payload r) (facts_from_parts pol (j_type r) (j_payload r)) now) s" by simp
  have "?new \<in> set (s_jobs s')"
    using lookup_row_SomeD [OF assms(2)] assms(3) by (auto simp: s' set_sql_update)
  moreover have "projection_stale ?new" by (simp add: promoted_stale_iff)
  moreover have "j_status ?new = Queued" by (simp add: after_update_def set_promoted_def set_queued_def)
  ultimately have "first_stale_queued s' \<noteq> None" unfolding first_stale_None by blast
  then obtain x where "first_stale_queued s' = Some x" by blast
  moreover have "find_worker worker_id s' = Some w" using assms(5) by (simp add: s')
  ultimately show ?thesis by (simp add: claim_next_job_routed_def get_worker_def)
qed

theorem unchanged_promotion_blocks_claims_witness:
  "\<exists>j v pr fr. claim_next_job_routed demo_policy demo_now ''worker-a'' False
      (snd (projr (promote_pending_caption_job demo_policy demo_now ''job_1'' (Some demo_payload) demo_captioning))) =
    Inl (StaleClaimRoutingFacts j v CLAIM_ROUTING_FACTS_VERSION pr fr)"
proof (rule unchanged_promotion_blocks_claims)
  show "promote_pending_caption_job demo_policy demo_now ''job_1'' (Some (j_payload demo_caption_row)) demo_captioning =
    Inr (fst (projr (promote_pending_caption_job demo_policy demo_now ''job_1'' (Some demo_payload) demo_captioning)),
      snd (projr (promote_pending_caption_job demo_policy demo_now ''job_1'' (Some demo_payload) demo_captioning)))"
    by code_simp
qed code_simp+

text \<open>
  The repair at start leaves no stale projection, so a store that has been initialized
  never refuses a registered worker's claim.
\<close>

theorem initialized_store_serves_claims:
  assumes "stamp_neutral pol" and "reachable pol protocol s" and "find_worker worker_id s = Some w"
  shows "\<exists>out s'. claim_next_job_routed pol now worker_id mlx_required (backfill_claim_routing_facts pol s) = Inr (out, s')"
proof -
  let ?s = "backfill_claim_routing_facts pol s"
  have "reachable pol protocol ?s"
    using assms(2) by (blast intro: reachable.step store_step.api api_step.initialize)
  moreover have "find_worker worker_id ?s = Some w" using assms(3) by (simp add: backfill_workers)
  moreover have "first_stale_queued ?s = None" unfolding first_stale_None using backfill_no_stale by blast
  ultimately show ?thesis using claim_total_when_fresh [OF assms(1)] by blast
qed

theorem initialized_store_serves_claims_witness:
  "\<exists>out s'. claim_next_job_routed demo_policy demo_now ''worker-a'' True
    (backfill_claim_routing_facts demo_policy demo_store) = Inr (out, s')"
proof -
  have "find_worker ''worker-a'' demo_store = Some demo_worker" by code_simp
  from initialized_store_serves_claims [OF demo_stamp_neutral demo_reachable this] show ?thesis .
qed

end
